theory Spec2Isabelle
  imports Complex_Main
begin

section \<open>The Veo ad-insert route: data model\<close>

text \<open>
  A shallow embedding of \<^verbatim>\<open>src/app/api/veo/route.ts\<close>. JavaScript numbers are
  modelled as exact rationals (\<^typ>\<open>rat\<close>): every number the handler computes with has
  passed \<^verbatim>\<open>Number.isFinite\<close> or is a constant, and rounding error of doubles is not
  modelled. Strings are \<^typ>\<open>string\<close>. Everything outside the process (the Python frame
  tool, thumbnail fetches, the video model, ffmpeg, the file system, the clock) is a field
  of the record \<open>env\<close>: an arbitrary function or value, so that a theorem about every
  \<open>env\<close> covers every behaviour of the outside world.
\<close>

subsection \<open>JSON values\<close>

text \<open>
  The request body is \<^verbatim>\<open>await req.json()\<close> cast to \<^verbatim>\<open>VeoRequestBody\<close>; the handler
  checks the type of each field at run time, so a field holds any JSON value, or is absent
  (\<open>JUndefined\<close>).
\<close>

datatype jsval =
    JUndefined
  | JNull
  | JBool bool
  | JNum rat
  | JStr string
  | JArr "jsval list"
  | JObj "(string \<times> jsval) list"

record veo_request_body =
  b_videoId :: jsval
  b_timestampSeconds :: jsval
  b_durationSeconds :: jsval
  b_context :: jsval
  b_seed :: jsval
  b_style :: jsval
  b_bypassCache :: jsval
  b_product :: jsval
  b_aspectRatio :: jsval
  b_resolution :: jsval

record extracted_frame_image =
  f_mimeType :: string
  f_imageBytes :: string

text \<open>\<^verbatim>\<open>interface CachedClip\<close>; the field \<^verbatim>\<open>status\<close> is the constant "completed".\<close>

record cached_clip =
  jobId :: string
  modelUsed :: string
  mimeType :: string
  sourceUri :: "string option"
  videoUrl :: string
  cachedAt :: nat
  requestedTimestampSeconds :: rat
  appliedTimestampSeconds :: rat
  personGenerationUsed :: string

subsection \<open>Strings\<close>

text \<open>
  \<^verbatim>\<open>String.prototype.trim\<close> strips white space at both ends; on the 8-bit characters of
  \<^typ>\<open>string\<close> these are tab, line feed, vertical tab, form feed, carriage return, space
  and the no-break space.
\<close>

definition is_ws :: "char \<Rightarrow> bool" where
  "is_ws c = (of_char c \<in> {9, 10, 11, 12, 13, 32, 160 :: nat})"

definition trim :: "string \<Rightarrow> string" where
  "trim s = rev (dropWhile is_ws (rev (dropWhile is_ws s)))"

definition toLowerCase :: "string \<Rightarrow> string" where
  "toLowerCase s =
     map (\<lambda>c. let n = (of_char c :: nat) in if 65 \<le> n \<and> n \<le> 90 then char_of (n + 32) else c) s"

fun startsWith :: "string \<Rightarrow> string \<Rightarrow> bool" where
  "startsWith s [] = True"
| "startsWith [] (p # ps) = False"
| "startsWith (c # cs) (p # ps) = (c = p \<and> startsWith cs ps)"

text \<open>\<^verbatim>\<open>s.includes(t)\<close>: \<open>t\<close> occurs in \<open>s\<close> as a contiguous substring.\<close>

fun js_includes :: "string \<Rightarrow> string \<Rightarrow> bool" where
  "js_includes [] t = (t = [])"
| "js_includes (c # cs) t = (startsWith (c # cs) t \<or> js_includes cs t)"

subsection \<open>The outside world\<close>

text \<open>The result of the Python frame-extraction subprocess (lines 585-641).\<close>

datatype proc_result =
    ProcTimedOut
  | ProcSpawnError string
  | ProcClosed int string "jsval option"
    \<comment> \<open>exit code, stderr, and stdout parsed as JSON (\<open>None\<close>: \<^verbatim>\<open>JSON.parse\<close> threw)\<close>

text \<open>The result of \<^verbatim>\<open>fetch(url)\<close> followed by \<^verbatim>\<open>response.arrayBuffer()\<close>.\<close>

datatype fetch_result =
    FetchThrows
  | FetchResponse bool string "string option"
    \<comment> \<open>\<^verbatim>\<open>response.ok\<close>, the body's bytes, the content-type header\<close>

text \<open>The ffmpeg invocations of the media post-processor (lines 476-494 and 529-562).\<close>

datatype ffmpeg_job =
    TrimCopy rat
  | ConcatCopy
  | ConcatReencode
  | PadVideoAudio rat
  | PadVideoOnly rat

text \<open>
  \<^verbatim>\<open>parseStructuredApiError\<close> (lines 197-214) turns whatever an attempt threw into
  \<^verbatim>\<open>{ code, status, message }\<close>; the orchestrator classifies only this parsed form, so
  the model takes it as what a failed attempt yields.
\<close>

record parsed_error =
  e_code :: int
  e_status :: string
  e_message :: string

text \<open>What \<^verbatim>\<open>videoToBase64\<close> resolves for a generated video, with the operation's name.\<close>

record resolved_video =
  r_name :: string
  r_mimeType :: string
  r_base64 :: string
  r_sourceUri :: "string option"

text \<open>A position in the nested loops: timestamp candidate, model, safety profile (indices).\<close>

type_synonym attempt_pos = "nat \<times> nat \<times> nat"

record env =
  MAX_CACHE_ENTRIES :: nat
  CACHE_PERSIST_ENABLED :: bool
  VEO_DISABLE_CACHE :: bool
  VEO_FORCE_SINGLE_PASS :: bool
  TIMESTAMP_FALLBACK_OFFSETS :: "int list"
  DEFAULT_PERSON_GENERATION :: string
  ENABLE_FACE_SAFETY_RETRY :: bool
  VEO_MODELS :: "string list"
  VEO_MODEL :: string
  createClientError :: "string option"
  randomSeed :: nat
  dateNow :: nat
  sha1Hex :: "string \<Rightarrow> string"
  toBase64 :: "string \<Rightarrow> string"
  diskWriteFails :: bool
  runPythonFrameTool :: "string \<Rightarrow> rat \<Rightarrow> proc_result"
  fetchUrl :: "string \<Rightarrow> fetch_result"
  ffmpegBinaryPath :: "string option"
  runFfmpeg :: "ffmpeg_job \<Rightarrow> string list \<Rightarrow> string option"
  generateVideos :: "attempt_pos \<Rightarrow> parsed_error + resolved_video"

text \<open>
  Configuration fields are the module constants of lines 42-60 after the environment has
  been read: \<open>MAX_CACHE_ENTRIES\<close> is \<^verbatim>\<open>Number(VEO_CACHE_MAX_ITEMS || 60)\<close>, a count of
  entries; \<open>TIMESTAMP_FALLBACK_OFFSETS\<close> is the parsed, floored list (default
  \<open>0,3,-3,6,-6,10,-10,15,-15\<close>); \<open>VEO_MODELS\<close> is the split, trimmed, non-empty list of
  that variable and \<open>VEO_MODEL\<close> the trimmed primary model name.
  \<open>runFfmpeg job inputs\<close> is \<open>None\<close> when the process fails or times out and otherwise
  the bytes (base64) of the output file. \<open>generateVideos pos\<close> is the outcome of the body
  of the \<^verbatim>\<open>try\<close> block at loop position \<open>pos\<close> up to the resolved video bytes
  (submit, poll, sample check, download): the parsed form of what it threw, or the video.
\<close>

section \<open>Media post-processor\<close>

datatype tool_event = ResolveFfmpegPath | RunFfmpeg ffmpeg_job

text \<open>
  \<^verbatim>\<open>extendVideoWithHold\<close> (lines 507-573): the result (an error, or mime type and base64
  bytes) and the external tools it invoked, in order.
\<close>

definition extendVideoWithHold ::
  "env \<Rightarrow> string \<Rightarrow> rat \<Rightarrow> (string + string \<times> string) \<times> tool_event list" where
  "extendVideoWithHold ev videoBase64 holdSeconds =
     (if holdSeconds \<le> 0 then (Inr (''video/mp4'', videoBase64), [])
      else
        (case ffmpegBinaryPath ev of
           None \<Rightarrow> (Inl ''Failed to resolve ffmpeg binary path.'', [ResolveFfmpegPath])
         | Some bin \<Rightarrow>
             (case runFfmpeg ev (PadVideoAudio holdSeconds) [videoBase64] of
                Some bytes \<Rightarrow>
                  (Inr (''video/mp4'', bytes),
                   [ResolveFfmpegPath, RunFfmpeg (PadVideoAudio holdSeconds)])
              | None \<Rightarrow>
                  (case runFfmpeg ev (PadVideoOnly holdSeconds) [videoBase64] of
                     Some bytes \<Rightarrow>
                       (Inr (''video/mp4'', bytes),
                        [ResolveFfmpegPath, RunFfmpeg (PadVideoAudio holdSeconds),
                         RunFfmpeg (PadVideoOnly holdSeconds)])
                   | None \<Rightarrow>
                       (Inl ''ffmpeg failed'',
                        [ResolveFfmpegPath, RunFfmpeg (PadVideoAudio holdSeconds),
                         RunFfmpeg (PadVideoOnly holdSeconds)])))))"

section \<open>Request validation (lines 186-244)\<close>

definition isIdChar :: "char \<Rightarrow> bool" where
  "isIdChar c =
     (let n = (of_char c :: nat) in
        (97 \<le> n \<and> n \<le> 122) \<or> (65 \<le> n \<and> n \<le> 90) \<or> (48 \<le> n \<and> n \<le> 57) \<or> n = 95 \<or> n = 45)"

text \<open>\<^verbatim>\<open>raw.replace(/[^a-zA-Z0-9_-]/g, "").trim()\<close>, and \<^verbatim>\<open>""\<close> for a non-string.\<close>

definition sanitizeVideoId :: "jsval \<Rightarrow> string" where
  "sanitizeVideoId raw = (case raw of JStr s \<Rightarrow> trim (filter isIdChar s) | _ \<Rightarrow> [])"

definition requiredStrings :: "string list" where
  "requiredStrings =
     [''id'', ''brandName'', ''productName'', ''tagline'', ''visualDescription'',
      ''actionScript'', ''colorFrom'', ''colorTo'']"

text \<open>\<^verbatim>\<open>typeof product[key] !== "string" || product[key].trim().length === 0\<close>\<close>

definition badRequiredString :: "(string \<times> jsval) list \<Rightarrow> string \<Rightarrow> bool" where
  "badRequiredString props key =
     (case map_of props key of Some (JStr s) \<Rightarrow> trim s = [] | _ \<Rightarrow> True)"

text \<open>
  \<^verbatim>\<open>validateProduct\<close>: \<open>None\<close> is \<^verbatim>\<open>null\<close>. A product that is not an object is either
  falsy or has no string under any required key, so it is rejected; an object is returned
  as it is when the eight required strings are non-blank and \<^verbatim>\<open>benefits\<close> is an array of
  length three.
\<close>

definition validateProduct :: "jsval \<Rightarrow> (string \<times> jsval) list option" where
  "validateProduct product =
     (case product of
        JObj props \<Rightarrow>
          (if list_ex (badRequiredString props) requiredStrings then None
           else
             (case map_of props ''benefits'' of
                Some (JArr benefits) \<Rightarrow> if length benefits \<noteq> 3 then None else Some props
              | _ \<Rightarrow> None))
      | _ \<Rightarrow> None)"

definition MAX_CONTEXT_CHARS :: nat where
  "MAX_CONTEXT_CHARS = 1500"

definition clipContext :: "jsval \<Rightarrow> string" where
  "clipContext raw =
     (case raw of
        JStr s \<Rightarrow>
          (let clean = trim s in
             if length clean \<le> MAX_CONTEXT_CHARS then clean else take MAX_CONTEXT_CHARS clean)
      | _ \<Rightarrow> [])"

text \<open>
  \<^verbatim>\<open>typeof v === "string" && v.trim().length > 0 ? v.trim() : dflt\<close>, the pattern of
  lines 781-789.
\<close>

definition trimmedOr :: "jsval \<Rightarrow> string \<Rightarrow> string" where
  "trimmedOr v dflt = (case v of JStr s \<Rightarrow> if trim s \<noteq> [] then trim s else dflt | _ \<Rightarrow> dflt)"

definition productId :: "(string \<times> jsval) list \<Rightarrow> string" where
  "productId props = (case map_of props ''id'' of Some (JStr s) \<Rightarrow> s | _ \<Rightarrow> [])"

section \<open>Error classification (lines 68-97)\<close>

definition isFaceSafetyBlock :: "string \<Rightarrow> bool" where
  "isFaceSafetyBlock message =
     (let lower = toLowerCase message in
        js_includes lower ''person/face generation'' \<or>
        js_includes lower ''face generation'' \<or>
        js_includes lower ''input image contains content that has been blocked'')"

definition isUsageGuidelineBlock :: "string \<Rightarrow> bool" where
  "isUsageGuidelineBlock message =
     (let lower = toLowerCase message in
        js_includes lower (''violates vertex ai'' @ [CHR 0x27] @ ''s usage guidelines'') \<or>
        js_includes lower ''violates vertex ai usage guidelines'' \<or>
        js_includes lower
          (''input image violates vertex ai'' @ [CHR 0x27] @ ''s usage guidelines''))"

definition isBlockedInputImageError :: "string \<Rightarrow> bool" where
  "isBlockedInputImageError message = (isFaceSafetyBlock message \<or> isUsageGuidelineBlock message)"

definition isMissingSampleError :: "string \<Rightarrow> bool" where
  "isMissingSampleError message =
     (let lower = toLowerCase message in
        js_includes lower ''did not return first split segment'' \<or>
        js_includes lower ''did not return second split segment'' \<or>
        js_includes lower ''returned no video sample'')"

section \<open>Search dimensions (lines 99-124 and 172-184)\<close>

fun candidatesLoop :: "rat \<Rightarrow> int list \<Rightarrow> rat list \<Rightarrow> rat list" where
  "candidatesLoop baseTimestamp [] candidates = candidates"
| "candidatesLoop baseTimestamp (offset # rest) candidates =
     (let candidate = max 0 (baseTimestamp + of_int offset);
          normalized = of_int \<lfloor>candidate * 1000\<rfloor> / 1000
      in if normalized \<in> set candidates then candidatesLoop baseTimestamp rest candidates
         else candidatesLoop baseTimestamp rest (candidates @ [normalized]))"

definition buildTimestampCandidates :: "env \<Rightarrow> rat \<Rightarrow> rat list" where
  "buildTimestampCandidates ev baseTimestamp =
     (let candidates = candidatesLoop baseTimestamp (TIMESTAMP_FALLBACK_OFFSETS ev) []
      in if candidates \<noteq> [] then candidates else [max 0 baseTimestamp])"

text \<open>A \<^verbatim>\<open>SafetyProfile\<close> has the one field \<^verbatim>\<open>personGeneration\<close>; it is modelled by that string.\<close>

definition getSafetyProfiles :: "env \<Rightarrow> string list" where
  "getSafetyProfiles ev =
     (let primary = DEFAULT_PERSON_GENERATION ev in
        if ENABLE_FACE_SAFETY_RETRY ev \<and> primary \<noteq> ''ALLOW_ALL'' then [primary, ''ALLOW_ALL'']
        else [primary])"

text \<open>\<^verbatim>\<open>filter((value, index, list) => value.length > 0 && list.indexOf(value) === index)\<close>\<close>

fun firstOccurrences :: "string list \<Rightarrow> string list \<Rightarrow> string list" where
  "firstOccurrences earlier [] = []"
| "firstOccurrences earlier (v # rest) =
     (if v \<noteq> [] \<and> v \<notin> set earlier then v # firstOccurrences (earlier @ [v]) rest
      else firstOccurrences (earlier @ [v]) rest)"

definition getModelCandidates :: "env \<Rightarrow> string list" where
  "getModelCandidates ev =
     (if VEO_MODELS ev \<noteq> [] then VEO_MODELS ev
      else firstOccurrences [] [VEO_MODEL ev, ''veo-3.1-generate-preview''])"

section \<open>Frame provider (lines 575-680)\<close>

definition extractFrameFromYouTubeViaPython ::
  "env \<Rightarrow> string \<Rightarrow> rat \<Rightarrow> string + extracted_frame_image" where
  "extractFrameFromYouTubeViaPython ev vid timestampSeconds =
     (case runPythonFrameTool ev vid (max 0 timestampSeconds) of
        ProcTimedOut \<Rightarrow> Inl ''Timed out while extracting YouTube frame.''
      | ProcSpawnError msg \<Rightarrow> Inl msg
      | ProcClosed code stderr out \<Rightarrow>
          (if code \<noteq> 0 then
             Inl (if trim stderr \<noteq> [] then trim stderr else ''Frame extraction failed.'')
           else
             (case out of
                None \<Rightarrow> Inl ''Unexpected token in JSON''
              | Some JNull \<Rightarrow> Inl ''Cannot read properties of null''
              | Some (JObj props) \<Rightarrow>
                  (case map_of props ''error'' of
                     Some (JStr err) \<Rightarrow>
                       Inl (err @ (case map_of props ''details'' of
                                     Some (JStr d) \<Rightarrow> '' '' @ d | _ \<Rightarrow> []))
                   | _ \<Rightarrow>
                       (case (map_of props ''mimeType'', map_of props ''imageBytes'') of
                          (Some (JStr m), Some (JStr b)) \<Rightarrow>
                            Inr \<lparr>f_mimeType = m, f_imageBytes = b\<rparr>
                        | _ \<Rightarrow> Inl ''Frame extraction returned malformed output.''))
              | Some _ \<Rightarrow> Inl ''Frame extraction returned malformed output.'')))"

definition thumbnailCandidates :: "string \<Rightarrow> string list" where
  "thumbnailCandidates vid =
     [''https://i.ytimg.com/vi/'' @ vid @ ''/maxresdefault.jpg'',
      ''https://i.ytimg.com/vi/'' @ vid @ ''/sddefault.jpg'',
      ''https://i.ytimg.com/vi/'' @ vid @ ''/hqdefault.jpg'']"

text \<open>The body of the loop of lines 651-665 for one URL: \<open>None\<close> is "try the next one".\<close>

definition thumbnailFrame :: "env \<Rightarrow> string \<Rightarrow> extracted_frame_image option" where
  "thumbnailFrame ev url =
     (case fetchUrl ev url of
        FetchThrows \<Rightarrow> None
      | FetchResponse ok bytes contentType \<Rightarrow>
          (if \<not> ok then None
           else if length bytes = 0 then None
           else Some \<lparr>f_mimeType =
                        (case contentType of
                           Some ct \<Rightarrow> if ct \<noteq> [] then ct else ''image/jpeg''
                         | None \<Rightarrow> ''image/jpeg''),
                      f_imageBytes = toBase64 ev bytes\<rparr>))"

fun thumbnailLoop :: "env \<Rightarrow> string list \<Rightarrow> string + extracted_frame_image" where
  "thumbnailLoop ev [] = Inl ''Failed to fetch fallback thumbnail frame.''"
| "thumbnailLoop ev (url # rest) =
     (case thumbnailFrame ev url of Some frame \<Rightarrow> Inr frame | None \<Rightarrow> thumbnailLoop ev rest)"

definition extractFrameFromThumbnail :: "env \<Rightarrow> string \<Rightarrow> string + extracted_frame_image" where
  "extractFrameFromThumbnail ev vid = thumbnailLoop ev (thumbnailCandidates vid)"

definition extractFrameFromYouTube ::
  "env \<Rightarrow> string \<Rightarrow> rat \<Rightarrow> string + extracted_frame_image" where
  "extractFrameFromYouTube ev vid timestampSeconds =
     (case extractFrameFromYouTubeViaPython ev vid timestampSeconds of
        Inr frame \<Rightarrow> Inr frame
      | Inl err \<Rightarrow> extractFrameFromThumbnail ev vid)"

section \<open>Cache store (lines 690-756)\<close>

text \<open>Decimal rendering of an integer, as \<^verbatim>\<open>Array.prototype.join\<close> renders a number.\<close>

fun showNat :: "nat \<Rightarrow> string" where
  "showNat n =
     (if n < 10 then [char_of (48 + n)] else showNat (n div 10) @ [char_of (48 + n mod 10)])"

declare showNat.simps [simp del]

definition showInt :: "int \<Rightarrow> string" where
  "showInt i = (if i < 0 then CHR ''-'' # showNat (nat (- i)) else showNat (nat i))"

fun joinWith :: "string \<Rightarrow> string list \<Rightarrow> string" where
  "joinWith sep [] = []"
| "joinWith sep [x] = x"
| "joinWith sep (x # y # rest) = x @ sep @ joinWith sep (y # rest)"

record cache_key_input =
  k_videoId :: string
  k_timestampSeconds :: rat
  k_durationSeconds :: int
  k_productId :: string
  k_style :: string
  k_aspectRatio :: string
  k_resolution :: string
  k_seedToken :: string

definition buildCacheKey :: "cache_key_input \<Rightarrow> string" where
  "buildCacheKey input =
     (let roundedTs = \<lfloor>k_timestampSeconds input * 1000\<rfloor> in
        joinWith '':''
          [k_videoId input, showInt roundedTs, showInt (k_durationSeconds input),
           k_productId input, k_style input, k_aspectRatio input, k_resolution input,
           k_seedToken input])"

text \<open>
  A JavaScript \<^verbatim>\<open>Map\<close> iterates in insertion order, \<^verbatim>\<open>set\<close> on a present key keeps
  the key's position, and \<^verbatim>\<open>get\<close> changes nothing: the map is the list of its entries in
  insertion order.
\<close>

type_synonym clip_map = "(string \<times> cached_clip) list"

definition mapGet :: "string \<Rightarrow> clip_map \<Rightarrow> cached_clip option" where
  "mapGet key m = map_of m key"

definition mapSet :: "string \<Rightarrow> cached_clip \<Rightarrow> clip_map \<Rightarrow> clip_map" where
  "mapSet key v m =
     (if map_of m key = None then m @ [(key, v)]
      else map (\<lambda>(k, old). if k = key then (k, v) else (k, old)) m)"

definition mapDelete :: "string \<Rightarrow> clip_map \<Rightarrow> clip_map" where
  "mapDelete key m = filter (\<lambda>(k, old). k \<noteq> key) m"

text \<open>
  \<^verbatim>\<open>writeCache\<close> (lines 713-721). \<^verbatim>\<open>if (oldestKey)\<close> is false for the empty string as
  well as for \<^verbatim>\<open>undefined\<close>.
\<close>

definition writeCache :: "nat \<Rightarrow> string \<Rightarrow> cached_clip \<Rightarrow> clip_map \<Rightarrow> clip_map" where
  "writeCache maxEntries key v cache =
     (let cache1 = mapSet key v cache in
        if length cache1 \<le> maxEntries then cache1
        else
          (case cache1 of
             [] \<Rightarrow> cache1
           | (oldestKey, oldest) # later \<Rightarrow>
               if oldestKey \<noteq> [] then mapDelete oldestKey cache1 else cache1))"

text \<open>
  The process-wide \<^verbatim>\<open>adClipCache\<close> and the files of \<^verbatim>\<open>CACHE_DIR\<close>, by file name. A
  file holds \<^verbatim>\<open>JSON.stringify\<close> of a clip, which \<^verbatim>\<open>JSON.parse\<close> reads back unchanged.
\<close>

record store =
  adClipCache :: clip_map
  cacheDir :: clip_map

definition cachePathForKey :: "env \<Rightarrow> string \<Rightarrow> string" where
  "cachePathForKey ev key = sha1Hex ev key @ ''.json''"

definition readPersistentCache :: "env \<Rightarrow> string \<Rightarrow> clip_map \<Rightarrow> cached_clip option" where
  "readPersistentCache ev key files =
     (if \<not> CACHE_PERSIST_ENABLED ev then None else mapGet (cachePathForKey ev key) files)"

definition writePersistentCache :: "env \<Rightarrow> string \<Rightarrow> cached_clip \<Rightarrow> clip_map \<Rightarrow> clip_map" where
  "writePersistentCache ev key v files =
     (if \<not> CACHE_PERSIST_ENABLED ev then files
      else if diskWriteFails ev then files
      else mapSet (cachePathForKey ev key) v files)"

section \<open>The orchestrator (lines 758-1089)\<close>

datatype last_error =
    UnknownFailure
  | FrameExtractFailed rat string
  | ApiMessage string

datatype response =
    JsonError nat string "string option"
    \<comment> \<open>HTTP status, \<^verbatim>\<open>error\<close>, \<^verbatim>\<open>detail\<close>\<close>
  | GenerationFailed last_error
    \<comment> \<open>HTTP 500, "Veo generation failed for all configured models. Last error: ..."\<close>
  | JsonClip cached_clip bool
    \<comment> \<open>HTTP 200, the clip and \<^verbatim>\<open>cacheHit\<close>\<close>

definition httpStatus :: "response \<Rightarrow> nat" where
  "httpStatus r =
     (case r of JsonError status err detail \<Rightarrow> status | GenerationFailed e \<Rightarrow> 500
      | JsonClip clip hit \<Rightarrow> 200)"

record candidate_frames =
  fr_first :: extracted_frame_image
  fr_middle :: "extracted_frame_image option"
  fr_last :: extracted_frame_image

text \<open>What one attempt submits: the arguments of \<^verbatim>\<open>buildPrompt\<close>, the frames, the config.\<close>

record generate_call =
  g_model :: string
  g_split :: bool
  g_promptTimestampSeconds :: rat
  g_promptDurationSeconds :: int
  g_product :: "(string \<times> jsval) list"
  g_context :: string
  g_frames :: candidate_frames
  g_durationSeconds :: int
  g_aspectRatio :: string
  g_resolution :: string
  g_personGeneration :: string
  g_seed :: nat

text \<open>The calls that leave the handler, in order.\<close>

datatype event =
    CreateClient
  | ExtractFrames nat "rat list"
  | GenerateVideos attempt_pos generate_call
  | MediaTool tool_event
  | WriteCache string
  | ReadPersistentCache string
  | WritePersistentCache string

text \<open>The constants of one request (lines 776-843).\<close>

record request_ctx =
  c_videoId :: string
  c_timestampSeconds :: rat
  c_durationSeconds :: int
  c_product :: "(string \<times> jsval) list"
  c_context :: string
  c_aspectRatio :: string
  c_resolution :: string
  c_cacheKey :: string
  c_bypassCache :: bool
  c_requiresSplit :: bool
  c_generatedDurationSeconds :: int
  c_holdExtensionSeconds :: int
  c_seedBase :: nat
  c_models :: "string list"
  c_safetyProfiles :: "string list"

record candidate_ctx =
  cc_index :: nat
  cc_timestampSeconds :: rat
  cc_frames :: candidate_frames

datatype loop_exit =
    Returned response store
  | MoveToNextCandidate
  | Completed

definition AD_INSERT_DURATION_SECONDS :: int where
  "AD_INSERT_DURATION_SECONDS = 8"

definition VEO_MAX_IMAGE_TO_VIDEO_SECONDS :: int where
  "VEO_MAX_IMAGE_TO_VIDEO_SECONDS = 8"

definition DEFAULT_ASPECT_RATIO :: string where
  "DEFAULT_ASPECT_RATIO = ''16:9''"

definition DEFAULT_RESOLUTION :: string where
  "DEFAULT_RESOLUTION = ''720p''"

text \<open>\<^verbatim>\<open>Promise.all\<close>: every promise is started; the result is all values, or a rejection.\<close>

fun promiseAll :: "(string + 'a) list \<Rightarrow> string + 'a list" where
  "promiseAll [] = Inr []"
| "promiseAll (Inl e # rest) = Inl e"
| "promiseAll (Inr x # rest) =
     (case promiseAll rest of Inl e \<Rightarrow> Inl e | Inr xs \<Rightarrow> Inr (x # xs))"

definition frameTimestamps :: "request_ctx \<Rightarrow> rat \<Rightarrow> rat list" where
  "frameTimestamps rc candidateTimestampSeconds =
     (if c_requiresSplit rc then
        [candidateTimestampSeconds,
         candidateTimestampSeconds + of_int (c_generatedDurationSeconds rc),
         candidateTimestampSeconds + of_int (c_durationSeconds rc)]
      else
        [candidateTimestampSeconds,
         candidateTimestampSeconds + of_int (c_generatedDurationSeconds rc)])"

text \<open>
  Lines 850-870. When \<^verbatim>\<open>Promise.all\<close> resolves every frame is an object, so the check of
  line 867 never fires.
\<close>

definition extractFrames :: "env \<Rightarrow> request_ctx \<Rightarrow> rat \<Rightarrow> string + candidate_frames" where
  "extractFrames ev rc candidateTimestampSeconds =
     (case promiseAll (map (extractFrameFromYouTube ev (c_videoId rc))
                         (frameTimestamps rc candidateTimestampSeconds)) of
        Inl e \<Rightarrow> Inl e
      | Inr fs \<Rightarrow>
          Inr \<lparr>fr_first = fs ! 0,
               fr_middle = (if c_requiresSplit rc then Some (fs ! 1) else None),
               fr_last = (if c_requiresSplit rc then fs ! 2 else fs ! 1)\<rparr>)"

definition generateCall :: "request_ctx \<Rightarrow> candidate_ctx \<Rightarrow> string \<Rightarrow> string \<Rightarrow> generate_call" where
  "generateCall rc cc model profile =
     \<lparr>g_model = model,
      g_split = c_requiresSplit rc,
      g_promptTimestampSeconds = cc_timestampSeconds cc,
      g_promptDurationSeconds =
        (if c_requiresSplit rc then c_durationSeconds rc else c_generatedDurationSeconds rc),
      g_product = c_product rc,
      g_context = c_context rc,
      g_frames = cc_frames cc,
      g_durationSeconds = c_generatedDurationSeconds rc,
      g_aspectRatio = c_aspectRatio rc,
      g_resolution = c_resolution rc,
      g_personGeneration = profile,
      g_seed = c_seedBase rc\<rparr>"

definition dataUrl :: "string \<Rightarrow> string \<Rightarrow> string" where
  "dataUrl mime base64 = ''data:'' @ mime @ '';base64,'' @ base64"

text \<open>Lines 1023-1026: the two cache writes of a successful attempt.\<close>

definition storeGenerated :: "env \<Rightarrow> request_ctx \<Rightarrow> store \<Rightarrow> cached_clip \<Rightarrow> store \<times> event list" where
  "storeGenerated ev rc st clip =
     (if \<not> c_bypassCache rc then
        (st\<lparr>adClipCache := writeCache (MAX_CACHE_ENTRIES ev) (c_cacheKey rc) clip (adClipCache st),
            cacheDir := writePersistentCache ev (c_cacheKey rc) clip (cacheDir st)\<rparr>,
         WriteCache (c_cacheKey rc) #
           (if CACHE_PERSIST_ENABLED ev then [WritePersistentCache (c_cacheKey rc)] else []))
      else (st, []))"

text \<open>
  The body of the \<^verbatim>\<open>try\<close> block (lines 886-1031) at one loop position: what it threw
  (parsed), or the clip it returns with the store after the cache writes; and the calls it
  made. In split mode \<open>generateVideos\<close> stands for both submissions and the stitch, whose
  result has mime type \<^verbatim>\<open>video/mp4\<close> and no source URI.
\<close>

definition attempt ::
  "env \<Rightarrow> request_ctx \<Rightarrow> store \<Rightarrow> candidate_ctx \<Rightarrow> nat \<Rightarrow> string \<Rightarrow> nat \<Rightarrow>
     (parsed_error + cached_clip \<times> store) \<times> event list" where
  "attempt ev rc st cc modelIndex model profileIndex =
     (let profile = c_safetyProfiles rc ! profileIndex;
          pos = (cc_index cc, modelIndex, profileIndex);
          submitted = GenerateVideos pos (generateCall rc cc model profile);
          generatedResponse =
            \<lparr>jobId = [], modelUsed = model, mimeType = [], sourceUri = None, videoUrl = [],
             cachedAt = dateNow ev,
             requestedTimestampSeconds = c_timestampSeconds rc,
             appliedTimestampSeconds = cc_timestampSeconds cc,
             personGenerationUsed = profile\<rparr>
      in
        (case generateVideos ev pos of
           Inl err \<Rightarrow> (Inl err, [submitted])
         | Inr resolved \<Rightarrow>
             (if c_requiresSplit rc then
                (let clip = generatedResponse
                       \<lparr>jobId := r_name resolved, mimeType := ''video/mp4'', sourceUri := None,
                        videoUrl := dataUrl ''video/mp4'' (r_base64 resolved)\<rparr>;
                     (st', writes) = storeGenerated ev rc st clip
                 in (Inr (clip, st'), submitted # writes))
              else if 0 < c_holdExtensionSeconds rc then
                (case extendVideoWithHold ev (r_base64 resolved)
                        (of_int (c_holdExtensionSeconds rc)) of
                   (Inl msg, tools) \<Rightarrow>
                     (Inl \<lparr>e_code = 0, e_status = [], e_message = msg\<rparr>,
                      submitted # map MediaTool tools)
                 | (Inr (extMime, extBase64), tools) \<Rightarrow>
                     (let clip = generatedResponse
                            \<lparr>jobId := r_name resolved,
                             mimeType := (if extMime \<noteq> [] then extMime else r_mimeType resolved),
                             sourceUri := None,
                             videoUrl := dataUrl extMime extBase64\<rparr>;
                          (st', writes) = storeGenerated ev rc st clip
                      in (Inr (clip, st'), submitted # map MediaTool tools @ writes)))
              else
                (let clip = generatedResponse
                       \<lparr>jobId := r_name resolved, mimeType := r_mimeType resolved,
                        sourceUri := r_sourceUri resolved,
                        videoUrl := dataUrl (r_mimeType resolved) (r_base64 resolved)\<rparr>;
                     (st', writes) = storeGenerated ev rc st clip
                 in (Inr (clip, st'), submitted # writes)))))"

text \<open>
  The loop over safety profiles (lines 884-1073) from \<open>profileIndex\<close> on, with its
  \<^verbatim>\<open>catch\<close> block. The result is how the loop was left, \<^verbatim>\<open>lastError\<close>, and the calls
  made. \<open>MoveToNextCandidate\<close> is the exit with \<^verbatim>\<open>blockedFrameForCandidate\<close> and
  \<^verbatim>\<open>moveToNextCandidate\<close> set; \<open>Completed\<close> is the plain \<^verbatim>\<open>break\<close> of line 1071 or
  the end of the loop.
\<close>

function profileLoop ::
  "env \<Rightarrow> request_ctx \<Rightarrow> store \<Rightarrow> candidate_ctx \<Rightarrow> nat \<Rightarrow> string \<Rightarrow> last_error \<Rightarrow> nat \<Rightarrow>
     loop_exit \<times> last_error \<times> event list" where
  "profileLoop ev rc st cc modelIndex model lastError profileIndex =
     (if profileIndex < length (c_safetyProfiles rc) then
        (case attempt ev rc st cc modelIndex model profileIndex of
           (Inr (clip, st'), evs) \<Rightarrow> (Returned (JsonClip clip False) st', lastError, evs)
         | (Inl parsed, evs) \<Rightarrow>
             (if e_code parsed = 403 \<or> e_status parsed = ''PERMISSION_DENIED'' then
                (Returned
                   (JsonError 403 ''Vertex permission denied for current credentials/project.''
                      (Some (e_message parsed))) st,
                 ApiMessage (e_message parsed), evs)
              else if e_code parsed = 429 \<or> e_status parsed = ''RESOURCE_EXHAUSTED'' then
                (Returned
                   (JsonError 429 ''Veo quota exceeded for current billing/quota project.''
                      (Some (e_message parsed))) st,
                 ApiMessage (e_message parsed), evs)
              else
                (let blockedInput = isBlockedInputImageError (e_message parsed);
                     missingSample = isMissingSampleError (e_message parsed);
                     retryableFrameIssue = (blockedInput \<or> missingSample);
                     hasRetryProfile = (profileIndex < length (c_safetyProfiles rc) - 1)
                 in
                   if retryableFrameIssue \<and> hasRetryProfile then
                     (case profileLoop ev rc st cc modelIndex model
                             (ApiMessage (e_message parsed)) (profileIndex + 1) of
                        (exit, lastError', evs') \<Rightarrow> (exit, lastError', evs @ evs'))
                   else if retryableFrameIssue then
                     (MoveToNextCandidate, ApiMessage (e_message parsed), evs)
                   else (Completed, ApiMessage (e_message parsed), evs))))
      else (Completed, lastError, []))"
  by pat_completeness auto
termination
  by (relation "measure (\<lambda>(ev, rc, st, cc, modelIndex, model, lastError, profileIndex).
                  length (c_safetyProfiles rc) - profileIndex)") auto

declare profileLoop.simps [simp del]

text \<open>The loop over models (lines 882-1077), from the model with index \<open>modelIndex\<close>.\<close>

fun modelLoop ::
  "env \<Rightarrow> request_ctx \<Rightarrow> store \<Rightarrow> candidate_ctx \<Rightarrow> nat \<Rightarrow> string list \<Rightarrow> last_error \<Rightarrow>
     loop_exit \<times> last_error \<times> event list" where
  "modelLoop ev rc st cc modelIndex [] lastError = (Completed, lastError, [])"
| "modelLoop ev rc st cc modelIndex (model # rest) lastError =
     (case profileLoop ev rc st cc modelIndex model lastError 0 of
        (Returned r st', lastError', evs) \<Rightarrow> (Returned r st', lastError', evs)
      | (MoveToNextCandidate, lastError', evs) \<Rightarrow> (MoveToNextCandidate, lastError', evs)
      | (Completed, lastError', evs) \<Rightarrow>
          (case modelLoop ev rc st cc (modelIndex + 1) rest lastError' of
             (exit, lastError'', evs') \<Rightarrow> (exit, lastError'', evs @ evs')))"

text \<open>
  The loop over timestamp candidates (lines 846-1083), from the candidate with index
  \<open>candidateIndex\<close>. After the model loop, \<^verbatim>\<open>blockedFrameForCandidate\<close> continues with
  the next candidate (line 1080); otherwise the loop is left (line 1082).
\<close>

fun candidateLoop ::
  "env \<Rightarrow> request_ctx \<Rightarrow> store \<Rightarrow> nat \<Rightarrow> rat list \<Rightarrow> last_error \<Rightarrow>
     loop_exit \<times> last_error \<times> event list" where
  "candidateLoop ev rc st candidateIndex [] lastError = (Completed, lastError, [])"
| "candidateLoop ev rc st candidateIndex (candidateTimestampSeconds # rest) lastError =
     (let fetched = ExtractFrames candidateIndex (frameTimestamps rc candidateTimestampSeconds)
      in
        (case extractFrames ev rc candidateTimestampSeconds of
           Inl msg \<Rightarrow>
             (case candidateLoop ev rc st (candidateIndex + 1) rest
                     (FrameExtractFailed candidateTimestampSeconds msg) of
                (exit, lastError', evs) \<Rightarrow> (exit, lastError', fetched # evs))
         | Inr frames \<Rightarrow>
             (case modelLoop ev rc st
                     \<lparr>cc_index = candidateIndex,
                      cc_timestampSeconds = candidateTimestampSeconds,
                      cc_frames = frames\<rparr>
                     0 (c_models rc) lastError of
                (Returned r st', lastError', evs) \<Rightarrow> (Returned r st', lastError', fetched # evs)
              | (MoveToNextCandidate, lastError', evs) \<Rightarrow>
                  (case candidateLoop ev rc st (candidateIndex + 1) rest lastError' of
                     (exit, lastError'', evs') \<Rightarrow> (exit, lastError'', fetched # evs @ evs'))
              | (Completed, lastError', evs) \<Rightarrow> (Completed, lastError', fetched # evs))))"

text \<open>Lines 776-804: the normalised request.\<close>

definition requestTimestampSeconds :: "veo_request_body \<Rightarrow> rat" where
  "requestTimestampSeconds body = (case b_timestampSeconds body of JNum t \<Rightarrow> max 0 t | _ \<Rightarrow> 0)"

definition requestedSeed :: "veo_request_body \<Rightarrow> nat option" where
  "requestedSeed body = (case b_seed body of JNum s \<Rightarrow> Some (nat \<lfloor>\<bar>s\<bar>\<rfloor>) | _ \<Rightarrow> None)"

definition requestCacheKey :: "veo_request_body \<Rightarrow> (string \<times> jsval) list \<Rightarrow> string \<Rightarrow> string" where
  "requestCacheKey body product vid =
     buildCacheKey
       \<lparr>k_videoId = vid,
        k_timestampSeconds = requestTimestampSeconds body,
        k_durationSeconds = AD_INSERT_DURATION_SECONDS,
        k_productId = productId product,
        k_style = trimmedOr (b_style body) ''ad-possession'',
        k_aspectRatio = trimmedOr (b_aspectRatio body) DEFAULT_ASPECT_RATIO,
        k_resolution = trimmedOr (b_resolution body) DEFAULT_RESOLUTION,
        k_seedToken = (case requestedSeed body of None \<Rightarrow> ''auto'' | Some n \<Rightarrow> showNat n)\<rparr>"

definition requestBypassCache :: "env \<Rightarrow> veo_request_body \<Rightarrow> bool" where
  "requestBypassCache ev body = (b_bypassCache body = JBool True \<or> VEO_DISABLE_CACHE ev)"

definition requestCtx ::
  "env \<Rightarrow> veo_request_body \<Rightarrow> (string \<times> jsval) list \<Rightarrow> string \<Rightarrow> request_ctx" where
  "requestCtx ev body product vid =
     (let durationSeconds = AD_INSERT_DURATION_SECONDS;
          requiresSplit =
            (\<not> VEO_FORCE_SINGLE_PASS ev \<and> durationSeconds > VEO_MAX_IMAGE_TO_VIDEO_SECONDS);
          generatedDurationSeconds =
            (if requiresSplit then VEO_MAX_IMAGE_TO_VIDEO_SECONDS
             else min durationSeconds VEO_MAX_IMAGE_TO_VIDEO_SECONDS)
      in
        \<lparr>c_videoId = vid,
         c_timestampSeconds = requestTimestampSeconds body,
         c_durationSeconds = durationSeconds,
         c_product = product,
         c_context = clipContext (b_context body),
         c_aspectRatio = trimmedOr (b_aspectRatio body) DEFAULT_ASPECT_RATIO,
         c_resolution = trimmedOr (b_resolution body) DEFAULT_RESOLUTION,
         c_cacheKey = requestCacheKey body product vid,
         c_bypassCache = requestBypassCache ev body,
         c_requiresSplit = requiresSplit,
         c_generatedDurationSeconds = generatedDurationSeconds,
         c_holdExtensionSeconds =
           (if \<not> requiresSplit then max 0 (durationSeconds - generatedDurationSeconds) else 0),
         c_seedBase = (case requestedSeed body of None \<Rightarrow> randomSeed ev | Some n \<Rightarrow> n),
         c_models = getModelCandidates ev,
         c_safetyProfiles = getSafetyProfiles ev\<rparr>)"

text \<open>Lines 824-1088: what the handler does after a cache miss or with the cache bypassed.\<close>

definition generateClip :: "env \<Rightarrow> store \<Rightarrow> request_ctx \<Rightarrow> response \<times> store \<times> event list" where
  "generateClip ev st rc =
     (case createClientError ev of
        Some msg \<Rightarrow> (JsonError 500 msg None, st, [CreateClient])
      | None \<Rightarrow>
          (case candidateLoop ev rc st 0 (buildTimestampCandidates ev (c_timestampSeconds rc))
                  UnknownFailure of
             (Returned r st', lastError, evs) \<Rightarrow> (r, st', CreateClient # evs)
           | (exit, lastError, evs) \<Rightarrow> (GenerationFailed lastError, st, CreateClient # evs)))"

text \<open>
  \<^verbatim>\<open>POST\<close>. The request is \<open>None\<close> when \<^verbatim>\<open>req.json()\<close> throws. The result is the
  response, the store afterwards, and the calls that left the handler.
\<close>

definition POST ::
  "env \<Rightarrow> store \<Rightarrow> veo_request_body option \<Rightarrow> response \<times> store \<times> event list" where
  "POST ev st req =
     (case req of
        None \<Rightarrow> (JsonError 400 ''Invalid JSON payload.'' None, st, [])
      | Some body \<Rightarrow>
          (case validateProduct (b_product body) of
             None \<Rightarrow> (JsonError 400 ''Invalid product payload for ad generation.'' None, st, [])
           | Some product \<Rightarrow>
               (let vid = sanitizeVideoId (b_videoId body) in
                  if vid = [] then
                    (JsonError 400 ''Missing valid videoId for Veo ad generation.'' None, st, [])
                  else
                    (let rc = requestCtx ev body product vid;
                         cacheKey = c_cacheKey rc
                     in
                       if \<not> c_bypassCache rc then
                         (case mapGet cacheKey (adClipCache st) of
                            Some cacheHit \<Rightarrow> (JsonClip cacheHit True, st, [])
                          | None \<Rightarrow>
                              (let reads = (if CACHE_PERSIST_ENABLED ev
                                            then [ReadPersistentCache cacheKey] else [])
                               in
                                 (case readPersistentCache ev cacheKey (cacheDir st) of
                                    Some diskHit \<Rightarrow>
                                      (JsonClip diskHit True,
                                       st\<lparr>adClipCache :=
                                            writeCache (MAX_CACHE_ENTRIES ev) cacheKey diskHit
                                              (adClipCache st)\<rparr>,
                                       reads @ [WriteCache cacheKey])
                                  | None \<Rightarrow>
                                      (case generateClip ev st rc of
                                         (r, st', evs) \<Rightarrow> (r, st', reads @ evs)))))
                       else generateClip ev st rc))))"

section \<open>Error classes and cache operations used in the statements\<close>

text \<open>
  The classes of the \<^verbatim>\<open>catch\<close> block (lines 1032-1071), in the order in which it tests
  them: permission denied, quota exceeded, blocked input image or missing sample, other.
\<close>

datatype error_class = PermissionDenied | QuotaExceeded | RetryableFrameIssue | OtherError

definition classify :: "parsed_error \<Rightarrow> error_class" where
  "classify parsed =
     (if e_code parsed = 403 \<or> e_status parsed = ''PERMISSION_DENIED'' then PermissionDenied
      else if e_code parsed = 429 \<or> e_status parsed = ''RESOURCE_EXHAUSTED'' then QuotaExceeded
      else if isBlockedInputImageError (e_message parsed) \<or> isMissingSampleError (e_message parsed)
        then RetryableFrameIssue
      else OtherError)"

text \<open>
  The handler's accesses to \<^verbatim>\<open>adClipCache\<close>: \<^verbatim>\<open>writeCache\<close> under a key built by
  \<^verbatim>\<open>buildCacheKey\<close>, \<^verbatim>\<open>get\<close> (which leaves the map as it is), and the \<^verbatim>\<open>clear\<close> of
  \<^verbatim>\<open>DELETE\<close> (line 1093).
\<close>

datatype cache_op = Put cache_key_input cached_clip | Get cache_key_input | Clear

fun applyCacheOp :: "nat \<Rightarrow> clip_map \<Rightarrow> cache_op \<Rightarrow> clip_map" where
  "applyCacheOp maxEntries cache (Put input v) = writeCache maxEntries (buildCacheKey input) v cache"
| "applyCacheOp maxEntries cache (Get input) = cache"
| "applyCacheOp maxEntries cache Clear = []"

definition runCacheOps :: "nat \<Rightarrow> cache_op list \<Rightarrow> clip_map" where
  "runCacheOps maxEntries ops = foldl (applyCacheOp maxEntries) [] ops"

text \<open>A thumbnail response the loop of lines 651-665 accepts: \<^verbatim>\<open>ok\<close> with a non-empty body.\<close>

definition fetchUsable :: "fetch_result \<Rightarrow> bool" where
  "fetchUsable r = (case r of FetchThrows \<Rightarrow> False | FetchResponse ok bytes ct \<Rightarrow> ok \<and> bytes \<noteq> [])"

section \<open>Example environment and requests\<close>

definition defaultOffsets :: "int list" where
  "defaultOffsets = [0, 3, -3, 6, -6, 10, -10, 15, -15]"

definition okFrameTool :: "string \<Rightarrow> rat \<Rightarrow> proc_result" where
  "okFrameTool vid t =
     ProcClosed 0 []
       (Some (JObj [(''mimeType'', JStr ''image/jpeg''), (''imageBytes'', JStr ''QUJD'')]))"

definition exampleVideo :: resolved_video where
  "exampleVideo =
     \<lparr>r_name = ''op-1'', r_mimeType = ''video/mp4'', r_base64 = ''AAAA'', r_sourceUri = None\<rparr>"

text \<open>The default configuration, a working frame tool and a model that always succeeds.\<close>

definition exampleEnv :: env where
  "exampleEnv =
     \<lparr>MAX_CACHE_ENTRIES = 60, CACHE_PERSIST_ENABLED = True, VEO_DISABLE_CACHE = False,
      VEO_FORCE_SINGLE_PASS = True, TIMESTAMP_FALLBACK_OFFSETS = defaultOffsets,
      DEFAULT_PERSON_GENERATION = ''ALLOW_ADULT'', ENABLE_FACE_SAFETY_RETRY = True,
      VEO_MODELS = [], VEO_MODEL = ''veo-3.1-fast-generate-preview'',
      createClientError = None, randomSeed = 7, dateNow = 1000,
      sha1Hex = (\<lambda>k. k), toBase64 = (\<lambda>b. b), diskWriteFails = False,
      runPythonFrameTool = okFrameTool, fetchUrl = (\<lambda>u. FetchThrows),
      ffmpegBinaryPath = Some ''ffmpeg'', runFfmpeg = (\<lambda>job inputs. None),
      generateVideos = (\<lambda>pos. Inr exampleVideo)\<rparr>"

definition exampleProps :: "(string \<times> jsval) list" where
  "exampleProps =
     [(''id'', JStr ''p1''), (''brandName'', JStr ''Brand''), (''productName'', JStr ''Thing''),
      (''tagline'', JStr ''Go''), (''visualDescription'', JStr ''red''),
      (''actionScript'', JStr ''wave''), (''colorFrom'', JStr ''#000''),
      (''colorTo'', JStr ''#fff''),
      (''benefits'', JArr [JStr ''a'', JStr ''b'', JStr ''c''])]"

definition exampleBody :: veo_request_body where
  "exampleBody =
     \<lparr>b_videoId = JStr ''abc123'', b_timestampSeconds = JNum 10, b_durationSeconds = JUndefined,
      b_context = JUndefined, b_seed = JUndefined, b_style = JUndefined,
      b_bypassCache = JUndefined, b_product = JObj exampleProps, b_aspectRatio = JUndefined,
      b_resolution = JUndefined\<rparr>"

definition emptyStore :: store where
  "emptyStore = \<lparr>adClipCache = [], cacheDir = []\<rparr>"

definition exampleKey :: string where
  "exampleKey = ''abc123:10000:8:p1:ad-possession:16:9:720p:auto''"

definition exampleClip :: cached_clip where
  "exampleClip =
     \<lparr>jobId = ''op-1'', modelUsed = ''veo-3.1-fast-generate-preview'', mimeType = ''video/mp4'',
      sourceUri = None, videoUrl = ''data:video/mp4;base64,AAAA'', cachedAt = 1000,
      requestedTimestampSeconds = 10, appliedTimestampSeconds = 10,
      personGenerationUsed = ''ALLOW_ADULT''\<rparr>"

text \<open>The same product with three blank benefit strings.\<close>

definition blankBenefitsProps :: "(string \<times> jsval) list" where
  "blankBenefitsProps =
     [(''id'', JStr ''p1''), (''brandName'', JStr ''Brand''), (''productName'', JStr ''Thing''),
      (''tagline'', JStr ''Go''), (''visualDescription'', JStr ''red''),
      (''actionScript'', JStr ''wave''), (''colorFrom'', JStr ''#000''),
      (''colorTo'', JStr ''#fff''),
      (''benefits'', JArr [JStr [], JStr [], JStr []])]"

text \<open>A frame tool that fails, and a thumbnail host that serves only the third variant.\<close>

definition thirdVariantOnly :: "string \<Rightarrow> fetch_result" where
  "thirdVariantOnly url =
     (if url = ''https://i.ytimg.com/vi/abc123/hqdefault.jpg''
      then FetchResponse True ''JPEG'' None
      else if url = ''https://i.ytimg.com/vi/abc123/sddefault.jpg''
      then FetchResponse True [] None
      else FetchResponse False ''not found'' None)"

definition fallbackEnv :: env where
  "fallbackEnv = exampleEnv\<lparr>runPythonFrameTool := (\<lambda>vid t. ProcTimedOut), fetchUrl := thirdVariantOnly\<rparr>"

text \<open>Three cache key inputs that differ in the video id.\<close>

definition keyInputA :: cache_key_input where
  "keyInputA = \<lparr>k_videoId = ''a'', k_timestampSeconds = 0, k_durationSeconds = 8,
      k_productId = ''p'', k_style = ''s'', k_aspectRatio = ''r'', k_resolution = ''q'',
      k_seedToken = ''auto''\<rparr>"

definition keyInputB :: cache_key_input where
  "keyInputB = keyInputA\<lparr>k_videoId := ''b''\<rparr>"

definition keyInputC :: cache_key_input where
  "keyInputC = keyInputA\<lparr>k_videoId := ''c''\<rparr>"

section \<open>The trace of an orchestration\<close>

text \<open>The event of the attempt at one loop position.\<close>

definition attemptEvent :: "request_ctx \<Rightarrow> candidate_ctx \<Rightarrow> nat \<Rightarrow> string \<Rightarrow> nat \<Rightarrow> event" where
  "attemptEvent rc cc modelIndex model profileIndex =
     GenerateVideos (cc_index cc, modelIndex, profileIndex)
       (generateCall rc cc model (c_safetyProfiles rc ! profileIndex))"

text \<open>
  The \<^verbatim>\<open>generatedResponse\<close> of lines 1007-1020 when no hold extension takes place
  (\<^verbatim>\<open>extended\<close> is \<^verbatim>\<open>null\<close>).
\<close>

definition singlePassClip ::
  "env \<Rightarrow> request_ctx \<Rightarrow> candidate_ctx \<Rightarrow> string \<Rightarrow> string \<Rightarrow> resolved_video \<Rightarrow> cached_clip" where
  "singlePassClip ev rc cc model profile resolved =
     \<lparr>jobId = r_name resolved, modelUsed = model, mimeType = r_mimeType resolved,
      sourceUri = r_sourceUri resolved,
      videoUrl = dataUrl (r_mimeType resolved) (r_base64 resolved),
      cachedAt = dateNow ev,
      requestedTimestampSeconds = c_timestampSeconds rc,
      appliedTimestampSeconds = cc_timestampSeconds cc,
      personGenerationUsed = profile\<rparr>"

text \<open>
  What the trace shows after the attempt at model \<open>m\<close> and profile \<open>p\<close> of a candidate:
  \<open>post\<close> is the rest of the trace and \<open>x\<close> how the enclosing loop was left. What
  happens once the profiles are exhausted on a retryable error, and on any other error,
  depends on the enclosing loop and is a parameter.
\<close>

definition follows ::
  "env \<Rightarrow> request_ctx \<Rightarrow> store \<Rightarrow> candidate_ctx \<Rightarrow> nat \<Rightarrow> string \<Rightarrow> nat \<Rightarrow>
     (string \<Rightarrow> bool) \<Rightarrow> (string \<Rightarrow> bool) \<Rightarrow> loop_exit \<Rightarrow> event list \<Rightarrow> bool" where
  "follows ev rc st cc m model p onExhausted onOther x post =
     (case generateVideos ev (cc_index cc, m, p) of
        Inr v \<Rightarrow>
          x = Returned (JsonClip (singlePassClip ev rc cc model (c_safetyProfiles rc ! p) v) False)
                (fst (storeGenerated ev rc st
                        (singlePassClip ev rc cc model (c_safetyProfiles rc ! p) v)))
          \<and> post = snd (storeGenerated ev rc st
                          (singlePassClip ev rc cc model (c_safetyProfiles rc ! p) v))
      | Inl e \<Rightarrow>
          (case classify e of
             PermissionDenied \<Rightarrow>
               post = [] \<and>
               x = Returned (JsonError 403
                      ''Vertex permission denied for current credentials/project.''
                      (Some (e_message e))) st
           | QuotaExceeded \<Rightarrow>
               post = [] \<and>
               x = Returned (JsonError 429
                      ''Veo quota exceeded for current billing/quota project.''
                      (Some (e_message e))) st
           | RetryableFrameIssue \<Rightarrow>
               (if Suc p < length (c_safetyProfiles rc)
                then \<exists>post'. post = attemptEvent rc cc m model (Suc p) # post'
                else onExhausted (e_message e))
           | OtherError \<Rightarrow> onOther (e_message e)))"

section \<open>Example outcomes of the video model\<close>

text \<open>The example environment with another video model.\<close>

definition modelEnv :: "(attempt_pos \<Rightarrow> parsed_error + resolved_video) \<Rightarrow> env" where
  "modelEnv g = exampleEnv\<lparr>generateVideos := g\<rparr>"

definition blockedError :: parsed_error where
  "blockedError =
     \<lparr>e_code = 400, e_status = ''INVALID_ARGUMENT'',
      e_message = ''The input image contains content that has been blocked.''\<rparr>"

definition internalError :: parsed_error where
  "internalError =
     \<lparr>e_code = 500, e_status = ''INTERNAL'', e_message = ''Internal error encountered.''\<rparr>"

definition deniedError :: parsed_error where
  "deniedError =
     \<lparr>e_code = 403, e_status = ''PERMISSION_DENIED'', e_message = ''Permission denied.''\<rparr>"


definition exampleFrame :: extracted_frame_image where
  "exampleFrame = \<lparr>f_mimeType = ''image/jpeg'', f_imageBytes = ''QUJD''\<rparr>"

definition exampleFrames :: candidate_frames where
  "exampleFrames = \<lparr>fr_first = exampleFrame, fr_middle = None, fr_last = exampleFrame\<rparr>"

text \<open>A request at 12.3456 seconds, and the clip it is answered with in the example.\<close>

definition fractionalBody :: veo_request_body where
  "fractionalBody = exampleBody\<lparr>b_timestampSeconds := JNum (123456 / 10000)\<rparr>"


text \<open>What the example request submits for a candidate timestamp, a model and a profile.\<close>

definition exampleCall :: "rat \<Rightarrow> string \<Rightarrow> string \<Rightarrow> generate_call" where
  "exampleCall ts model profile =
     \<lparr>g_model = model, g_split = False, g_promptTimestampSeconds = ts,
      g_promptDurationSeconds = 8, g_product = exampleProps, g_context = [],
      g_frames = exampleFrames, g_durationSeconds = 8, g_aspectRatio = ''16:9'',
      g_resolution = ''720p'', g_personGeneration = profile, g_seed = 7\<rparr>"

definition fastModel :: string where
  "fastModel = ''veo-3.1-fast-generate-preview''"

definition standardModel :: string where
  "standardModel = ''veo-3.1-generate-preview''"

text \<open>The store after the example request has been served from a fresh start.\<close>

definition exampleStoreAfter :: store where
  "exampleStoreAfter =
     \<lparr>adClipCache = [(exampleKey, exampleClip)],
      cacheDir = [(exampleKey @ ''.json'', exampleClip)]\<rparr>"

section \<open>Request variants and the fields of the cache key\<close>

text \<open>The example request with the cache bypassed, and with the blank benefit strings.\<close>

definition bypassBody :: veo_request_body where
  "bypassBody = exampleBody\<lparr>b_bypassCache := JBool True\<rparr>"

definition blankBenefitsBody :: veo_request_body where
  "blankBenefitsBody = exampleBody\<lparr>b_product := JObj blankBenefitsProps\<rparr>"

text \<open>The example request with a scene context.\<close>

definition contextBody :: veo_request_body where
  "contextBody = exampleBody\<lparr>b_context := JStr ''Two people talk in a kitchen.''\<rparr>"



section \<open>Verified properties\<close>

subsection \<open>The example environment, field by field\<close>

lemma exampleEnv_sel:
  "MAX_CACHE_ENTRIES exampleEnv = 60" "CACHE_PERSIST_ENABLED exampleEnv = True"
  "VEO_DISABLE_CACHE exampleEnv = False" "VEO_FORCE_SINGLE_PASS exampleEnv = True"
  "TIMESTAMP_FALLBACK_OFFSETS exampleEnv = defaultOffsets"
  "DEFAULT_PERSON_GENERATION exampleEnv = ''ALLOW_ADULT''"
  "ENABLE_FACE_SAFETY_RETRY exampleEnv = True" "VEO_MODELS exampleEnv = []"
  "VEO_MODEL exampleEnv = ''veo-3.1-fast-generate-preview''"
  "createClientError exampleEnv = None" "randomSeed exampleEnv = 7" "dateNow exampleEnv = 1000"
  "sha1Hex exampleEnv = (\<lambda>k. k)" "toBase64 exampleEnv = (\<lambda>b. b)"
  "diskWriteFails exampleEnv = False" "runPythonFrameTool exampleEnv = okFrameTool"
  "fetchUrl exampleEnv = (\<lambda>u. FetchThrows)" "ffmpegBinaryPath exampleEnv = Some ''ffmpeg''"
  "runFfmpeg exampleEnv = (\<lambda>job inputs. None)"
  "generateVideos exampleEnv = (\<lambda>pos. Inr exampleVideo)"
  by (simp_all add: exampleEnv_def)

subsection \<open>C10: extending by a non-positive hold is the identity\<close>

text \<open>
  C10. For every clip and every \<open>holdSeconds \<le> 0\<close>, \<^verbatim>\<open>extendVideoWithHold\<close> returns
  the clip's bytes unchanged and invokes no external tool; extending the result again by
  \<open>0\<close> gives the same result (idempotence).
\<close>

theorem extend_nonpositive_hold_identity:
  "holdSeconds \<le> 0 \<Longrightarrow>
     extendVideoWithHold ev videoBase64 holdSeconds = (Inr (''video/mp4'', videoBase64), [])
     \<and> extendVideoWithHold ev (snd (projr (fst (extendVideoWithHold ev videoBase64 holdSeconds)))) 0
         = extendVideoWithHold ev videoBase64 0"
  by (simp add: extendVideoWithHold_def)

theorem extend_nonpositive_hold_identity_witness:
  "extendVideoWithHold exampleEnv ''AAAA'' (-2) = (Inr (''video/mp4'', ''AAAA''), [])
   \<and> extendVideoWithHold exampleEnv ''AAAA'' 0 = (Inr (''video/mp4'', ''AAAA''), [])"
  using extend_nonpositive_hold_identity [of "-2" exampleEnv "''AAAA''"]
        extend_nonpositive_hold_identity [of 0 exampleEnv "''AAAA''"]
  by simp

subsection \<open>C8: the frame provider's fallback chain\<close>

lemma thumbnailFrame_None_iff:
  "thumbnailFrame ev url = None \<longleftrightarrow> \<not> fetchUsable (fetchUrl ev url)"
  by (simp add: thumbnailFrame_def fetchUsable_def split: fetch_result.splits)

lemma thumbnailLoop_Inl_iff:
  "(\<exists>e. thumbnailLoop ev urls = Inl e) \<longleftrightarrow> (\<forall>url \<in> set urls. \<not> fetchUsable (fetchUrl ev url))"
  by (induction urls) (auto simp: thumbnailFrame_None_iff [symmetric] split: option.splits)

lemma thumbnailLoop_first:
  "i < length urls \<Longrightarrow> thumbnailFrame ev (urls ! i) = Some frame \<Longrightarrow>
   \<forall>j < i. thumbnailFrame ev (urls ! j) = None \<Longrightarrow> thumbnailLoop ev urls = Inr frame"
proof (induction urls arbitrary: i)
  case Nil
  then show ?case by simp
next
  case (Cons url rest)
  show ?case
  proof (cases i)
    case 0
    with Cons.prems show ?thesis by simp
  next
    case (Suc k)
    with Cons.prems have "thumbnailFrame ev url = None" by auto
    moreover have "thumbnailLoop ev rest = Inr frame"
    proof (rule Cons.IH [of k])
      show "k < length rest" using Cons.prems Suc by simp
      show "thumbnailFrame ev (rest ! k) = Some frame" using Cons.prems Suc by simp
      show "\<forall>j<k. thumbnailFrame ev (rest ! j) = None"
      proof (intro allI impI)
        fix j assume "j < k"
        then have "Suc j < i" using Suc by simp
        with Cons.prems have "thumbnailFrame ev ((url # rest) ! Suc j) = None" by blast
        then show "thumbnailFrame ev (rest ! j) = None" by simp
      qed
    qed
    ultimately show ?thesis by simp
  qed
qed

text \<open>
  C8. For every video id and timestamp, \<^verbatim>\<open>extractFrameFromYouTube\<close> returns the frame
  of the Python tool when that path succeeds; when it fails for any reason, it returns the
  first thumbnail variant, in the order maxresdefault, sddefault, hqdefault, whose fetch is
  \<^verbatim>\<open>ok\<close> with a non-empty body; and it fails exactly when the Python path and every
  thumbnail variant fail.
\<close>

theorem frame_provider_fallback_chain:
  "(extractFrameFromYouTubeViaPython ev vid t = Inr frame \<longrightarrow>
      extractFrameFromYouTube ev vid t = Inr frame)
   \<and> (\<forall>i ok bytes ct.
        (\<exists>err. extractFrameFromYouTubeViaPython ev vid t = Inl err) \<and>
        i < length (thumbnailCandidates vid) \<and>
        fetchUrl ev (thumbnailCandidates vid ! i) = FetchResponse ok bytes ct \<and>
        ok \<and> bytes \<noteq> [] \<and>
        (\<forall>j < i. \<not> fetchUsable (fetchUrl ev (thumbnailCandidates vid ! j))) \<longrightarrow>
        extractFrameFromYouTube ev vid t =
          Inr \<lparr>f_mimeType = (case ct of Some c \<Rightarrow> if c \<noteq> [] then c else ''image/jpeg''
                              | None \<Rightarrow> ''image/jpeg''),
               f_imageBytes = toBase64 ev bytes\<rparr>)
   \<and> ((\<exists>err. extractFrameFromYouTube ev vid t = Inl err) \<longleftrightarrow>
        (\<exists>err. extractFrameFromYouTubeViaPython ev vid t = Inl err) \<and>
        (\<forall>url \<in> set (thumbnailCandidates vid). \<not> fetchUsable (fetchUrl ev url)))
   \<and> thumbnailCandidates vid =
        [''https://i.ytimg.com/vi/'' @ vid @ ''/maxresdefault.jpg'',
         ''https://i.ytimg.com/vi/'' @ vid @ ''/sddefault.jpg'',
         ''https://i.ytimg.com/vi/'' @ vid @ ''/hqdefault.jpg'']"
proof (intro conjI allI impI)
  assume "extractFrameFromYouTubeViaPython ev vid t = Inr frame"
  then show "extractFrameFromYouTube ev vid t = Inr frame"
    by (simp add: extractFrameFromYouTube_def)
next
  fix i ok bytes ct
  assume a: "(\<exists>err. extractFrameFromYouTubeViaPython ev vid t = Inl err) \<and>
        i < length (thumbnailCandidates vid) \<and>
        fetchUrl ev (thumbnailCandidates vid ! i) = FetchResponse ok bytes ct \<and>
        ok \<and> bytes \<noteq> [] \<and>
        (\<forall>j < i. \<not> fetchUsable (fetchUrl ev (thumbnailCandidates vid ! j)))"
  let ?frame = "\<lparr>f_mimeType = (case ct of Some c \<Rightarrow> if c \<noteq> [] then c else ''image/jpeg''
                              | None \<Rightarrow> ''image/jpeg''),
               f_imageBytes = toBase64 ev bytes\<rparr>"
  from a have "thumbnailFrame ev (thumbnailCandidates vid ! i) = Some ?frame"
    by (simp add: thumbnailFrame_def)
  moreover from a have "\<forall>j < i. thumbnailFrame ev (thumbnailCandidates vid ! j) = None"
    by (simp add: thumbnailFrame_None_iff)
  ultimately have "thumbnailLoop ev (thumbnailCandidates vid) = Inr ?frame"
    using a thumbnailLoop_first by blast
  with a show "extractFrameFromYouTube ev vid t = Inr ?frame"
    by (auto simp: extractFrameFromYouTube_def extractFrameFromThumbnail_def)
next
  show "(\<exists>err. extractFrameFromYouTube ev vid t = Inl err) \<longleftrightarrow>
        (\<exists>err. extractFrameFromYouTubeViaPython ev vid t = Inl err) \<and>
        (\<forall>url \<in> set (thumbnailCandidates vid). \<not> fetchUsable (fetchUrl ev url))"
    using thumbnailLoop_Inl_iff [of ev "thumbnailCandidates vid"]
    by (auto simp: extractFrameFromYouTube_def extractFrameFromThumbnail_def split: sum.splits)
next
  show "thumbnailCandidates vid =
        [''https://i.ytimg.com/vi/'' @ vid @ ''/maxresdefault.jpg'',
         ''https://i.ytimg.com/vi/'' @ vid @ ''/sddefault.jpg'',
         ''https://i.ytimg.com/vi/'' @ vid @ ''/hqdefault.jpg'']"
    by (simp add: thumbnailCandidates_def)
qed

lemma fallbackEnv_python: "extractFrameFromYouTubeViaPython fallbackEnv ''abc123'' 10 = Inl ''Timed out while extracting YouTube frame.''"
  by (simp add: extractFrameFromYouTubeViaPython_def fallbackEnv_def)

lemma fallbackEnv_fetch:
  "fetchUrl fallbackEnv = thirdVariantOnly" "toBase64 fallbackEnv = (\<lambda>b. b)"
  by (simp_all add: fallbackEnv_def exampleEnv_sel)

theorem frame_provider_fallback_chain_witness:
  "extractFrameFromYouTube exampleEnv ''abc123'' 10
     = Inr \<lparr>f_mimeType = ''image/jpeg'', f_imageBytes = ''QUJD''\<rparr>
   \<and> extractFrameFromYouTube fallbackEnv ''abc123'' 10
     = Inr \<lparr>f_mimeType = ''image/jpeg'', f_imageBytes = ''JPEG''\<rparr>
   \<and> (\<exists>err. extractFrameFromYouTube (fallbackEnv\<lparr>fetchUrl := (\<lambda>u. FetchThrows)\<rparr>) ''abc123'' 10 = Inl err)"
proof (intro conjI)
  have "extractFrameFromYouTubeViaPython exampleEnv ''abc123'' 10
          = Inr \<lparr>f_mimeType = ''image/jpeg'', f_imageBytes = ''QUJD''\<rparr>"
    by (simp add: extractFrameFromYouTubeViaPython_def exampleEnv_sel okFrameTool_def)
  then show "extractFrameFromYouTube exampleEnv ''abc123'' 10
     = Inr \<lparr>f_mimeType = ''image/jpeg'', f_imageBytes = ''QUJD''\<rparr>"
    using frame_provider_fallback_chain [of exampleEnv "''abc123''" 10] by blast
next
  have urls: "thumbnailCandidates ''abc123'' =
     [''https://i.ytimg.com/vi/abc123/maxresdefault.jpg'',
      ''https://i.ytimg.com/vi/abc123/sddefault.jpg'',
      ''https://i.ytimg.com/vi/abc123/hqdefault.jpg'']"
    by (simp add: thumbnailCandidates_def)
  have pre: "(\<exists>err. extractFrameFromYouTubeViaPython fallbackEnv ''abc123'' 10 = Inl err) \<and>
        2 < length (thumbnailCandidates ''abc123'') \<and>
        fetchUrl fallbackEnv (thumbnailCandidates ''abc123'' ! 2) = FetchResponse True ''JPEG'' None \<and>
        True \<and> ''JPEG'' \<noteq> [] \<and>
        (\<forall>j < 2. \<not> fetchUsable (fetchUrl fallbackEnv (thumbnailCandidates ''abc123'' ! j)))"
    by (simp add: fallbackEnv_python fallbackEnv_fetch urls thirdVariantOnly_def fetchUsable_def
          less_Suc_eq numeral_2_eq_2)
  show "extractFrameFromYouTube fallbackEnv ''abc123'' 10
     = Inr \<lparr>f_mimeType = ''image/jpeg'', f_imageBytes = ''JPEG''\<rparr>"
    using frame_provider_fallback_chain [of fallbackEnv "''abc123''" 10, THEN conjunct2,
            THEN conjunct1, rule_format, of 2 True "''JPEG''" None, OF pre]
    by (simp add: fallbackEnv_fetch)
next
  let ?ev = "fallbackEnv\<lparr>fetchUrl := (\<lambda>u. FetchThrows)\<rparr>"
  have "extractFrameFromYouTubeViaPython ?ev ''abc123'' 10 = Inl ''Timed out while extracting YouTube frame.''"
    by (simp add: extractFrameFromYouTubeViaPython_def fallbackEnv_def)
  moreover have "\<forall>url \<in> set (thumbnailCandidates ''abc123''). \<not> fetchUsable (fetchUrl ?ev url)"
    by (simp add: fetchUsable_def)
  ultimately show "\<exists>err. extractFrameFromYouTube ?ev ''abc123'' 10 = Inl err"
    using frame_provider_fallback_chain [of ?ev "''abc123''" 10] by blast
qed

subsection \<open>C5: the in-memory cache is bounded and evicts in insertion order\<close>

lemma mapSet_keys:
  "map fst (mapSet key v m) = (if map_of m key = None then map fst m @ [key] else map fst m)"
  by (induction m) (auto simp: mapSet_def)

lemma length_mapSet:
  "length (mapSet key v m) = (if map_of m key = None then Suc (length m) else length m)"
  by (simp add: mapSet_def)

lemma mapSet_new: "map_of m key = None \<Longrightarrow> mapSet key v m = m @ [(key, v)]"
  by (simp add: mapSet_def)

lemma mapDelete_absent: "key \<notin> set (map fst m) \<Longrightarrow> mapDelete key m = m"
  by (induction m) (auto simp: mapDelete_def)

lemma mapDelete_head:
  "distinct (map fst ((key, v) # rest)) \<Longrightarrow> mapDelete key ((key, v) # rest) = rest"
  using mapDelete_absent [of key rest] by (simp add: mapDelete_def)

lemma map_of_None_keys: "map_of m key = None \<longleftrightarrow> key \<notin> set (map fst m)"
  by (simp add: map_of_eq_None_iff)

lemma writeCache_invariant:
  assumes "length c \<le> cap" "distinct (map fst c)" "[] \<notin> set (map fst c)" "key \<noteq> []"
  shows "length (writeCache cap key v c) \<le> cap
         \<and> distinct (map fst (writeCache cap key v c))
         \<and> [] \<notin> set (map fst (writeCache cap key v c))"
proof -
  let ?c1 = "mapSet key v c"
  have d1: "distinct (map fst ?c1)" and n1: "[] \<notin> set (map fst ?c1)"
    using assms by (auto simp: mapSet_keys map_of_None_keys)
  have l1: "length ?c1 \<le> Suc cap" using assms by (simp add: length_mapSet)
  show ?thesis
  proof (cases "length ?c1 \<le> cap")
    case True
    then show ?thesis using d1 n1 by (simp add: writeCache_def)
  next
    case False
    then obtain k0 v0 rest where c1: "?c1 = (k0, v0) # rest"
      by (cases ?c1) auto
    have "k0 \<noteq> []" using n1 c1 by auto
    moreover have "mapDelete k0 ?c1 = rest" using d1 c1 mapDelete_head [of k0 v0 rest] by simp
    ultimately have "writeCache cap key v c = rest"
      using False c1 by (simp add: writeCache_def)
    moreover have "length rest \<le> cap" using l1 c1 by simp
    moreover have "distinct (map fst rest)" "[] \<notin> set (map fst rest)" using d1 n1 c1 by auto
    ultimately show ?thesis by simp
  qed
qed

lemma writeCache_evicts_oldest:
  assumes "distinct (map fst c)" "[] \<notin> set (map fst c)" "key \<noteq> []"
    and "map_of c key = None" "cap \<le> length c"
  shows "writeCache cap key v c = tl (c @ [(key, v)])"
proof (cases c)
  case Nil
  then show ?thesis using assms by (simp add: writeCache_def mapSet_def mapDelete_def)
next
  case (Cons kv rest)
  obtain k0 v0 where kv: "kv = (k0, v0)" by (cases kv)
  have fresh: "key \<notin> set (map fst c)"
    using assms(4) map_of_None_keys [of c key] by blast
  have c1: "mapSet key v c = (k0, v0) # rest @ [(key, v)]"
    using assms(4) Cons kv mapSet_new [of c key v] by simp
  have "k0 \<noteq> []" using assms(2) Cons kv by auto
  moreover have "distinct (map fst ((k0, v0) # rest @ [(key, v)]))"
    using assms(1) fresh Cons kv by auto
  then have "mapDelete k0 ((k0, v0) # rest @ [(key, v)]) = rest @ [(key, v)]"
    by (rule mapDelete_head)
  ultimately show ?thesis using assms(5) Cons kv c1 by (simp add: writeCache_def)
qed

lemma writeCache_room:
  "map_of c key = None \<Longrightarrow> length c < cap \<Longrightarrow> writeCache cap key v c = c @ [(key, v)]"
  by (simp add: writeCache_def mapSet_new)

lemma buildCacheKey_nonempty: "buildCacheKey input \<noteq> []"
  by (simp add: buildCacheKey_def)

lemma runCacheOps_snoc:
  "runCacheOps cap (ops @ [op]) = applyCacheOp cap (runCacheOps cap ops) op"
  by (simp add: runCacheOps_def)

lemma runCacheOps_invariant:
  "length (runCacheOps cap ops) \<le> cap
   \<and> distinct (map fst (runCacheOps cap ops))
   \<and> [] \<notin> set (map fst (runCacheOps cap ops))"
proof (induction ops rule: rev_induct)
  case Nil
  then show ?case by (simp add: runCacheOps_def)
next
  case (snoc op ops)
  show ?case
  proof (cases op)
    case (Put input v)
    then show ?thesis
      using snoc writeCache_invariant [of "runCacheOps cap ops" cap "buildCacheKey input" v]
      by (simp add: runCacheOps_snoc buildCacheKey_nonempty)
  next
    case (Get input)
    then show ?thesis using snoc by (simp add: runCacheOps_snoc)
  next
    case Clear
    then show ?thesis by (simp add: runCacheOps_snoc)
  qed
qed

lemma runCacheOps_ignores_gets:
  "runCacheOps cap (filter (\<lambda>op. case op of Get input \<Rightarrow> False | _ \<Rightarrow> True) ops)
     = runCacheOps cap ops"
proof (induction ops rule: rev_induct)
  case Nil
  then show ?case by simp
next
  case (snoc op ops)
  then show ?case by (cases op) (simp_all add: runCacheOps_snoc)
qed

text \<open>
  C5. Starting from the empty cache and after any sequence of puts (under keys built by
  \<^verbatim>\<open>buildCacheKey\<close>), gets and clears, the in-memory cache holds at most
  \<open>MAX_CACHE_ENTRIES\<close> entries. Putting a new key into a full cache removes exactly the
  head of the insertion order, the earliest-inserted entry, and appends the new one; with
  room left nothing is removed. Gets have no influence on the cache.
\<close>

theorem cache_bounded_fifo:
  "length (runCacheOps cap ops) \<le> cap
   \<and> (map_of (runCacheOps cap ops) (buildCacheKey input) = None
        \<and> cap \<le> length (runCacheOps cap ops) \<longrightarrow>
      runCacheOps cap (ops @ [Put input v])
        = tl (runCacheOps cap ops @ [(buildCacheKey input, v)]))
   \<and> (map_of (runCacheOps cap ops) (buildCacheKey input) = None
        \<and> length (runCacheOps cap ops) < cap \<longrightarrow>
      runCacheOps cap (ops @ [Put input v])
        = runCacheOps cap ops @ [(buildCacheKey input, v)])
   \<and> runCacheOps cap (filter (\<lambda>op. case op of Get input \<Rightarrow> False | _ \<Rightarrow> True) ops)
        = runCacheOps cap ops"
  using runCacheOps_invariant [of cap ops]
        writeCache_evicts_oldest [of "runCacheOps cap ops" "buildCacheKey input" cap v]
        writeCache_room [of "runCacheOps cap ops" "buildCacheKey input" cap v]
        runCacheOps_ignores_gets [of cap ops]
  by (simp add: runCacheOps_snoc buildCacheKey_nonempty)

lemma example_keys:
  "buildCacheKey keyInputA = ''a:0:8:p:s:r:q:auto''"
  "buildCacheKey keyInputB = ''b:0:8:p:s:r:q:auto''"
  "buildCacheKey keyInputC = ''c:0:8:p:s:r:q:auto''"
  by code_simp+

lemma example_run:
  "runCacheOps 2 [Put keyInputA exampleClip, Put keyInputB exampleClip, Get keyInputA, Get keyInputA]
     = [(''a:0:8:p:s:r:q:auto'', exampleClip), (''b:0:8:p:s:r:q:auto'', exampleClip)]"
  by (simp add: runCacheOps_def example_keys writeCache_def mapSet_def)

theorem cache_bounded_fifo_witness:
  "runCacheOps 2 ([Put keyInputA exampleClip, Put keyInputB exampleClip, Get keyInputA, Get keyInputA]
                    @ [Put keyInputC exampleClip])
     = [(''b:0:8:p:s:r:q:auto'', exampleClip), (''c:0:8:p:s:r:q:auto'', exampleClip)]"
  using cache_bounded_fifo [of 2 "[Put keyInputA exampleClip, Put keyInputB exampleClip, Get keyInputA, Get keyInputA]" keyInputC exampleClip]
  by (simp add: example_run example_keys)

subsection \<open>C6: the request's duration field is not read\<close>

lemma requestCtx_ignores_duration:
  "requestCtx ev (body\<lparr>b_durationSeconds := d\<rparr>) product vid = requestCtx ev body product vid"
  by (simp add: requestCtx_def requestTimestampSeconds_def requestCacheKey_def requestedSeed_def
        requestBypassCache_def)

lemma POST_ignores_duration:
  "POST ev st (Some (body\<lparr>b_durationSeconds := d\<rparr>)) = POST ev st (Some body)"
  by (cases "validateProduct (b_product body)")
     (simp_all add: POST_def requestCtx_ignores_duration Let_def)

lemma requestCtx_durations:
  "c_durationSeconds (requestCtx ev body product vid) = 8"
  "c_generatedDurationSeconds (requestCtx ev body product vid) = 8"
  "c_holdExtensionSeconds (requestCtx ev body product vid) = 0"
  "c_requiresSplit (requestCtx ev body product vid) = False"
  by (simp_all add: requestCtx_def Let_def AD_INSERT_DURATION_SECONDS_def
        VEO_MAX_IMAGE_TO_VIDEO_SECONDS_def)

lemma requestCacheKey_ignores_duration:
  "requestCacheKey (body\<lparr>b_durationSeconds := d\<rparr>) product vid = requestCacheKey body product vid"
  by (simp add: requestCacheKey_def requestTimestampSeconds_def requestedSeed_def)

text \<open>
  C6 (as the code has it). The target duration is the constant
  \<^verbatim>\<open>AD_INSERT_DURATION_SECONDS\<close>, 8 seconds, whatever the request's
  \<^verbatim>\<open>durationSeconds\<close> field holds: changing that field changes neither the response,
  the store, the calls made, nor the cache key; the generated duration is 8, no hold
  extension and no split generation take place.
\<close>

theorem duration_is_fixed_constant:
  "POST ev st (Some (body\<lparr>b_durationSeconds := d\<rparr>)) = POST ev st (Some body)
   \<and> requestCacheKey (body\<lparr>b_durationSeconds := d\<rparr>) product vid = requestCacheKey body product vid
   \<and> c_durationSeconds (requestCtx ev (body\<lparr>b_durationSeconds := d\<rparr>) product vid) = 8
   \<and> c_generatedDurationSeconds (requestCtx ev (body\<lparr>b_durationSeconds := d\<rparr>) product vid) = 8
   \<and> c_holdExtensionSeconds (requestCtx ev (body\<lparr>b_durationSeconds := d\<rparr>) product vid) = 0
   \<and> \<not> c_requiresSplit (requestCtx ev (body\<lparr>b_durationSeconds := d\<rparr>) product vid)"
  by (simp add: POST_ignores_duration requestCacheKey_ignores_duration requestCtx_durations)

text \<open>
  Two requests that differ only in \<^verbatim>\<open>durationSeconds\<close> (5 and 15) are processed with
  the same target duration 8 and the same cache key, and are answered alike.
\<close>

theorem duration_field_ignored_counterexample:
  "b_durationSeconds (exampleBody\<lparr>b_durationSeconds := JNum 5\<rparr>) = JNum 5
   \<and> b_durationSeconds (exampleBody\<lparr>b_durationSeconds := JNum 15\<rparr>) = JNum 15
   \<and> c_durationSeconds (requestCtx exampleEnv (exampleBody\<lparr>b_durationSeconds := JNum 5\<rparr>)
         exampleProps ''abc123'') = 8
   \<and> c_durationSeconds (requestCtx exampleEnv (exampleBody\<lparr>b_durationSeconds := JNum 15\<rparr>)
         exampleProps ''abc123'') = 8
   \<and> requestCacheKey (exampleBody\<lparr>b_durationSeconds := JNum 5\<rparr>) exampleProps ''abc123''
       = requestCacheKey (exampleBody\<lparr>b_durationSeconds := JNum 15\<rparr>) exampleProps ''abc123''
   \<and> POST exampleEnv emptyStore (Some (exampleBody\<lparr>b_durationSeconds := JNum 5\<rparr>))
       = POST exampleEnv emptyStore (Some (exampleBody\<lparr>b_durationSeconds := JNum 15\<rparr>))"
  by (simp add: POST_ignores_duration requestCacheKey_ignores_duration requestCtx_durations)

subsection \<open>What follows an attempt in the trace\<close>

lemma attempt_plain:
  assumes "\<not> c_requiresSplit rc" "c_holdExtensionSeconds rc = 0"
  shows "attempt ev rc st cc m model p =
     (case generateVideos ev (cc_index cc, m, p) of
        Inl err \<Rightarrow> (Inl err, [attemptEvent rc cc m model p])
      | Inr v \<Rightarrow>
          (Inr (singlePassClip ev rc cc model (c_safetyProfiles rc ! p) v,
                fst (storeGenerated ev rc st
                       (singlePassClip ev rc cc model (c_safetyProfiles rc ! p) v))),
           attemptEvent rc cc m model p #
             snd (storeGenerated ev rc st
                    (singlePassClip ev rc cc model (c_safetyProfiles rc ! p) v))))"
  using assms
  by (simp add: attempt_def attemptEvent_def singlePassClip_def Let_def
        split: sum.splits prod.splits)

lemma profileLoop_end:
  "\<not> p < length (c_safetyProfiles rc) \<Longrightarrow>
   profileLoop ev rc st cc m model le p = (Completed, le, [])"
  by (subst profileLoop.simps) simp

lemma profileLoop_step:
  assumes "\<not> c_requiresSplit rc" "c_holdExtensionSeconds rc = 0"
    and "p < length (c_safetyProfiles rc)"
  shows "profileLoop ev rc st cc m model le p =
     (case generateVideos ev (cc_index cc, m, p) of
        Inr v \<Rightarrow>
          (Returned (JsonClip (singlePassClip ev rc cc model (c_safetyProfiles rc ! p) v) False)
             (fst (storeGenerated ev rc st
                     (singlePassClip ev rc cc model (c_safetyProfiles rc ! p) v))),
           le,
           attemptEvent rc cc m model p #
             snd (storeGenerated ev rc st
                    (singlePassClip ev rc cc model (c_safetyProfiles rc ! p) v)))
      | Inl e \<Rightarrow>
          (case classify e of
             PermissionDenied \<Rightarrow>
               (Returned (JsonError 403
                      ''Vertex permission denied for current credentials/project.''
                      (Some (e_message e))) st,
                ApiMessage (e_message e), [attemptEvent rc cc m model p])
           | QuotaExceeded \<Rightarrow>
               (Returned (JsonError 429
                      ''Veo quota exceeded for current billing/quota project.''
                      (Some (e_message e))) st,
                ApiMessage (e_message e), [attemptEvent rc cc m model p])
           | RetryableFrameIssue \<Rightarrow>
               (if Suc p < length (c_safetyProfiles rc) then
                  (case profileLoop ev rc st cc m model (ApiMessage (e_message e)) (Suc p) of
                     (x, l, evs) \<Rightarrow> (x, l, attemptEvent rc cc m model p # evs))
                else (MoveToNextCandidate, ApiMessage (e_message e),
                      [attemptEvent rc cc m model p]))
           | OtherError \<Rightarrow>
               (Completed, ApiMessage (e_message e), [attemptEvent rc cc m model p])))"
proof (cases "generateVideos ev (cc_index cc, m, p)")
  case (Inr v)
  then show ?thesis
    using assms by (subst profileLoop.simps) (simp add: attempt_plain)
next
  case (Inl e)
  have less: "p < length (c_safetyProfiles rc) - 1 \<longleftrightarrow> Suc p < length (c_safetyProfiles rc)"
    by auto
  show ?thesis
    using assms Inl
    by (subst profileLoop.simps)
       (auto simp: attempt_plain classify_def Let_def less split: prod.splits)
qed

lemma append_eq_mid:
  "xs @ ys = pre @ a # post \<Longrightarrow>
   (\<exists>q. xs = pre @ a # q \<and> post = q @ ys) \<or> (\<exists>q. pre = xs @ q \<and> ys = q @ a # post)"
  by (auto simp: append_eq_append_conv2 append_eq_Cons_conv Cons_eq_append_conv)

lemma storeGenerated_no_attempt:
  "snd (storeGenerated ev rc st clip) \<noteq> pre @ GenerateVideos pos call # post"
proof
  assume a: "snd (storeGenerated ev rc st clip) = pre @ GenerateVideos pos call # post"
  have "GenerateVideos pos call \<notin> set (snd (storeGenerated ev rc st clip))"
    by (simp add: storeGenerated_def)
  with a show False by simp
qed

lemma profileLoop_head:
  assumes "\<not> c_requiresSplit rc" "c_holdExtensionSeconds rc = 0"
    and "p < length (c_safetyProfiles rc)"
  shows "\<exists>rest. snd (snd (profileLoop ev rc st cc m model le p)) = attemptEvent rc cc m model p # rest"
  by (simp add: profileLoop_step [OF assms]
        split: sum.splits error_class.splits prod.splits)

lemma profileLoop_follows:
  assumes plain: "\<not> c_requiresSplit rc" "c_holdExtensionSeconds rc = 0"
  shows "profileLoop ev rc st cc m model le p = (x, l, evs) \<Longrightarrow>
         evs = pre @ GenerateVideos pos call # post \<Longrightarrow>
         \<exists>q. p \<le> q \<and> q < length (c_safetyProfiles rc) \<and> pos = (cc_index cc, m, q) \<and>
             call = generateCall rc cc model (c_safetyProfiles rc ! q) \<and>
             follows ev rc st cc m model q
               (\<lambda>msg. post = [] \<and> x = MoveToNextCandidate \<and> l = ApiMessage msg)
               (\<lambda>msg. post = [] \<and> x = Completed \<and> l = ApiMessage msg) x post"
proof (induction "length (c_safetyProfiles rc) - p" arbitrary: p le pre evs)
  case 0
  then have "\<not> p < length (c_safetyProfiles rc)" by simp
  then have "profileLoop ev rc st cc m model le p = (Completed, le, [])"
    by (rule profileLoop_end)
  with 0 show ?case by simp
next
  case (Suc k)
  then have less: "p < length (c_safetyProfiles rc)" by simp
  note step = profileLoop_step [OF plain less, of ev st cc m model le]
  let ?G = "GenerateVideos pos call"
  let ?A = "attemptEvent rc cc m model p"
  have here: "?A = ?G \<Longrightarrow> pos = (cc_index cc, m, p) \<and>
      call = generateCall rc cc model (c_safetyProfiles rc ! p)"
    by (auto simp: attemptEvent_def)
  show ?case
  proof (cases "generateVideos ev (cc_index cc, m, p)")
    case (Inr v)
    let ?clip = "singlePassClip ev rc cc model (c_safetyProfiles rc ! p) v"
    from step Inr Suc.prems(1)
    have x: "x = Returned (JsonClip ?clip False) (fst (storeGenerated ev rc st ?clip))"
      and evs: "evs = ?A # snd (storeGenerated ev rc st ?clip)"
      by simp_all
    from evs Suc.prems(2) have eq: "?A # snd (storeGenerated ev rc st ?clip) = pre @ ?G # post"
      by simp
    have "?A = ?G \<and> post = snd (storeGenerated ev rc st ?clip)"
    proof (cases pre)
      case Nil
      with eq show ?thesis by simp
    next
      case (Cons a pre')
      with eq have "snd (storeGenerated ev rc st ?clip) = pre' @ ?G # post" by simp
      with storeGenerated_no_attempt show ?thesis by blast
    qed
    with here x Inr less show ?thesis
      by - (rule exI [of _ p], simp add: follows_def)
  next
    case (Inl e)
    show ?thesis
    proof (cases "classify e = RetryableFrameIssue \<and> Suc p < length (c_safetyProfiles rc)")
      case False
      with step Inl Suc.prems(1) have evs: "evs = [?A]"
        by (auto split: error_class.splits)
      with Suc.prems(2) have G: "?A = ?G" and post: "post = []" and "pre = []"
        by (cases pre; simp)+
      from False step Inl Suc.prems(1) post
      have "follows ev rc st cc m model p
               (\<lambda>msg. post = [] \<and> x = MoveToNextCandidate \<and> l = ApiMessage msg)
               (\<lambda>msg. post = [] \<and> x = Completed \<and> l = ApiMessage msg) x post"
        by (auto simp: follows_def split: error_class.splits)
      with here G less show ?thesis by - (rule exI [of _ p], simp)
    next
      case True
      obtain x' l' evs' where rec:
        "profileLoop ev rc st cc m model (ApiMessage (e_message e)) (Suc p) = (x', l', evs')"
        by (cases "profileLoop ev rc st cc m model (ApiMessage (e_message e)) (Suc p)") auto
      with True step Inl Suc.prems(1) have x: "x = x'" "l = l'" and evs: "evs = ?A # evs'"
        by simp_all
      show ?thesis
      proof (cases pre)
        case Nil
        with evs Suc.prems(2) have G: "?A = ?G" and post: "post = evs'" by simp_all
        from True plain profileLoop_head [of rc "Suc p" ev st cc m model "ApiMessage (e_message e)"] rec
        obtain rest where "evs' = attemptEvent rc cc m model (Suc p) # rest" by auto
        with post True Inl have "follows ev rc st cc m model p
               (\<lambda>msg. post = [] \<and> x = MoveToNextCandidate \<and> l = ApiMessage msg)
               (\<lambda>msg. post = [] \<and> x = Completed \<and> l = ApiMessage msg) x post"
          by (simp add: follows_def)
        with here G less show ?thesis by - (rule exI [of _ p], simp)
      next
        case (Cons a pre')
        with evs Suc.prems(2) have mid: "evs' = pre' @ ?G # post" by simp
        have k: "k = length (c_safetyProfiles rc) - Suc p" using Suc.hyps(2) by simp
        from Suc.hyps(1) [OF k _ mid, of "ApiMessage (e_message e)"] rec x
        obtain q where "Suc p \<le> q" "q < length (c_safetyProfiles rc)" "pos = (cc_index cc, m, q)"
          "call = generateCall rc cc model (c_safetyProfiles rc ! q)"
          "follows ev rc st cc m model q
               (\<lambda>msg. post = [] \<and> x = MoveToNextCandidate \<and> l = ApiMessage msg)
               (\<lambda>msg. post = [] \<and> x = Completed \<and> l = ApiMessage msg) x post"
          by auto
        then show ?thesis by - (rule exI [of _ q], simp)
      qed
    qed
  qed
qed

lemma drop_eq_ConsD:
  "drop i xs = y # ys \<Longrightarrow> i < length xs \<and> y = xs ! i \<and> ys = drop (Suc i) xs"
proof -
  assume a: "drop i xs = y # ys"
  then have less: "i < length xs" by (cases "i < length xs") auto
  from Cons_nth_drop_Suc [OF less] a show ?thesis using less by simp
qed

lemma follows_transfer:
  assumes "follows ev rc st cc m model p A B x1 q"
    and "post = q @ tail"
    and "\<And>r s. x1 = Returned r s \<Longrightarrow> x = x1 \<and> tail = []"
    and "\<And>msg. A msg \<Longrightarrow> A' msg"
    and "\<And>msg. B msg \<Longrightarrow> B' msg"
  shows "follows ev rc st cc m model p A' B' x post"
  using assms unfolding follows_def
  by (auto split: sum.splits error_class.splits if_splits)

lemma modelLoop_head:
  assumes "\<not> c_requiresSplit rc" "c_holdExtensionSeconds rc = 0" "c_safetyProfiles rc \<noteq> []"
  shows "\<exists>rest'. snd (snd (modelLoop ev rc st cc mi (model # rest) le))
                  = attemptEvent rc cc mi model 0 # rest'"
proof -
  from assms have "0 < length (c_safetyProfiles rc)" by simp
  from profileLoop_head [OF assms(1,2) this, of ev st cc mi model le]
  obtain r where "snd (snd (profileLoop ev rc st cc mi model le 0)) = attemptEvent rc cc mi model 0 # r"
    by blast
  then show ?thesis
    by (auto split: prod.splits loop_exit.splits)
qed

lemma modelLoop_follows:
  assumes plain: "\<not> c_requiresSplit rc" "c_holdExtensionSeconds rc = 0"
    and profiles: "c_safetyProfiles rc \<noteq> []"
  shows "modelLoop ev rc st cc mi ms le = (x, l, evs) \<Longrightarrow> ms = drop mi (c_models rc) \<Longrightarrow>
         evs = pre @ GenerateVideos pos call # post \<Longrightarrow>
         \<exists>m p. mi \<le> m \<and> m < length (c_models rc) \<and> p < length (c_safetyProfiles rc) \<and>
             pos = (cc_index cc, m, p) \<and>
             call = generateCall rc cc (c_models rc ! m) (c_safetyProfiles rc ! p) \<and>
             follows ev rc st cc m (c_models rc ! m) p
               (\<lambda>msg. post = [] \<and> x = MoveToNextCandidate \<and> l = ApiMessage msg)
               (\<lambda>msg. if Suc m < length (c_models rc)
                       then \<exists>post'. post = attemptEvent rc cc (Suc m) (c_models rc ! Suc m) 0 # post'
                       else post = [] \<and> x = Completed \<and> l = ApiMessage msg) x post"
proof (induction ms arbitrary: mi le pre evs)
  case Nil
  then show ?case by simp
next
  case (Cons model rest)
  let ?G = "GenerateVideos pos call"
  from Cons.prems(2) drop_eq_ConsD [of mi "c_models rc" model rest]
  have mi: "mi < length (c_models rc)" and model: "model = c_models rc ! mi"
    and rest: "rest = drop (Suc mi) (c_models rc)" by simp_all
  obtain x1 l1 evs1 where inner: "profileLoop ev rc st cc mi model le 0 = (x1, l1, evs1)"
    by (cases "profileLoop ev rc st cc mi model le 0") auto
  obtain x2 l2 evs2 where outer: "modelLoop ev rc st cc (Suc mi) rest l1 = (x2, l2, evs2)"
    by (cases "modelLoop ev rc st cc (Suc mi) rest l1") auto
  have next_model: "if Suc mi < length (c_models rc)
      then \<exists>post'. evs2 = attemptEvent rc cc (Suc mi) (c_models rc ! Suc mi) 0 # post'
      else evs2 = [] \<and> x2 = Completed \<and> l2 = l1"
  proof (cases "Suc mi < length (c_models rc)")
    case True
    then have r: "rest = c_models rc ! Suc mi # drop (Suc (Suc mi)) (c_models rc)"
      using rest by (simp add: Cons_nth_drop_Suc)
    from modelLoop_head [OF plain profiles, of ev st cc "Suc mi" "c_models rc ! Suc mi"
        "drop (Suc (Suc mi)) (c_models rc)" l1]
    obtain r' where "snd (snd (modelLoop ev rc st cc (Suc mi) rest l1))
                       = attemptEvent rc cc (Suc mi) (c_models rc ! Suc mi) 0 # r'"
      unfolding r by blast
    with outer True show ?thesis by (simp del: modelLoop.simps)
  next
    case False
    then have "rest = []" using rest by simp
    with outer False show ?thesis by simp
  qed
  text \<open>The attempt lies in the trace of this model's profile loop.\<close>
  have inside: "\<exists>m p. mi \<le> m \<and> m < length (c_models rc) \<and> p < length (c_safetyProfiles rc) \<and>
             pos = (cc_index cc, m, p) \<and>
             call = generateCall rc cc (c_models rc ! m) (c_safetyProfiles rc ! p) \<and>
             follows ev rc st cc m (c_models rc ! m) p
               (\<lambda>msg. post = [] \<and> x = MoveToNextCandidate \<and> l = ApiMessage msg)
               (\<lambda>msg. if Suc m < length (c_models rc)
                       then \<exists>post'. post = attemptEvent rc cc (Suc m) (c_models rc ! Suc m) 0 # post'
                       else post = [] \<and> x = Completed \<and> l = ApiMessage msg) x post"
    if mid: "evs1 = pre @ ?G # q" and post: "post = q @ tail"
      and ret: "\<And>r s. x1 = Returned r s \<Longrightarrow> x = x1 \<and> tail = []"
      and moved: "x1 = MoveToNextCandidate \<Longrightarrow> x = x1 \<and> l = l1 \<and> tail = []"
      and completed: "x1 = Completed \<Longrightarrow> x = x2 \<and> l = l2 \<and> tail = evs2"
    for q tail
  proof -
    from profileLoop_follows [OF plain inner mid]
    obtain p where p: "p < length (c_safetyProfiles rc)" "pos = (cc_index cc, mi, p)"
      "call = generateCall rc cc model (c_safetyProfiles rc ! p)"
      and f: "follows ev rc st cc mi model p
               (\<lambda>msg. q = [] \<and> x1 = MoveToNextCandidate \<and> l1 = ApiMessage msg)
               (\<lambda>msg. q = [] \<and> x1 = Completed \<and> l1 = ApiMessage msg) x1 q"
      by blast
    have "follows ev rc st cc mi model p
               (\<lambda>msg. post = [] \<and> x = MoveToNextCandidate \<and> l = ApiMessage msg)
               (\<lambda>msg. if Suc mi < length (c_models rc)
                       then \<exists>post'. post = attemptEvent rc cc (Suc mi) (c_models rc ! Suc mi) 0 # post'
                       else post = [] \<and> x = Completed \<and> l = ApiMessage msg) x post"
    proof (rule follows_transfer [OF f post ret])
      fix msg assume "q = [] \<and> x1 = MoveToNextCandidate \<and> l1 = ApiMessage msg"
      with moved post show "post = [] \<and> x = MoveToNextCandidate \<and> l = ApiMessage msg" by simp
    next
      fix msg assume "q = [] \<and> x1 = Completed \<and> l1 = ApiMessage msg"
      with completed post next_model
      show "if Suc mi < length (c_models rc)
            then \<exists>post'. post = attemptEvent rc cc (Suc mi) (c_models rc ! Suc mi) 0 # post'
            else post = [] \<and> x = Completed \<and> l = ApiMessage msg"
        by (auto split: if_splits)
    qed
    with p mi model show ?thesis
      by - (rule exI [of _ mi], rule exI [of _ p], simp)
  qed
  show ?case
  proof (cases x1)
    case (Returned r s)
    with Cons.prems(1) inner have "x = x1" "l = l1" "evs = evs1" by simp_all
    with Cons.prems(3) Returned show ?thesis
      using inside [of post "[]"] by simp
  next
    case MoveToNextCandidate
    with Cons.prems(1) inner have "x = x1" "l = l1" "evs = evs1" by simp_all
    with Cons.prems(3) MoveToNextCandidate show ?thesis
      using inside [of post "[]"] by simp
  next
    case Completed
    with Cons.prems(1) inner outer have res: "x = x2" "l = l2" "evs = evs1 @ evs2" by simp_all
    from res(3) Cons.prems(3) have "evs1 @ evs2 = pre @ ?G # post" by simp
    from append_eq_mid [OF this]
    show ?thesis
    proof
      assume "\<exists>q. evs1 = pre @ ?G # q \<and> post = q @ evs2"
      then obtain q where "evs1 = pre @ ?G # q" "post = q @ evs2" by blast
      with Completed res show ?thesis using inside [of q evs2] by simp
    next
      assume "\<exists>q. pre = evs1 @ q \<and> evs2 = q @ ?G # post"
      then obtain q where mid2: "evs2 = q @ ?G # post" by blast
      from Cons.IH [OF _ rest mid2, of l1] outer res
      obtain m p where "Suc mi \<le> m" "m < length (c_models rc)" "p < length (c_safetyProfiles rc)"
        "pos = (cc_index cc, m, p)"
        "call = generateCall rc cc (c_models rc ! m) (c_safetyProfiles rc ! p)"
        "follows ev rc st cc m (c_models rc ! m) p
               (\<lambda>msg. post = [] \<and> x = MoveToNextCandidate \<and> l = ApiMessage msg)
               (\<lambda>msg. if Suc m < length (c_models rc)
                       then \<exists>post'. post = attemptEvent rc cc (Suc m) (c_models rc ! Suc m) 0 # post'
                       else post = [] \<and> x = Completed \<and> l = ApiMessage msg) x post"
        by auto
      then show ?thesis by - (rule exI [of _ m], rule exI [of _ p], simp)
    qed
  qed
qed

lemma cons_eq_mid:
  "f # xs = pre @ g # post \<Longrightarrow> f \<noteq> g \<Longrightarrow> \<exists>pre'. xs = pre' @ g # post"
  by (cases pre) auto

lemma candidateLoop_head:
  "\<exists>rest'. snd (snd (candidateLoop ev rc st ci (cand # rest) le))
             = ExtractFrames ci (frameTimestamps rc cand) # rest'"
  by (auto simp: Let_def split: sum.splits prod.splits loop_exit.splits)

lemma candidateLoop_follows:
  assumes plain: "\<not> c_requiresSplit rc" "c_holdExtensionSeconds rc = 0"
    and profiles: "c_safetyProfiles rc \<noteq> []"
  shows "candidateLoop ev rc st ci cs le = (x, l, evs) \<Longrightarrow> cs = drop ci C \<Longrightarrow>
         evs = pre @ GenerateVideos pos call # post \<Longrightarrow>
         \<exists>c m p frames. ci \<le> c \<and> c < length C \<and> m < length (c_models rc) \<and>
             p < length (c_safetyProfiles rc) \<and>
             extractFrames ev rc (C ! c) = Inr frames \<and>
             pos = (c, m, p) \<and>
             call = generateCall rc
                      \<lparr>cc_index = c, cc_timestampSeconds = C ! c, cc_frames = frames\<rparr>
                      (c_models rc ! m) (c_safetyProfiles rc ! p) \<and>
             follows ev rc st \<lparr>cc_index = c, cc_timestampSeconds = C ! c, cc_frames = frames\<rparr>
               m (c_models rc ! m) p
               (\<lambda>msg. if Suc c < length C
                       then \<exists>post'. post = ExtractFrames (Suc c) (frameTimestamps rc (C ! Suc c)) # post'
                       else post = [] \<and> x = Completed \<and> l = ApiMessage msg)
               (\<lambda>msg. if Suc m < length (c_models rc)
                       then \<exists>post'. post =
                              attemptEvent rc
                                \<lparr>cc_index = c, cc_timestampSeconds = C ! c, cc_frames = frames\<rparr>
                                (Suc m) (c_models rc ! Suc m) 0 # post'
                       else post = [] \<and> x = Completed \<and> l = ApiMessage msg) x post"
proof (induction cs arbitrary: ci le pre evs)
  case Nil
  then show ?case by simp
next
  case (Cons cand rest)
  let ?G = "GenerateVideos pos call"
  let ?F = "ExtractFrames ci (frameTimestamps rc cand)"
  let ?goal = "\<exists>c m p frames. ci \<le> c \<and> c < length C \<and> m < length (c_models rc) \<and>
             p < length (c_safetyProfiles rc) \<and>
             extractFrames ev rc (C ! c) = Inr frames \<and>
             pos = (c, m, p) \<and>
             call = generateCall rc
                      \<lparr>cc_index = c, cc_timestampSeconds = C ! c, cc_frames = frames\<rparr>
                      (c_models rc ! m) (c_safetyProfiles rc ! p) \<and>
             follows ev rc st \<lparr>cc_index = c, cc_timestampSeconds = C ! c, cc_frames = frames\<rparr>
               m (c_models rc ! m) p
               (\<lambda>msg. if Suc c < length C
                       then \<exists>post'. post = ExtractFrames (Suc c) (frameTimestamps rc (C ! Suc c)) # post'
                       else post = [] \<and> x = Completed \<and> l = ApiMessage msg)
               (\<lambda>msg. if Suc m < length (c_models rc)
                       then \<exists>post'. post =
                              attemptEvent rc
                                \<lparr>cc_index = c, cc_timestampSeconds = C ! c, cc_frames = frames\<rparr>
                                (Suc m) (c_models rc ! Suc m) 0 # post'
                       else post = [] \<and> x = Completed \<and> l = ApiMessage msg) x post"
  from Cons.prems(2) drop_eq_ConsD [of ci C cand rest]
  have ci: "ci < length C" and cand: "cand = C ! ci" and rest: "rest = drop (Suc ci) C"
    by simp_all
  have later: ?goal if "candidateLoop ev rc st (Suc ci) rest le' = (x, l, evs2)"
    and "evs2 = q @ ?G # post" for le' evs2 q
  proof -
    from Cons.IH [OF that(1) rest that(2)]
    obtain c m p frames where "Suc ci \<le> c" "c < length C" "m < length (c_models rc)"
             "p < length (c_safetyProfiles rc)"
             "extractFrames ev rc (C ! c) = Inr frames"
             "pos = (c, m, p)"
             "call = generateCall rc
                      \<lparr>cc_index = c, cc_timestampSeconds = C ! c, cc_frames = frames\<rparr>
                      (c_models rc ! m) (c_safetyProfiles rc ! p)"
             "follows ev rc st \<lparr>cc_index = c, cc_timestampSeconds = C ! c, cc_frames = frames\<rparr>
               m (c_models rc ! m) p
               (\<lambda>msg. if Suc c < length C
                       then \<exists>post'. post = ExtractFrames (Suc c) (frameTimestamps rc (C ! Suc c)) # post'
                       else post = [] \<and> x = Completed \<and> l = ApiMessage msg)
               (\<lambda>msg. if Suc m < length (c_models rc)
                       then \<exists>post'. post =
                              attemptEvent rc
                                \<lparr>cc_index = c, cc_timestampSeconds = C ! c, cc_frames = frames\<rparr>
                                (Suc m) (c_models rc ! Suc m) 0 # post'
                       else post = [] \<and> x = Completed \<and> l = ApiMessage msg) x post"
      by blast
    then show ?thesis
      by - (rule exI [of _ c], rule exI [of _ m], rule exI [of _ p], rule exI [of _ frames], simp)
  qed
  show ?case
  proof (cases "extractFrames ev rc cand")
    case (Inl msg)
    obtain x2 l2 evs2 where outer:
      "candidateLoop ev rc st (Suc ci) rest (FrameExtractFailed cand msg) = (x2, l2, evs2)"
      by (cases "candidateLoop ev rc st (Suc ci) rest (FrameExtractFailed cand msg)") auto
    with Inl Cons.prems(1) have res: "x = x2" "l = l2" "evs = ?F # evs2"
      by (simp_all add: Let_def)
    from res(3) Cons.prems(3) have "?F # (evs2) = pre @ ?G # post" by simp
    from cons_eq_mid [OF this] obtain q where "evs2 = q @ ?G # post"
      by auto
    with outer res later show ?thesis by blast
  next
    case (Inr frames)
    let ?cc = "\<lparr>cc_index = ci, cc_timestampSeconds = cand, cc_frames = frames\<rparr>"
    obtain x1 l1 evs1 where inner:
      "modelLoop ev rc st ?cc 0 (c_models rc) le = (x1, l1, evs1)"
      by (cases "modelLoop ev rc st ?cc 0 (c_models rc) le") auto
    obtain x2 l2 evs2 where outer: "candidateLoop ev rc st (Suc ci) rest l1 = (x2, l2, evs2)"
      by (cases "candidateLoop ev rc st (Suc ci) rest l1") auto
    have next_cand: "if Suc ci < length C
      then \<exists>post'. evs2 = ExtractFrames (Suc ci) (frameTimestamps rc (C ! Suc ci)) # post'
      else evs2 = [] \<and> x2 = Completed \<and> l2 = l1"
    proof (cases "Suc ci < length C")
      case True
      then have r: "rest = C ! Suc ci # drop (Suc (Suc ci)) C"
        using rest by (simp add: Cons_nth_drop_Suc)
      from candidateLoop_head [of ev rc st "Suc ci" "C ! Suc ci" "drop (Suc (Suc ci)) C" l1]
      obtain r' where "snd (snd (candidateLoop ev rc st (Suc ci) rest l1))
                         = ExtractFrames (Suc ci) (frameTimestamps rc (C ! Suc ci)) # r'"
        unfolding r by blast
      with outer True show ?thesis by (simp del: candidateLoop.simps)
    next
      case False
      then have "rest = []" using rest by simp
      with outer False show ?thesis by simp
    qed
    have inside: ?goal
      if mid: "evs1 = pre' @ ?G # q" and post: "post = q @ tail"
        and ret: "\<And>r s. x1 = Returned r s \<Longrightarrow> x = x1 \<and> tail = []"
        and completed: "x1 = Completed \<Longrightarrow> x = x1 \<and> l = l1 \<and> tail = []"
        and moved: "x1 = MoveToNextCandidate \<Longrightarrow> x = x2 \<and> l = l2 \<and> tail = evs2"
      for pre' q tail
    proof -
      from modelLoop_follows [OF plain profiles inner _ mid]
      obtain m p where mp: "m < length (c_models rc)" "p < length (c_safetyProfiles rc)"
        "pos = (ci, m, p)"
        "call = generateCall rc ?cc (c_models rc ! m) (c_safetyProfiles rc ! p)"
        and f: "follows ev rc st ?cc m (c_models rc ! m) p
               (\<lambda>msg. q = [] \<and> x1 = MoveToNextCandidate \<and> l1 = ApiMessage msg)
               (\<lambda>msg. if Suc m < length (c_models rc)
                       then \<exists>post'. q = attemptEvent rc ?cc (Suc m) (c_models rc ! Suc m) 0 # post'
                       else q = [] \<and> x1 = Completed \<and> l1 = ApiMessage msg) x1 q"
        by auto
      have "follows ev rc st ?cc m (c_models rc ! m) p
               (\<lambda>msg. if Suc ci < length C
                       then \<exists>post'. post = ExtractFrames (Suc ci) (frameTimestamps rc (C ! Suc ci)) # post'
                       else post = [] \<and> x = Completed \<and> l = ApiMessage msg)
               (\<lambda>msg. if Suc m < length (c_models rc)
                       then \<exists>post'. post = attemptEvent rc ?cc (Suc m) (c_models rc ! Suc m) 0 # post'
                       else post = [] \<and> x = Completed \<and> l = ApiMessage msg) x post"
      proof (rule follows_transfer [OF f post ret])
        fix msg assume "q = [] \<and> x1 = MoveToNextCandidate \<and> l1 = ApiMessage msg"
        with moved post next_cand
        show "if Suc ci < length C
              then \<exists>post'. post = ExtractFrames (Suc ci) (frameTimestamps rc (C ! Suc ci)) # post'
              else post = [] \<and> x = Completed \<and> l = ApiMessage msg"
          by (auto split: if_splits)
      next
        fix msg
        assume "if Suc m < length (c_models rc)
                then \<exists>post'. q = attemptEvent rc ?cc (Suc m) (c_models rc ! Suc m) 0 # post'
                else q = [] \<and> x1 = Completed \<and> l1 = ApiMessage msg"
        with completed post
        show "if Suc m < length (c_models rc)
              then \<exists>post'. post = attemptEvent rc ?cc (Suc m) (c_models rc ! Suc m) 0 # post'
              else post = [] \<and> x = Completed \<and> l = ApiMessage msg"
          by (auto split: if_splits)
      qed
      with mp ci Inr show ?thesis
        unfolding cand
        by - (rule exI [of _ ci], rule exI [of _ m], rule exI [of _ p], rule exI [of _ frames], simp)
    qed
    show ?thesis
    proof (cases x1)
      case (Returned r s)
      with Cons.prems(1) Inr inner have res: "x = x1" "l = l1" "evs = ?F # evs1"
        by (simp_all add: Let_def)
      from res(3) Cons.prems(3) have "?F # (evs1) = pre @ ?G # post" by simp
      from cons_eq_mid [OF this] obtain pre' where "evs1 = pre' @ ?G # post"
        by auto
      with Returned res show ?thesis using inside [of pre' post "[]"] by simp
    next
      case Completed
      with Cons.prems(1) Inr inner have res: "x = x1" "l = l1" "evs = ?F # evs1"
        by (simp_all add: Let_def)
      from res(3) Cons.prems(3) have "?F # (evs1) = pre @ ?G # post" by simp
      from cons_eq_mid [OF this] obtain pre' where "evs1 = pre' @ ?G # post"
        by auto
      with Completed res show ?thesis using inside [of pre' post "[]"] by simp
    next
      case MoveToNextCandidate
      with Cons.prems(1) Inr inner outer have res: "x = x2" "l = l2" "evs = ?F # evs1 @ evs2"
        by (simp_all add: Let_def)
      from res(3) Cons.prems(3) have "?F # (evs1 @ evs2) = pre @ ?G # post" by simp
      from cons_eq_mid [OF this] obtain pre' where "evs1 @ evs2 = pre' @ ?G # post"
        by auto
      from append_eq_mid [OF this]
      show ?thesis
      proof
        assume "\<exists>q. evs1 = pre' @ ?G # q \<and> post = q @ evs2"
        then obtain q where "evs1 = pre' @ ?G # q" "post = q @ evs2" by blast
        with MoveToNextCandidate res show ?thesis using inside [of pre' q evs2] by simp
      next
        assume "\<exists>q. pre' = evs1 @ q \<and> evs2 = q @ ?G # post"
        then obtain q where "evs2 = q @ ?G # post" by blast
        with outer res later show ?thesis by blast
      qed
    qed
  qed
qed

lemma requestCtx_sel:
  "c_videoId (requestCtx ev body product vid) = vid"
  "c_timestampSeconds (requestCtx ev body product vid) = requestTimestampSeconds body"
  "c_product (requestCtx ev body product vid) = product"
  "c_context (requestCtx ev body product vid) = clipContext (b_context body)"
  "c_cacheKey (requestCtx ev body product vid) = requestCacheKey body product vid"
  "c_bypassCache (requestCtx ev body product vid) = requestBypassCache ev body"
  "c_models (requestCtx ev body product vid) = getModelCandidates ev"
  "c_safetyProfiles (requestCtx ev body product vid) = getSafetyProfiles ev"
  "c_durationSeconds (requestCtx ev body product vid) = 8"
  "c_generatedDurationSeconds (requestCtx ev body product vid) = 8"
  "c_holdExtensionSeconds (requestCtx ev body product vid) = 0"
  "c_requiresSplit (requestCtx ev body product vid) = False"
  by (simp_all add: requestCtx_def Let_def AD_INSERT_DURATION_SECONDS_def
        VEO_MAX_IMAGE_TO_VIDEO_SECONDS_def)

lemma getSafetyProfiles_nonempty: "getSafetyProfiles ev \<noteq> []"
  by (simp add: getSafetyProfiles_def Let_def)

lemma getModelCandidates_nonempty: "getModelCandidates ev \<noteq> []"
  by (simp add: getModelCandidates_def)

text \<open>How a response comes about: a rejection, a cache hit, or the orchestration.\<close>

lemma POST_inversion:
  assumes "POST ev st req = (r, st', evs)"
  shows "(httpStatus r = 400 \<and> st' = st \<and> evs = [])
       \<or> (\<exists>clip. r = JsonClip clip True \<and> (\<forall>pos call. GenerateVideos pos call \<notin> set evs))
       \<or> (\<exists>body product reads evsG.
             req = Some body \<and> validateProduct (b_product body) = Some product \<and>
             sanitizeVideoId (b_videoId body) \<noteq> [] \<and>
             generateClip ev st (requestCtx ev body product (sanitizeVideoId (b_videoId body)))
               = (r, st', evsG) \<and>
             evs = reads @ evsG \<and>
             (\<forall>pos call. GenerateVideos pos call \<notin> set reads))"
proof (cases req)
  case None
  with assms show ?thesis by (auto simp: POST_def httpStatus_def)
next
  case (Some body)
  show ?thesis
  proof (cases "validateProduct (b_product body)")
    case None
    with assms Some show ?thesis by (auto simp: POST_def httpStatus_def)
  next
    case (Some product)
    note product = this
    let ?vid = "sanitizeVideoId (b_videoId body)"
    let ?rc = "requestCtx ev body product ?vid"
    show ?thesis
    proof (cases "?vid = []")
      case True
      with assms \<open>req = Some body\<close> product show ?thesis
        by (auto simp: POST_def httpStatus_def)
    next
      case False
      obtain r0 s0 evsG where gen: "generateClip ev st ?rc = (r0, s0, evsG)"
        by (cases "generateClip ev st ?rc") auto
      from assms \<open>req = Some body\<close> product False gen
      have "(\<exists>clip. r = JsonClip clip True \<and> (\<forall>pos call. GenerateVideos pos call \<notin> set evs))
          \<or> (\<exists>reads. r = r0 \<and> st' = s0 \<and> evs = reads @ evsG \<and>
                (\<forall>pos call. GenerateVideos pos call \<notin> set reads))"
        by (auto simp: POST_def Let_def split: if_splits option.splits)
      with \<open>req = Some body\<close> product False gen show ?thesis by auto
    qed
  qed
qed

lemma generateClip_follows:
  assumes plain: "\<not> c_requiresSplit rc" "c_holdExtensionSeconds rc = 0"
    and profiles: "c_safetyProfiles rc \<noteq> []"
    and gen: "generateClip ev st rc = (r, st', evs)"
    and mid: "evs = pre @ GenerateVideos pos call # post"
  shows "\<exists>c m p frames.
           c < length (buildTimestampCandidates ev (c_timestampSeconds rc)) \<and>
           m < length (c_models rc) \<and> p < length (c_safetyProfiles rc) \<and>
           extractFrames ev rc (buildTimestampCandidates ev (c_timestampSeconds rc) ! c) = Inr frames \<and>
           pos = (c, m, p) \<and>
           call = generateCall rc
                    \<lparr>cc_index = c,
                     cc_timestampSeconds = buildTimestampCandidates ev (c_timestampSeconds rc) ! c,
                     cc_frames = frames\<rparr>
                    (c_models rc ! m) (c_safetyProfiles rc ! p) \<and>
           follows ev rc st
             \<lparr>cc_index = c,
              cc_timestampSeconds = buildTimestampCandidates ev (c_timestampSeconds rc) ! c,
              cc_frames = frames\<rparr>
             m (c_models rc ! m) p
             (\<lambda>msg. if Suc c < length (buildTimestampCandidates ev (c_timestampSeconds rc))
                     then \<exists>post'. post =
                            ExtractFrames (Suc c)
                              (frameTimestamps rc
                                 (buildTimestampCandidates ev (c_timestampSeconds rc) ! Suc c)) # post'
                     else post = [] \<and> r = GenerationFailed (ApiMessage msg) \<and> st' = st)
             (\<lambda>msg. if Suc m < length (c_models rc)
                     then \<exists>post'. post =
                            attemptEvent rc
                              \<lparr>cc_index = c,
                               cc_timestampSeconds =
                                 buildTimestampCandidates ev (c_timestampSeconds rc) ! c,
                               cc_frames = frames\<rparr>
                              (Suc m) (c_models rc ! Suc m) 0 # post'
                     else post = [] \<and> r = GenerationFailed (ApiMessage msg) \<and> st' = st)
             (Returned r st') post"
proof -
  let ?C = "buildTimestampCandidates ev (c_timestampSeconds rc)"
  let ?G = "GenerateVideos pos call"
  from gen mid have client: "createClientError ev = None"
    by (cases "createClientError ev") (auto simp: generateClip_def Cons_eq_append_conv)
  obtain x l evs0 where loop: "candidateLoop ev rc st 0 ?C UnknownFailure = (x, l, evs0)"
    by (cases "candidateLoop ev rc st 0 ?C UnknownFailure") auto
  from gen client loop have evs: "evs = CreateClient # evs0"
    by (auto simp: generateClip_def split: loop_exit.splits)
  from gen client loop have ret: "\<And>r0 s0. x = Returned r0 s0 \<Longrightarrow> Returned r st' = x"
    by (auto simp: generateClip_def)
  from gen client loop have fail: "x = Completed \<Longrightarrow> r = GenerationFailed l \<and> st' = st"
    by (auto simp: generateClip_def)
  from evs mid have "CreateClient # evs0 = pre @ ?G # post" by simp
  from cons_eq_mid [OF this] obtain pre' where mid0: "evs0 = pre' @ ?G # post" by auto
  from candidateLoop_follows [OF plain profiles loop _ mid0, of ?C]
  obtain c m p frames where cmp: "c < length ?C" "m < length (c_models rc)"
      "p < length (c_safetyProfiles rc)" "extractFrames ev rc (?C ! c) = Inr frames"
      "pos = (c, m, p)"
      "call = generateCall rc
                \<lparr>cc_index = c, cc_timestampSeconds = ?C ! c, cc_frames = frames\<rparr>
                (c_models rc ! m) (c_safetyProfiles rc ! p)"
    and f: "follows ev rc st \<lparr>cc_index = c, cc_timestampSeconds = ?C ! c, cc_frames = frames\<rparr>
               m (c_models rc ! m) p
               (\<lambda>msg. if Suc c < length ?C
                       then \<exists>post'. post = ExtractFrames (Suc c) (frameTimestamps rc (?C ! Suc c)) # post'
                       else post = [] \<and> x = Completed \<and> l = ApiMessage msg)
               (\<lambda>msg. if Suc m < length (c_models rc)
                       then \<exists>post'. post =
                              attemptEvent rc
                                \<lparr>cc_index = c, cc_timestampSeconds = ?C ! c, cc_frames = frames\<rparr>
                                (Suc m) (c_models rc ! Suc m) 0 # post'
                       else post = [] \<and> x = Completed \<and> l = ApiMessage msg) x post"
    by auto
  have "follows ev rc st \<lparr>cc_index = c, cc_timestampSeconds = ?C ! c, cc_frames = frames\<rparr>
               m (c_models rc ! m) p
               (\<lambda>msg. if Suc c < length ?C
                       then \<exists>post'. post = ExtractFrames (Suc c) (frameTimestamps rc (?C ! Suc c)) # post'
                       else post = [] \<and> r = GenerationFailed (ApiMessage msg) \<and> st' = st)
               (\<lambda>msg. if Suc m < length (c_models rc)
                       then \<exists>post'. post =
                              attemptEvent rc
                                \<lparr>cc_index = c, cc_timestampSeconds = ?C ! c, cc_frames = frames\<rparr>
                                (Suc m) (c_models rc ! Suc m) 0 # post'
                       else post = [] \<and> r = GenerationFailed (ApiMessage msg) \<and> st' = st)
               (Returned r st') post"
  proof (rule follows_transfer [OF f, of post "[]"])
    show "post = post @ []" by simp
  next
    fix r0 s0 assume "x = Returned r0 s0"
    with ret show "Returned r st' = x \<and> [] = []" by simp
  next
    fix msg
    assume "if Suc c < length ?C
            then \<exists>post'. post = ExtractFrames (Suc c) (frameTimestamps rc (?C ! Suc c)) # post'
            else post = [] \<and> x = Completed \<and> l = ApiMessage msg"
    with fail
    show "if Suc c < length ?C
          then \<exists>post'. post = ExtractFrames (Suc c) (frameTimestamps rc (?C ! Suc c)) # post'
          else post = [] \<and> r = GenerationFailed (ApiMessage msg) \<and> st' = st"
      by (auto split: if_splits)
  next
    fix msg
    assume "if Suc m < length (c_models rc)
            then \<exists>post'. post =
                   attemptEvent rc
                     \<lparr>cc_index = c, cc_timestampSeconds = ?C ! c, cc_frames = frames\<rparr>
                     (Suc m) (c_models rc ! Suc m) 0 # post'
            else post = [] \<and> x = Completed \<and> l = ApiMessage msg"
    with fail
    show "if Suc m < length (c_models rc)
          then \<exists>post'. post =
                 attemptEvent rc
                   \<lparr>cc_index = c, cc_timestampSeconds = ?C ! c, cc_frames = frames\<rparr>
                   (Suc m) (c_models rc ! Suc m) 0 # post'
          else post = [] \<and> r = GenerationFailed (ApiMessage msg) \<and> st' = st"
      by (auto split: if_splits)
  qed
  with cmp show ?thesis
    by - (rule exI [of _ c], rule exI [of _ m], rule exI [of _ p], rule exI [of _ frames], simp)
qed

lemma generateCall_other:
  "generateCall rc cc model' profile'
     = (generateCall rc cc model profile)\<lparr>g_model := model', g_personGeneration := profile'\<rparr>"
  by (simp add: generateCall_def)

lemma POST_follows:
  assumes post: "POST ev st (Some body) = (r, st', evs)"
    and mid: "evs = pre @ GenerateVideos pos call # post"
  shows "\<exists>product c m p frames.
           validateProduct (b_product body) = Some product \<and>
           sanitizeVideoId (b_videoId body) \<noteq> [] \<and>
           c < length (buildTimestampCandidates ev (requestTimestampSeconds body)) \<and>
           m < length (getModelCandidates ev) \<and> p < length (getSafetyProfiles ev) \<and>
           pos = (c, m, p) \<and>
           call = generateCall (requestCtx ev body product (sanitizeVideoId (b_videoId body)))
                    \<lparr>cc_index = c,
                     cc_timestampSeconds =
                       buildTimestampCandidates ev (requestTimestampSeconds body) ! c,
                     cc_frames = frames\<rparr>
                    (getModelCandidates ev ! m) (getSafetyProfiles ev ! p) \<and>
           follows ev (requestCtx ev body product (sanitizeVideoId (b_videoId body))) st
             \<lparr>cc_index = c,
              cc_timestampSeconds = buildTimestampCandidates ev (requestTimestampSeconds body) ! c,
              cc_frames = frames\<rparr>
             m (getModelCandidates ev ! m) p
             (\<lambda>msg. if Suc c < length (buildTimestampCandidates ev (requestTimestampSeconds body))
                     then \<exists>ts post'. post = ExtractFrames (Suc c) ts # post'
                     else post = [] \<and> r = GenerationFailed (ApiMessage msg) \<and> st' = st)
             (\<lambda>msg. if Suc m < length (getModelCandidates ev)
                     then \<exists>post'. post =
                            GenerateVideos (c, Suc m, 0)
                              (call\<lparr>g_model := getModelCandidates ev ! Suc m,
                                     g_personGeneration := getSafetyProfiles ev ! 0\<rparr>) # post'
                     else post = [] \<and> r = GenerationFailed (ApiMessage msg) \<and> st' = st)
             (Returned r st') post"
proof -
  let ?G = "GenerateVideos pos call"
  from mid have inG: "?G \<in> set evs" by simp
  have "\<not> (httpStatus r = 400 \<and> st' = st \<and> evs = [])" using mid by simp
  moreover have "\<not> (\<exists>clip. r = JsonClip clip True \<and> (\<forall>pos call. GenerateVideos pos call \<notin> set evs))"
    using inG by blast
  ultimately have "\<exists>body' product reads evsG.
             Some body = Some body' \<and> validateProduct (b_product body') = Some product \<and>
             sanitizeVideoId (b_videoId body') \<noteq> [] \<and>
             generateClip ev st (requestCtx ev body' product (sanitizeVideoId (b_videoId body')))
               = (r, st', evsG) \<and>
             evs = reads @ evsG \<and>
             (\<forall>pos call. GenerateVideos pos call \<notin> set reads)"
    using POST_inversion [OF post] by blast
  then obtain product reads evsG where
    product: "validateProduct (b_product body) = Some product"
    and vid: "sanitizeVideoId (b_videoId body) \<noteq> []"
    and gen: "generateClip ev st (requestCtx ev body product (sanitizeVideoId (b_videoId body)))
               = (r, st', evsG)"
    and evs: "evs = reads @ evsG" and reads: "\<forall>pos call. GenerateVideos pos call \<notin> set reads"
    by auto
  let ?rc = "requestCtx ev body product (sanitizeVideoId (b_videoId body))"
  let ?C = "buildTimestampCandidates ev (requestTimestampSeconds body)"
  from evs mid have "reads @ evsG = pre @ ?G # post" by simp
  from append_eq_mid [OF this]
  have "(\<exists>q. reads = pre @ ?G # q \<and> post = q @ evsG) \<or> (\<exists>q. pre = reads @ q \<and> evsG = q @ ?G # post)" .
  moreover have "\<not> (\<exists>q. reads = pre @ ?G # q \<and> post = q @ evsG)"
  proof
    assume "\<exists>q. reads = pre @ ?G # q \<and> post = q @ evsG"
    then have "?G \<in> set reads" by auto
    with reads show False by blast
  qed
  ultimately obtain q where midG: "evsG = q @ ?G # post" by blast
  have plain: "\<not> c_requiresSplit ?rc" "c_holdExtensionSeconds ?rc = 0"
    and profiles: "c_safetyProfiles ?rc \<noteq> []"
    by (simp_all add: requestCtx_sel getSafetyProfiles_nonempty)
  from generateClip_follows [OF plain profiles gen midG]
  obtain c m p frames where cmp: "c < length ?C" "m < length (getModelCandidates ev)"
      "p < length (getSafetyProfiles ev)" "pos = (c, m, p)"
      "call = generateCall ?rc \<lparr>cc_index = c, cc_timestampSeconds = ?C ! c, cc_frames = frames\<rparr>
                (getModelCandidates ev ! m) (getSafetyProfiles ev ! p)"
    and f: "follows ev ?rc st \<lparr>cc_index = c, cc_timestampSeconds = ?C ! c, cc_frames = frames\<rparr>
             m (getModelCandidates ev ! m) p
             (\<lambda>msg. if Suc c < length ?C
                     then \<exists>post'. post =
                            ExtractFrames (Suc c) (frameTimestamps ?rc (?C ! Suc c)) # post'
                     else post = [] \<and> r = GenerationFailed (ApiMessage msg) \<and> st' = st)
             (\<lambda>msg. if Suc m < length (getModelCandidates ev)
                     then \<exists>post'. post =
                            attemptEvent ?rc
                              \<lparr>cc_index = c, cc_timestampSeconds = ?C ! c, cc_frames = frames\<rparr>
                              (Suc m) (getModelCandidates ev ! Suc m) 0 # post'
                     else post = [] \<and> r = GenerationFailed (ApiMessage msg) \<and> st' = st)
             (Returned r st') post"
    unfolding requestCtx_sel by blast
  have "follows ev ?rc st \<lparr>cc_index = c, cc_timestampSeconds = ?C ! c, cc_frames = frames\<rparr>
             m (getModelCandidates ev ! m) p
             (\<lambda>msg. if Suc c < length ?C
                     then \<exists>ts post'. post = ExtractFrames (Suc c) ts # post'
                     else post = [] \<and> r = GenerationFailed (ApiMessage msg) \<and> st' = st)
             (\<lambda>msg. if Suc m < length (getModelCandidates ev)
                     then \<exists>post'. post =
                            GenerateVideos (c, Suc m, 0)
                              (call\<lparr>g_model := getModelCandidates ev ! Suc m,
                                     g_personGeneration := getSafetyProfiles ev ! 0\<rparr>) # post'
                     else post = [] \<and> r = GenerationFailed (ApiMessage msg) \<and> st' = st)
             (Returned r st') post"
  proof (rule follows_transfer [OF f, of post "[]"])
    fix msg
    assume "if Suc m < length (getModelCandidates ev)
            then \<exists>post'. post =
                   attemptEvent ?rc
                     \<lparr>cc_index = c, cc_timestampSeconds = ?C ! c, cc_frames = frames\<rparr>
                     (Suc m) (getModelCandidates ev ! Suc m) 0 # post'
            else post = [] \<and> r = GenerationFailed (ApiMessage msg) \<and> st' = st"
    then show "if Suc m < length (getModelCandidates ev)
          then \<exists>post'. post =
                 GenerateVideos (c, Suc m, 0)
                   (call\<lparr>g_model := getModelCandidates ev ! Suc m,
                          g_personGeneration := getSafetyProfiles ev ! 0\<rparr>) # post'
          else post = [] \<and> r = GenerationFailed (ApiMessage msg) \<and> st' = st"
      unfolding cmp(5) attemptEvent_def
      by (auto simp: requestCtx_sel generateCall_def split: if_splits)
  qed (auto split: if_splits)
  with product vid cmp show ?thesis
    by - (rule exI [of _ product], rule exI [of _ c], rule exI [of _ m], rule exI [of _ p],
          rule exI [of _ frames], simp)
qed

subsection \<open>Running the orchestration forward\<close>






lemma POST_orchestrates:
  assumes valid: "validateProduct (b_product body) = Some product"
    and vid: "sanitizeVideoId (b_videoId body) = vid" "vid \<noteq> []"
    and miss: "requestBypassCache ev body \<or>
               (mapGet (requestCacheKey body product vid) (adClipCache st) = None \<and>
                readPersistentCache ev (requestCacheKey body product vid) (cacheDir st) = None)"
    and client: "createClientError ev = None"
    and loop: "candidateLoop ev (requestCtx ev body product vid) st 0
                 (buildTimestampCandidates ev (requestTimestampSeconds body)) UnknownFailure
               = (x, l, evs)"
  shows "POST ev st (Some body) =
     (case x of
        Returned r st' \<Rightarrow>
          (r, st',
           (if \<not> requestBypassCache ev body \<and> CACHE_PERSIST_ENABLED ev
            then [ReadPersistentCache (requestCacheKey body product vid)] else [])
           @ CreateClient # evs)
      | MoveToNextCandidate \<Rightarrow>
          (GenerationFailed l, st,
           (if \<not> requestBypassCache ev body \<and> CACHE_PERSIST_ENABLED ev
            then [ReadPersistentCache (requestCacheKey body product vid)] else [])
           @ CreateClient # evs)
      | Completed \<Rightarrow>
          (GenerationFailed l, st,
           (if \<not> requestBypassCache ev body \<and> CACHE_PERSIST_ENABLED ev
            then [ReadPersistentCache (requestCacheKey body product vid)] else [])
           @ CreateClient # evs))"
proof -
  have gen: "generateClip ev st (requestCtx ev body product vid) =
     (case x of Returned r st' \<Rightarrow> (r, st', CreateClient # evs)
      | MoveToNextCandidate \<Rightarrow> (GenerationFailed l, st, CreateClient # evs)
      | Completed \<Rightarrow> (GenerationFailed l, st, CreateClient # evs))"
    using client loop by (simp add: generateClip_def requestCtx_sel split: loop_exit.splits)
  show ?thesis
  proof (cases "requestBypassCache ev body")
    case True
    with valid vid gen show ?thesis
      by (simp add: POST_def requestCtx_sel split: loop_exit.splits)
  next
    case False
    with miss valid vid gen show ?thesis
      by (simp add: POST_def requestCtx_sel Let_def split: loop_exit.splits)
  qed
qed



subsection \<open>The example runs\<close>

lemma modelEnv_sel:
  "MAX_CACHE_ENTRIES (modelEnv g) = 60" "CACHE_PERSIST_ENABLED (modelEnv g) = True"
  "VEO_DISABLE_CACHE (modelEnv g) = False" "VEO_FORCE_SINGLE_PASS (modelEnv g) = True"
  "TIMESTAMP_FALLBACK_OFFSETS (modelEnv g) = defaultOffsets"
  "DEFAULT_PERSON_GENERATION (modelEnv g) = ''ALLOW_ADULT''"
  "ENABLE_FACE_SAFETY_RETRY (modelEnv g) = True" "VEO_MODELS (modelEnv g) = []"
  "VEO_MODEL (modelEnv g) = ''veo-3.1-fast-generate-preview''"
  "createClientError (modelEnv g) = None" "randomSeed (modelEnv g) = 7"
  "dateNow (modelEnv g) = 1000"
  "sha1Hex (modelEnv g) = (\<lambda>k. k)" "toBase64 (modelEnv g) = (\<lambda>b. b)"
  "diskWriteFails (modelEnv g) = False" "runPythonFrameTool (modelEnv g) = okFrameTool"
  "fetchUrl (modelEnv g) = (\<lambda>u. FetchThrows)" "ffmpegBinaryPath (modelEnv g) = Some ''ffmpeg''"
  "runFfmpeg (modelEnv g) = (\<lambda>job inputs. None)"
  "generateVideos (modelEnv g) = g"
  by (simp_all add: modelEnv_def exampleEnv_sel)

lemma exampleEnv_modelEnv: "exampleEnv = modelEnv (\<lambda>pos. Inr exampleVideo)"
  by (simp add: modelEnv_def exampleEnv_def)

lemma example_valid:
  "validateProduct (JObj exampleProps) = Some exampleProps"
  "validateProduct (JObj blankBenefitsProps) = Some blankBenefitsProps"
  by code_simp+

lemma example_vid: "sanitizeVideoId (JStr ''abc123'') = ''abc123''"
  by code_simp

lemma example_models:
  "getModelCandidates (modelEnv g) = [''veo-3.1-fast-generate-preview'', ''veo-3.1-generate-preview'']"
  by (simp add: getModelCandidates_def modelEnv_sel)

lemma example_profiles: "getSafetyProfiles (modelEnv g) = [''ALLOW_ADULT'', ''ALLOW_ALL'']"
  by (simp add: getSafetyProfiles_def modelEnv_sel)

lemma example_frame: "extractFrameFromYouTube (modelEnv g) vid ts = Inr exampleFrame"
  by (simp add: extractFrameFromYouTube_def extractFrameFromYouTubeViaPython_def modelEnv_sel
        okFrameTool_def exampleFrame_def)

lemma example_frames:
  "\<not> c_requiresSplit rc \<Longrightarrow> extractFrames (modelEnv g) rc ts = Inr exampleFrames"
  by (simp add: extractFrames_def frameTimestamps_def example_frame exampleFrames_def)

lemma example_classes:
  "classify blockedError = RetryableFrameIssue"
  "classify internalError = OtherError"
  "classify deniedError = PermissionDenied"
  by code_simp+

lemma digit_chars:
  "char_of (48 :: nat) = CHR ''0''" "char_of (49 :: nat) = CHR ''1''"
  "char_of (50 :: nat) = CHR ''2''" "char_of (51 :: nat) = CHR ''3''"
  "char_of (52 :: nat) = CHR ''4''" "char_of (53 :: nat) = CHR ''5''"
  "char_of (54 :: nat) = CHR ''6''" "char_of (55 :: nat) = CHR ''7''"
  "char_of (56 :: nat) = CHR ''8''" "char_of (57 :: nat) = CHR ''9''"
  by code_simp+

lemma example_request:
  "requestTimestampSeconds exampleBody = 10"
  "requestTimestampSeconds fractionalBody = 123456 / 10000"
  "requestBypassCache (modelEnv g) exampleBody = False"
  "requestBypassCache (modelEnv g) fractionalBody = False"
  "requestCacheKey exampleBody exampleProps ''abc123'' = exampleKey"
  by (simp_all add: requestTimestampSeconds_def requestBypassCache_def modelEnv_sel
        exampleBody_def fractionalBody_def requestCacheKey_def requestedSeed_def
        buildCacheKey_def trimmedOr_def productId_def exampleProps_def exampleKey_def
        AD_INSERT_DURATION_SECONDS_def DEFAULT_ASPECT_RATIO_def DEFAULT_RESOLUTION_def
        showInt_def showNat.simps digit_chars)

lemma example_body_fields:
  "b_product exampleBody = JObj exampleProps" "b_videoId exampleBody = JStr ''abc123''"
  "b_product fractionalBody = JObj exampleProps" "b_videoId fractionalBody = JStr ''abc123''"
  by (simp_all add: exampleBody_def fractionalBody_def)

lemma empty_store_miss:
  "mapGet key (adClipCache emptyStore) = None"
  "readPersistentCache ev key (cacheDir emptyStore) = None"
  by (simp_all add: mapGet_def emptyStore_def readPersistentCache_def)


lemma floor_examples:
  "of_int \<lfloor>(10::rat) * 1000\<rfloor> / 1000 = (10::rat)"
  "of_int \<lfloor>((10::rat) + 3) * 1000\<rfloor> / 1000 = (13::rat)"
  "of_int \<lfloor>(123456 / 10000 :: rat) * 1000\<rfloor> / 1000 = (12345 / 1000 :: rat)"
  "of_int \<lfloor>((123456 / 10000 :: rat) + 3) * 1000\<rfloor> / 1000 = (15345 / 1000 :: rat)"
  by (simp_all add: floor_eq_iff)


lemma example_candidates:
  "buildTimestampCandidates (modelEnv g) 10 = [10, 13, 7, 16, 4, 20, 0, 25]"
  by (simp add: buildTimestampCandidates_def modelEnv_sel defaultOffsets_def Let_def)

lemma example_body_rest:
  "b_context exampleBody = JUndefined" "b_seed exampleBody = JUndefined"
  "b_style exampleBody = JUndefined" "b_aspectRatio exampleBody = JUndefined"
  "b_resolution exampleBody = JUndefined" "b_bypassCache exampleBody = JUndefined"
  "b_timestampSeconds exampleBody = JNum 10"
  by (simp_all add: exampleBody_def)

lemma example_ctx:
  "requestCtx (modelEnv g) exampleBody exampleProps ''abc123'' =
     \<lparr>c_videoId = ''abc123'', c_timestampSeconds = 10, c_durationSeconds = 8,
      c_product = exampleProps, c_context = [], c_aspectRatio = ''16:9'',
      c_resolution = ''720p'', c_cacheKey = exampleKey, c_bypassCache = False,
      c_requiresSplit = False, c_generatedDurationSeconds = 8, c_holdExtensionSeconds = 0,
      c_seedBase = 7, c_models = [fastModel, standardModel],
      c_safetyProfiles = [''ALLOW_ADULT'', ''ALLOW_ALL'']\<rparr>"
  by (simp add: requestCtx_def Let_def AD_INSERT_DURATION_SECONDS_def
        VEO_MAX_IMAGE_TO_VIDEO_SECONDS_def example_request example_models example_profiles
        modelEnv_sel clipContext_def trimmedOr_def requestedSeed_def example_body_rest
        DEFAULT_ASPECT_RATIO_def DEFAULT_RESOLUTION_def fastModel_def standardModel_def)

lemma example_ctx_sel:
  "c_requiresSplit (requestCtx (modelEnv g) exampleBody exampleProps ''abc123'') = False"
  "c_holdExtensionSeconds (requestCtx (modelEnv g) exampleBody exampleProps ''abc123'') = 0"
  "c_safetyProfiles (requestCtx (modelEnv g) exampleBody exampleProps ''abc123'')
     = [''ALLOW_ADULT'', ''ALLOW_ALL'']"
  "c_models (requestCtx (modelEnv g) exampleBody exampleProps ''abc123'')
     = [fastModel, standardModel]"
  "frameTimestamps (requestCtx (modelEnv g) exampleBody exampleProps ''abc123'') ts = [ts, ts + 8]"
  "generateCall (requestCtx (modelEnv g) exampleBody exampleProps ''abc123'')
     \<lparr>cc_index = c, cc_timestampSeconds = ts, cc_frames = exampleFrames\<rparr> model profile
     = exampleCall ts model profile"
  by (simp_all add: example_ctx frameTimestamps_def generateCall_def exampleCall_def)

lemma example_attempt_event:
  "attemptEvent (requestCtx (modelEnv g) exampleBody exampleProps ''abc123'')
     \<lparr>cc_index = c, cc_timestampSeconds = ts, cc_frames = exampleFrames\<rparr> m model p
   = GenerateVideos (c, m, p) (exampleCall ts model ([''ALLOW_ADULT'', ''ALLOW_ALL''] ! p))"
  by (simp add: attemptEvent_def example_ctx_sel)

lemma example_post:
  assumes "candidateLoop (modelEnv g) (requestCtx (modelEnv g) exampleBody exampleProps ''abc123'')
             emptyStore 0 [10, 13, 7, 16, 4, 20, 0, 25] UnknownFailure = (x, l, evs)"
  shows "POST (modelEnv g) emptyStore (Some exampleBody) =
     (case x of
        Returned r st' \<Rightarrow> (r, st', ReadPersistentCache exampleKey # CreateClient # evs)
      | MoveToNextCandidate \<Rightarrow>
          (GenerationFailed l, emptyStore, ReadPersistentCache exampleKey # CreateClient # evs)
      | Completed \<Rightarrow>
          (GenerationFailed l, emptyStore, ReadPersistentCache exampleKey # CreateClient # evs))"
proof -
  have valid: "validateProduct (b_product exampleBody) = Some exampleProps"
    by (simp add: example_body_fields example_valid)
  have vid: "sanitizeVideoId (b_videoId exampleBody) = ''abc123''"
    by (simp add: example_body_fields example_vid)
  have miss: "requestBypassCache (modelEnv g) exampleBody \<or>
       (mapGet (requestCacheKey exampleBody exampleProps ''abc123'') (adClipCache emptyStore) = None \<and>
        readPersistentCache (modelEnv g) (requestCacheKey exampleBody exampleProps ''abc123'')
          (cacheDir emptyStore) = None)"
    by (simp add: empty_store_miss)
  have client: "createClientError (modelEnv g) = None" by (simp add: modelEnv_sel)
  from assms have loop: "candidateLoop (modelEnv g)
      (requestCtx (modelEnv g) exampleBody exampleProps ''abc123'') emptyStore 0
      (buildTimestampCandidates (modelEnv g) (requestTimestampSeconds exampleBody)) UnknownFailure
      = (x, l, evs)"
    by (simp add: example_request example_candidates)
  show ?thesis
    using POST_orchestrates [OF valid vid _ miss client loop]
    by (simp add: example_request modelEnv_sel split: loop_exit.splits)
qed

lemma denied_loop:
  "candidateLoop (modelEnv (\<lambda>pos. Inl deniedError))
     (requestCtx (modelEnv (\<lambda>pos. Inl deniedError)) exampleBody exampleProps ''abc123'')
     emptyStore 0 [10, 13, 7, 16, 4, 20, 0, 25] UnknownFailure
   = (Returned (JsonError 403 ''Vertex permission denied for current credentials/project.''
                  (Some ''Permission denied.'')) emptyStore,
      ApiMessage ''Permission denied.'',
      [ExtractFrames 0 [10, 18], GenerateVideos (0, 0, 0) (exampleCall 10 fastModel ''ALLOW_ADULT'')])"
  by (simp add: example_frames example_ctx_sel profileLoop_step modelEnv_sel example_classes
        example_attempt_event deniedError_def [THEN arg_cong, of e_message] Let_def)

lemma internal_loop:
  "candidateLoop (modelEnv (\<lambda>pos. Inl internalError))
     (requestCtx (modelEnv (\<lambda>pos. Inl internalError)) exampleBody exampleProps ''abc123'')
     emptyStore 0 [10, 13, 7, 16, 4, 20, 0, 25] UnknownFailure
   = (Completed, ApiMessage ''Internal error encountered.'',
      [ExtractFrames 0 [10, 18],
       GenerateVideos (0, 0, 0) (exampleCall 10 fastModel ''ALLOW_ADULT''),
       GenerateVideos (0, 1, 0) (exampleCall 10 standardModel ''ALLOW_ADULT'')])"
  by (simp add: example_frames example_ctx_sel profileLoop_step modelEnv_sel example_classes
        example_attempt_event internalError_def [THEN arg_cong, of e_message] Let_def)

subsection \<open>C3: permission and quota errors end the request at once\<close>

text \<open>
  C3. Whenever an attempt of a request fails with an error classified as permission denied
  (code 403 or status \<^verbatim>\<open>PERMISSION_DENIED\<close>) or quota exceeded (code 429 or status
  \<^verbatim>\<open>RESOURCE_EXHAUSTED\<close>), that attempt is the last call the handler makes: no further
  model, profile or timestamp candidate is tried, nothing is written to the cache, and the
  response carries status 403 or 429 respectively, with the provider's message as detail.
\<close>

theorem terminal_errors_abort:
  assumes "POST ev st (Some body) = (r, st', evs)"
    and "evs = pre @ GenerateVideos pos call # post"
    and "generateVideos ev pos = Inl e"
    and "classify e = PermissionDenied \<or> classify e = QuotaExceeded"
  shows "post = [] \<and> st' = st \<and>
         r = (if classify e = PermissionDenied
              then JsonError 403 ''Vertex permission denied for current credentials/project.''
                     (Some (e_message e))
              else JsonError 429 ''Veo quota exceeded for current billing/quota project.''
                     (Some (e_message e)))"
  using POST_follows [OF assms(1,2)] assms(3,4)
  by (auto simp: follows_def)

theorem terminal_errors_abort_witness:
  "POST (modelEnv (\<lambda>pos. Inl deniedError)) emptyStore (Some exampleBody)
     = (JsonError 403 ''Vertex permission denied for current credentials/project.''
          (Some ''Permission denied.''),
        emptyStore,
        [ReadPersistentCache exampleKey, CreateClient, ExtractFrames 0 [10, 18]] @
        GenerateVideos (0, 0, 0) (exampleCall 10 fastModel ''ALLOW_ADULT'') # [])"
proof -
  let ?ev = "modelEnv (\<lambda>pos. Inl deniedError)"
  let ?pre = "[ReadPersistentCache exampleKey, CreateClient, ExtractFrames 0 [10, 18]]"
  let ?call = "exampleCall 10 fastModel ''ALLOW_ADULT''"
  obtain r s where run: "POST ?ev emptyStore (Some exampleBody)
      = (r, s, ?pre @ GenerateVideos (0, 0, 0) ?call # [])"
    by (simp add: example_post [OF denied_loop])
  have "generateVideos ?ev (0, 0, 0) = Inl deniedError" by (simp add: modelEnv_sel)
  from terminal_errors_abort [OF run refl this] have "s = emptyStore \<and>
      r = JsonError 403 ''Vertex permission denied for current credentials/project.''
            (Some (e_message deniedError))"
    by (simp add: example_classes)
  with run show ?thesis by (simp add: deniedError_def)
qed

subsection \<open>C2: any other error moves to the next model, and ends the request after the last\<close>

text \<open>
  C2 (as the code has it). After an attempt that fails with an error that is none of
  permission denied, quota exceeded, blocked input image or missing sample, the next call
  is the attempt with the next model for the same timestamp candidate (same frames and
  prompt) and the first safety profile; when no model is left for that candidate, no
  further call is made, the store is unchanged, and the request ends with the 500 response
  that carries the last error message. No further timestamp candidate is tried.
\<close>

theorem other_error_next_model_or_fail:
  assumes "POST ev st (Some body) = (r, st', evs)"
    and "evs = pre @ GenerateVideos (c, m, p) call # post"
    and "generateVideos ev (c, m, p) = Inl e"
    and "classify e = OtherError"
  shows "if Suc m < length (getModelCandidates ev)
         then \<exists>post'. post =
                GenerateVideos (c, Suc m, 0)
                  (call\<lparr>g_model := getModelCandidates ev ! Suc m,
                         g_personGeneration := getSafetyProfiles ev ! 0\<rparr>) # post'
         else post = [] \<and> st' = st \<and> r = GenerationFailed (ApiMessage (e_message e))"
  using POST_follows [OF assms(1,2)] assms(3,4)
  by (auto simp: follows_def)

theorem other_error_next_model_or_fail_witness:
  "POST (modelEnv (\<lambda>pos. Inl internalError)) emptyStore (Some exampleBody)
     = (GenerationFailed (ApiMessage ''Internal error encountered.''), emptyStore,
        [ReadPersistentCache exampleKey, CreateClient, ExtractFrames 0 [10, 18],
         GenerateVideos (0, 0, 0) (exampleCall 10 fastModel ''ALLOW_ADULT'')] @
        GenerateVideos (0, 1, 0) (exampleCall 10 standardModel ''ALLOW_ADULT'') # [])
   \<and> exampleCall 10 standardModel ''ALLOW_ADULT''
       = (exampleCall 10 fastModel ''ALLOW_ADULT'')
           \<lparr>g_model := getModelCandidates (modelEnv (\<lambda>pos. Inl internalError)) ! Suc 0,
            g_personGeneration := getSafetyProfiles (modelEnv (\<lambda>pos. Inl internalError)) ! 0\<rparr>"
proof -
  let ?ev = "modelEnv (\<lambda>pos. Inl internalError)"
  let ?a = "GenerateVideos (0, 0, 0) (exampleCall 10 fastModel ''ALLOW_ADULT'')"
  let ?b = "GenerateVideos (0, 1, 0) (exampleCall 10 standardModel ''ALLOW_ADULT'')"
  let ?pre = "[ReadPersistentCache exampleKey, CreateClient, ExtractFrames 0 [10, 18]]"
  obtain r s where run: "POST ?ev emptyStore (Some exampleBody) = (r, s, (?pre @ [?a]) @ ?b # [])"
    by (simp add: example_post [OF internal_loop])
  have fails: "\<And>pos. generateVideos ?ev pos = Inl internalError" by (simp add: modelEnv_sel)
  from other_error_next_model_or_fail [OF run refl fails]
  have last: "s = emptyStore \<and> r = GenerationFailed (ApiMessage (e_message internalError))"
    by (simp add: example_classes example_models)
  from run have run': "POST ?ev emptyStore (Some exampleBody) = (r, s, ?pre @ ?a # [?b])"
    by simp
  from other_error_next_model_or_fail [OF run' refl fails]
  have "\<exists>post'. [?b] = GenerateVideos (0, Suc 0, 0)
          ((exampleCall 10 fastModel ''ALLOW_ADULT'')
             \<lparr>g_model := getModelCandidates ?ev ! Suc 0,
              g_personGeneration := getSafetyProfiles ?ev ! 0\<rparr>) # post'"
    by (simp add: example_classes example_models)
  with last run show ?thesis by (simp add: internalError_def)
qed

text \<open>
  With every attempt failing on an internal error, the request ends after the two models of
  the first candidate, although seven more timestamp candidates exist.
\<close>

theorem models_exhausted_terminates_counterexample:
  "generateVideos (modelEnv (\<lambda>pos. Inl internalError)) (0, 0, 0) = Inl internalError
   \<and> generateVideos (modelEnv (\<lambda>pos. Inl internalError)) (0, 1, 0) = Inl internalError
   \<and> classify internalError = OtherError
   \<and> length (getModelCandidates (modelEnv (\<lambda>pos. Inl internalError))) = 2
   \<and> buildTimestampCandidates (modelEnv (\<lambda>pos. Inl internalError))
        (requestTimestampSeconds exampleBody) = [10, 13, 7, 16, 4, 20, 0, 25]
   \<and> POST (modelEnv (\<lambda>pos. Inl internalError)) emptyStore (Some exampleBody)
     = (GenerationFailed (ApiMessage ''Internal error encountered.''), emptyStore,
        [ReadPersistentCache exampleKey, CreateClient, ExtractFrames 0 [10, 18],
         GenerateVideos (0, 0, 0) (exampleCall 10 fastModel ''ALLOW_ADULT''),
         GenerateVideos (0, 1, 0) (exampleCall 10 standardModel ''ALLOW_ADULT'')])"
  by (simp add: example_post [OF internal_loop] modelEnv_sel example_classes example_models
        example_request example_candidates)

subsection \<open>C1: blocked frames and missing samples retry the profile, then the next candidate\<close>






subsection \<open>Requests answered with a clip\<close>

lemma profileLoop_returns_clip:
  assumes plain: "\<not> c_requiresSplit rc" "c_holdExtensionSeconds rc = 0"
  shows "profileLoop ev rc st cc m model le p = (Returned (JsonClip clip hit) st', l, evs) \<Longrightarrow>
         \<not> hit \<and> st' = fst (storeGenerated ev rc st clip) \<and>
         requestedTimestampSeconds clip = c_timestampSeconds rc \<and>
         appliedTimestampSeconds clip = cc_timestampSeconds cc \<and>
         (\<exists>pre. evs = pre @ snd (storeGenerated ev rc st clip))"
proof (induction "length (c_safetyProfiles rc) - p" arbitrary: p le evs l)
  case 0
  then have "\<not> p < length (c_safetyProfiles rc)" by simp
  from profileLoop_end [OF this, of ev st cc m model le] 0 show ?case by simp
next
  case (Suc k)
  then have less: "p < length (c_safetyProfiles rc)" by simp
  note step = profileLoop_step [OF plain less, of ev st cc m model le]
  show ?case
  proof (cases "generateVideos ev (cc_index cc, m, p)")
    case (Inr v)
    with step Suc.prems show ?thesis
      by (auto simp: singlePassClip_def)
  next
    case (Inl e)
    show ?thesis
    proof (cases "classify e = RetryableFrameIssue \<and> Suc p < length (c_safetyProfiles rc)")
      case False
      with step Inl Suc.prems show ?thesis
        by (auto split: error_class.splits)
    next
      case True
      obtain x' l' evs' where rec:
        "profileLoop ev rc st cc m model (ApiMessage (e_message e)) (Suc p) = (x', l', evs')"
        by (cases "profileLoop ev rc st cc m model (ApiMessage (e_message e)) (Suc p)") auto
      with True step Inl Suc.prems
      have x: "x' = Returned (JsonClip clip hit) st'" and evs: "evs = attemptEvent rc cc m model p # evs'"
        by simp_all
      have k: "k = length (c_safetyProfiles rc) - Suc p" using Suc.hyps(2) by simp
      from Suc.hyps(1) [OF k rec [unfolded x]] evs show ?thesis by auto
    qed
  qed
qed

lemma modelLoop_returns_clip:
  assumes plain: "\<not> c_requiresSplit rc" "c_holdExtensionSeconds rc = 0"
  shows "modelLoop ev rc st cc mi ms le = (Returned (JsonClip clip hit) st', l, evs) \<Longrightarrow>
         \<not> hit \<and> st' = fst (storeGenerated ev rc st clip) \<and>
         requestedTimestampSeconds clip = c_timestampSeconds rc \<and>
         appliedTimestampSeconds clip = cc_timestampSeconds cc \<and>
         (\<exists>pre. evs = pre @ snd (storeGenerated ev rc st clip))"
proof (induction ms arbitrary: mi le evs l)
  case Nil
  then show ?case by simp
next
  case (Cons model rest)
  obtain x1 l1 evs1 where inner: "profileLoop ev rc st cc mi model le 0 = (x1, l1, evs1)"
    by (cases "profileLoop ev rc st cc mi model le 0") auto
  show ?case
  proof (cases x1)
    case (Returned r s)
    with Cons.prems inner have "profileLoop ev rc st cc mi model le 0
        = (Returned (JsonClip clip hit) st', l, evs)" by simp
    from profileLoop_returns_clip [OF plain this] show ?thesis .
  next
    case MoveToNextCandidate
    with Cons.prems inner show ?thesis by simp
  next
    case Completed
    obtain x2 l2 evs2 where outer: "modelLoop ev rc st cc (Suc mi) rest l1 = (x2, l2, evs2)"
      by (cases "modelLoop ev rc st cc (Suc mi) rest l1") auto
    with Completed Cons.prems inner
    have x: "x2 = Returned (JsonClip clip hit) st'" and evs: "evs = evs1 @ evs2" by simp_all
    from Cons.IH [OF outer [unfolded x]] evs show ?thesis by auto
  qed
qed

lemma candidateLoop_returns_clip:
  assumes plain: "\<not> c_requiresSplit rc" "c_holdExtensionSeconds rc = 0"
  shows "candidateLoop ev rc st ci cs le = (Returned (JsonClip clip hit) st', l, evs) \<Longrightarrow>
         \<not> hit \<and> st' = fst (storeGenerated ev rc st clip) \<and>
         requestedTimestampSeconds clip = c_timestampSeconds rc \<and>
         appliedTimestampSeconds clip \<in> set cs \<and>
         (\<exists>pre. evs = pre @ snd (storeGenerated ev rc st clip))"
proof (induction cs arbitrary: ci le evs l)
  case Nil
  then show ?case by simp
next
  case (Cons cand rest)
  let ?F = "ExtractFrames ci (frameTimestamps rc cand)"
  show ?case
  proof (cases "extractFrames ev rc cand")
    case (Inl msg)
    obtain x2 l2 evs2 where outer:
      "candidateLoop ev rc st (Suc ci) rest (FrameExtractFailed cand msg) = (x2, l2, evs2)"
      by (cases "candidateLoop ev rc st (Suc ci) rest (FrameExtractFailed cand msg)") auto
    with Inl Cons.prems have x: "x2 = Returned (JsonClip clip hit) st'" and evs: "evs = ?F # evs2"
      by (simp_all add: Let_def)
    from Cons.IH [OF outer [unfolded x]] evs show ?thesis
      by (auto intro: exI [of _ "?F # _"])
  next
    case (Inr frames)
    let ?cc = "\<lparr>cc_index = ci, cc_timestampSeconds = cand, cc_frames = frames\<rparr>"
    obtain x1 l1 evs1 where inner:
      "modelLoop ev rc st ?cc 0 (c_models rc) le = (x1, l1, evs1)"
      by (cases "modelLoop ev rc st ?cc 0 (c_models rc) le") auto
    show ?thesis
    proof (cases x1)
      case (Returned r s)
      with Cons.prems Inr inner
      have x: "x1 = Returned (JsonClip clip hit) st'" and evs: "evs = ?F # evs1"
        by (simp_all add: Let_def)
      from modelLoop_returns_clip [OF plain inner [unfolded x]] evs show ?thesis
        by (auto intro: exI [of _ "?F # _"])
    next
      case Completed
      with Cons.prems Inr inner show ?thesis by (simp add: Let_def)
    next
      case MoveToNextCandidate
      obtain x2 l2 evs2 where outer: "candidateLoop ev rc st (Suc ci) rest l1 = (x2, l2, evs2)"
        by (cases "candidateLoop ev rc st (Suc ci) rest l1") auto
      with MoveToNextCandidate Cons.prems Inr inner
      have x: "x2 = Returned (JsonClip clip hit) st'" and evs: "evs = ?F # evs1 @ evs2"
        by (simp_all add: Let_def)
      from Cons.IH [OF outer [unfolded x]] obtain pre where
        rest: "\<not> hit" "st' = fst (storeGenerated ev rc st clip)"
          "requestedTimestampSeconds clip = c_timestampSeconds rc"
          "appliedTimestampSeconds clip \<in> set rest"
          "evs2 = pre @ snd (storeGenerated ev rc st clip)"
        by blast
      from evs rest(5) have "evs = (?F # evs1 @ pre) @ snd (storeGenerated ev rc st clip)"
        by simp
      then have "\<exists>pre. evs = pre @ snd (storeGenerated ev rc st clip)" by blast
      with rest(1-4) show ?thesis by simp
    qed
  qed
qed

lemma generateClip_returns_clip:
  assumes plain: "\<not> c_requiresSplit rc" "c_holdExtensionSeconds rc = 0"
    and gen: "generateClip ev st rc = (JsonClip clip hit, st', evs)"
  shows "\<not> hit \<and> st' = fst (storeGenerated ev rc st clip) \<and>
         requestedTimestampSeconds clip = c_timestampSeconds rc \<and>
         appliedTimestampSeconds clip \<in> set (buildTimestampCandidates ev (c_timestampSeconds rc)) \<and>
         (\<exists>pre. evs = pre @ snd (storeGenerated ev rc st clip))"
proof -
  let ?C = "buildTimestampCandidates ev (c_timestampSeconds rc)"
  from gen have client: "createClientError ev = None"
    by (cases "createClientError ev") (auto simp: generateClip_def)
  obtain x l evs0 where loop: "candidateLoop ev rc st 0 ?C UnknownFailure = (x, l, evs0)"
    by (cases "candidateLoop ev rc st 0 ?C UnknownFailure") auto
  from gen client loop have x: "x = Returned (JsonClip clip hit) st'" and evs: "evs = CreateClient # evs0"
    by (auto simp: generateClip_def split: loop_exit.splits)
  from candidateLoop_returns_clip [OF plain loop [unfolded x]] obtain pre where
    facts: "\<not> hit" "st' = fst (storeGenerated ev rc st clip)"
      "requestedTimestampSeconds clip = c_timestampSeconds rc"
      "appliedTimestampSeconds clip \<in> set ?C"
      "evs0 = pre @ snd (storeGenerated ev rc st clip)"
    by blast
  from evs facts(5) have "evs = (CreateClient # pre) @ snd (storeGenerated ev rc st clip)" by simp
  then have "\<exists>pre. evs = pre @ snd (storeGenerated ev rc st clip)" by blast
  with facts(1-4) show ?thesis by simp
qed

text \<open>The three ways in which a request is answered with a clip.\<close>

lemma POST_clip_cases:
  assumes post: "POST ev st (Some body) = (JsonClip clip hit, st', evs)"
  shows "\<exists>product.
     validateProduct (b_product body) = Some product \<and>
     sanitizeVideoId (b_videoId body) \<noteq> [] \<and>
     ((\<not> requestBypassCache ev body \<and>
       mapGet (requestCacheKey body product (sanitizeVideoId (b_videoId body))) (adClipCache st)
         = Some clip \<and>
       hit \<and> st' = st \<and> evs = [])
      \<or> (\<not> requestBypassCache ev body \<and>
          mapGet (requestCacheKey body product (sanitizeVideoId (b_videoId body))) (adClipCache st)
            = None \<and>
          readPersistentCache ev (requestCacheKey body product (sanitizeVideoId (b_videoId body)))
            (cacheDir st) = Some clip \<and>
          hit \<and>
          st' = st\<lparr>adClipCache :=
                     writeCache (MAX_CACHE_ENTRIES ev)
                       (requestCacheKey body product (sanitizeVideoId (b_videoId body))) clip
                       (adClipCache st)\<rparr> \<and>
          (\<forall>pos call. GenerateVideos pos call \<notin> set evs) \<and> CreateClient \<notin> set evs)
      \<or> ((requestBypassCache ev body \<or>
           (mapGet (requestCacheKey body product (sanitizeVideoId (b_videoId body)))
              (adClipCache st) = None \<and>
            readPersistentCache ev
              (requestCacheKey body product (sanitizeVideoId (b_videoId body)))
              (cacheDir st) = None)) \<and>
          \<not> hit \<and>
          st' = fst (storeGenerated ev
                       (requestCtx ev body product (sanitizeVideoId (b_videoId body))) st clip) \<and>
          requestedTimestampSeconds clip = requestTimestampSeconds body \<and>
          appliedTimestampSeconds clip
            \<in> set (buildTimestampCandidates ev (requestTimestampSeconds body)) \<and>
          (\<exists>pre. evs = pre @ snd (storeGenerated ev
                       (requestCtx ev body product (sanitizeVideoId (b_videoId body))) st clip))))"
proof (cases "validateProduct (b_product body)")
  case None
  with post show ?thesis by (simp add: POST_def)
next
  case (Some product)
  let ?vid = "sanitizeVideoId (b_videoId body)"
  let ?rc = "requestCtx ev body product ?vid"
  let ?key = "requestCacheKey body product ?vid"
  have vid: "?vid \<noteq> []"
    using post Some by (auto simp: POST_def Let_def split: if_splits)
  have plain: "\<not> c_requiresSplit ?rc" "c_holdExtensionSeconds ?rc = 0"
    by (simp_all add: requestCtx_sel)
  have generated: "\<not> hit \<and> st' = fst (storeGenerated ev ?rc st clip) \<and>
         requestedTimestampSeconds clip = requestTimestampSeconds body \<and>
         appliedTimestampSeconds clip \<in> set (buildTimestampCandidates ev (requestTimestampSeconds body)) \<and>
         (\<exists>pre. evs = pre @ snd (storeGenerated ev ?rc st clip))"
    if gen: "generateClip ev st ?rc = (JsonClip clip hit, st', evsG)" and evs: "evs = reads @ evsG"
    for evsG reads
  proof -
    from generateClip_returns_clip [OF plain gen] obtain pre where
      facts: "\<not> hit" "st' = fst (storeGenerated ev ?rc st clip)"
        "requestedTimestampSeconds clip = requestTimestampSeconds body"
        "appliedTimestampSeconds clip \<in> set (buildTimestampCandidates ev (requestTimestampSeconds body))"
        "evsG = pre @ snd (storeGenerated ev ?rc st clip)"
      unfolding requestCtx_sel by blast
    from evs facts(5) have "evs = (reads @ pre) @ snd (storeGenerated ev ?rc st clip)" by simp
    then have "\<exists>pre. evs = pre @ snd (storeGenerated ev ?rc st clip)" by blast
    with facts(1-4) show ?thesis by simp
  qed
  show ?thesis
  proof (cases "requestBypassCache ev body")
    case True
    with post Some vid have "generateClip ev st ?rc = (JsonClip clip hit, st', evs)"
      by (simp add: POST_def requestCtx_sel)
    from generated [OF this, of "[]"] True Some vid show ?thesis by simp
  next
    case False
    note nb = this
    show ?thesis
    proof (cases "mapGet ?key (adClipCache st)")
      case (Some cached)
      with post \<open>validateProduct (b_product body) = Some product\<close> vid nb show ?thesis
        by (simp add: POST_def requestCtx_sel Let_def)
    next
      case None
      note miss = this
      show ?thesis
      proof (cases "readPersistentCache ev ?key (cacheDir st)")
        case (Some diskHit)
        with post \<open>validateProduct (b_product body) = Some product\<close> vid nb miss show ?thesis
          by (auto simp: POST_def requestCtx_sel Let_def)
      next
        case None
        obtain r0 s0 evsG where gen: "generateClip ev st ?rc = (r0, s0, evsG)"
          by (cases "generateClip ev st ?rc") auto
        with post \<open>validateProduct (b_product body) = Some product\<close> vid nb miss None
        have "r0 = JsonClip clip hit" "s0 = st'"
          "evs = (if CACHE_PERSIST_ENABLED ev then [ReadPersistentCache ?key] else []) @ evsG"
          by (auto simp: POST_def requestCtx_sel Let_def)
        with gen generated [of evsG "if CACHE_PERSIST_ENABLED ev then [ReadPersistentCache ?key] else []"]
          \<open>validateProduct (b_product body) = Some product\<close> vid miss None
        show ?thesis by simp
      qed
    qed
  qed
qed

lemma mapGet_mapSet: "mapGet key (mapSet key v m) = Some v"
proof (cases "map_of m key")
  case None
  then show ?thesis by (simp add: mapGet_def mapSet_def map_add_def)
next
  case (Some old)
  then have "map_of (map (\<lambda>(k, old). if k = key then (k, v) else (k, old)) m) key = Some v"
    by (induction m) (auto split: if_splits)
  with Some show ?thesis by (simp add: mapGet_def mapSet_def)
qed

lemma mapGet_mapDelete_other:
  "k \<noteq> key \<Longrightarrow> mapGet key (mapDelete k m) = mapGet key m"
  by (induction m) (auto simp: mapGet_def mapDelete_def)



lemma writeCache_get_new:
  assumes "0 < cap" and "mapGet key m = None"
  shows "mapGet key (writeCache cap key v m) = Some v"
proof -
  from assms(2) have m1: "mapSet key v m = m @ [(key, v)]" by (simp add: mapGet_def mapSet_def)
  have got: "mapGet key (m @ [(key, v)]) = Some v" using mapGet_mapSet [of key v m] by (simp add: m1)
  have w: "writeCache cap key v m =
     (if length (m @ [(key, v)]) \<le> cap then m @ [(key, v)]
      else (case m @ [(key, v)] of [] \<Rightarrow> m @ [(key, v)]
            | (oldestKey, oldest) # later \<Rightarrow>
                if oldestKey \<noteq> [] then mapDelete oldestKey (m @ [(key, v)])
                else m @ [(key, v)]))"
    by (simp add: writeCache_def m1 Let_def)
  show ?thesis
  proof (cases "length (m @ [(key, v)]) \<le> cap")
    case True
    then show ?thesis using got by (simp add: w)
  next
    case False
    with assms(1) obtain k0 v0 rest where m: "m = (k0, v0) # rest" by (cases m) auto
    have "k0 \<noteq> key" using assms(2) m by (auto simp: mapGet_def split: if_splits)
    then have "mapGet key (mapDelete k0 (m @ [(key, v)])) = Some v"
      using got mapGet_mapDelete_other [of k0 key "m @ [(key, v)]"] by simp
    with False got show ?thesis unfolding w by (cases "k0 = []") (auto simp: m)
  qed
qed

lemma buildTimestampCandidates_nonempty: "buildTimestampCandidates ev t \<noteq> []"
  by (simp add: buildTimestampCandidates_def Let_def)

lemma POST_first_attempt_ok:
  assumes valid: "validateProduct (b_product body) = Some product"
    and vid: "sanitizeVideoId (b_videoId body) = vid" "vid \<noteq> []"
    and miss: "requestBypassCache ev body \<or>
               (mapGet (requestCacheKey body product vid) (adClipCache st) = None \<and>
                readPersistentCache ev (requestCacheKey body product vid) (cacheDir st) = None)"
    and client: "createClientError ev = None"
    and cands: "buildTimestampCandidates ev (requestTimestampSeconds body) = cand # rest"
    and frames: "extractFrames ev (requestCtx ev body product vid) cand = Inr frames"
    and ok: "generateVideos ev (0, 0, 0) = Inr v"
  shows "POST ev st (Some body) =
     (JsonClip
        (singlePassClip ev (requestCtx ev body product vid)
           \<lparr>cc_index = 0, cc_timestampSeconds = cand, cc_frames = frames\<rparr>
           (getModelCandidates ev ! 0) (getSafetyProfiles ev ! 0) v) False,
      fst (storeGenerated ev (requestCtx ev body product vid) st
             (singlePassClip ev (requestCtx ev body product vid)
                \<lparr>cc_index = 0, cc_timestampSeconds = cand, cc_frames = frames\<rparr>
                (getModelCandidates ev ! 0) (getSafetyProfiles ev ! 0) v)),
      (if \<not> requestBypassCache ev body \<and> CACHE_PERSIST_ENABLED ev
       then [ReadPersistentCache (requestCacheKey body product vid)] else []) @
      [CreateClient, ExtractFrames 0 (frameTimestamps (requestCtx ev body product vid) cand),
       GenerateVideos (0, 0, 0)
         (generateCall (requestCtx ev body product vid)
            \<lparr>cc_index = 0, cc_timestampSeconds = cand, cc_frames = frames\<rparr>
            (getModelCandidates ev ! 0) (getSafetyProfiles ev ! 0))] @
      snd (storeGenerated ev (requestCtx ev body product vid) st
             (singlePassClip ev (requestCtx ev body product vid)
                \<lparr>cc_index = 0, cc_timestampSeconds = cand, cc_frames = frames\<rparr>
                (getModelCandidates ev ! 0) (getSafetyProfiles ev ! 0) v)))"
proof -
  let ?rc = "requestCtx ev body product vid"
  let ?cc = "\<lparr>cc_index = 0, cc_timestampSeconds = cand, cc_frames = frames\<rparr>"
  have plain: "\<not> c_requiresSplit ?rc" "c_holdExtensionSeconds ?rc = 0"
    by (simp_all add: requestCtx_sel)
  have pos: "0 < length (c_safetyProfiles ?rc)"
    using getSafetyProfiles_nonempty [of ev] by (simp add: requestCtx_sel)
  obtain model models' where models: "getModelCandidates ev = model # models'"
    using getModelCandidates_nonempty [of ev] by (cases "getModelCandidates ev") auto
  let ?clip = "singlePassClip ev ?rc ?cc model (c_safetyProfiles ?rc ! 0) v"
  have p: "profileLoop ev ?rc st ?cc 0 model UnknownFailure 0
       = (Returned (JsonClip ?clip False) (fst (storeGenerated ev ?rc st ?clip)), UnknownFailure,
          attemptEvent ?rc ?cc 0 model 0 # snd (storeGenerated ev ?rc st ?clip))"
    using ok by (simp add: profileLoop_step [OF plain pos])
  then have m: "modelLoop ev ?rc st ?cc 0 (c_models ?rc) UnknownFailure
       = (Returned (JsonClip ?clip False) (fst (storeGenerated ev ?rc st ?clip)), UnknownFailure,
          attemptEvent ?rc ?cc 0 model 0 # snd (storeGenerated ev ?rc st ?clip))"
    by (simp add: models requestCtx_sel)
  have loop: "candidateLoop ev ?rc st 0 (cand # rest) UnknownFailure
       = (Returned (JsonClip ?clip False) (fst (storeGenerated ev ?rc st ?clip)), UnknownFailure,
          ExtractFrames 0 (frameTimestamps ?rc cand) #
          attemptEvent ?rc ?cc 0 model 0 # snd (storeGenerated ev ?rc st ?clip))"
    using frames m by (simp add: Let_def del: modelLoop.simps)
  show ?thesis
    using POST_orchestrates [OF valid vid miss client, unfolded cands, OF loop]
    by (simp add: models requestCtx_sel attemptEvent_def)
qed

lemma request_variants:
  "exampleBody = exampleBody\<lparr>b_context := JUndefined, b_bypassCache := JUndefined,
                            b_product := JObj exampleProps\<rparr>"
  "bypassBody = exampleBody\<lparr>b_context := JUndefined, b_bypassCache := JBool True,
                           b_product := JObj exampleProps\<rparr>"
  "blankBenefitsBody = exampleBody\<lparr>b_context := JUndefined, b_bypassCache := JUndefined,
                                  b_product := JObj blankBenefitsProps\<rparr>"
  "contextBody = exampleBody\<lparr>b_context := JStr ''Two people talk in a kitchen.'',
                            b_bypassCache := JUndefined, b_product := JObj exampleProps\<rparr>"
  by (simp_all add: exampleBody_def bypassBody_def blankBenefitsBody_def contextBody_def)

lemma example_product_ids: "productId exampleProps = ''p1''" "productId blankBenefitsProps = ''p1''"
  by (simp_all add: productId_def exampleProps_def blankBenefitsProps_def)

lemma variant_request:
  "b_product (exampleBody\<lparr>b_context := ctx, b_bypassCache := bp, b_product := JObj props\<rparr>)
     = JObj props"
  "b_videoId (exampleBody\<lparr>b_context := ctx, b_bypassCache := bp, b_product := JObj props\<rparr>)
     = JStr ''abc123''"
  "b_context (exampleBody\<lparr>b_context := ctx, b_bypassCache := bp, b_product := JObj props\<rparr>)
     = ctx"
  "requestTimestampSeconds
     (exampleBody\<lparr>b_context := ctx, b_bypassCache := bp, b_product := JObj props\<rparr>) = 10"
  "requestBypassCache (modelEnv g)
     (exampleBody\<lparr>b_context := ctx, b_bypassCache := bp, b_product := JObj props\<rparr>)
     = (bp = JBool True)"
  "requestedSeed (exampleBody\<lparr>b_context := ctx, b_bypassCache := bp, b_product := JObj props\<rparr>)
     = None"
  by (simp_all add: exampleBody_def requestTimestampSeconds_def requestBypassCache_def
        modelEnv_sel requestedSeed_def trimmedOr_def)

lemma variant_key:
  "productId props = ''p1'' \<Longrightarrow>
   requestCacheKey (exampleBody\<lparr>b_context := ctx, b_bypassCache := bp, b_product := JObj props\<rparr>)
     props ''abc123'' = exampleKey"
  by (simp add: requestCacheKey_def variant_request buildCacheKey_def exampleKey_def
        example_body_rest trimmedOr_def AD_INSERT_DURATION_SECONDS_def DEFAULT_ASPECT_RATIO_def DEFAULT_RESOLUTION_def
        showInt_def showNat.simps digit_chars)

text \<open>A variant of the example request, served from a fresh start by the first attempt.\<close>

lemma variant_run:
  assumes valid: "validateProduct (JObj props) = Some props"
    and pid: "productId props = ''p1''"
  shows "POST exampleEnv emptyStore
           (Some (exampleBody\<lparr>b_context := ctx, b_bypassCache := bp, b_product := JObj props\<rparr>))
     = (JsonClip exampleClip False,
        (if bp = JBool True then emptyStore else exampleStoreAfter),
        (if bp = JBool True then [] else [ReadPersistentCache exampleKey]) @
        [CreateClient, ExtractFrames 0 [10, 18],
         GenerateVideos (0, 0, 0)
           ((exampleCall 10 fastModel ''ALLOW_ADULT'')
              \<lparr>g_product := props, g_context := clipContext ctx\<rparr>)] @
        (if bp = JBool True then []
         else [WriteCache exampleKey, WritePersistentCache exampleKey]))"
proof -
  let ?g = "\<lambda>pos :: attempt_pos. Inr exampleVideo :: parsed_error + resolved_video"
  let ?ev = "modelEnv ?g"
  let ?body = "exampleBody\<lparr>b_context := ctx, b_bypassCache := bp, b_product := JObj props\<rparr>"
  let ?rc = "requestCtx ?ev ?body props ''abc123''"
  have v: "validateProduct (b_product ?body) = Some props"
    by (simp add: variant_request valid)
  have vid: "sanitizeVideoId (b_videoId ?body) = ''abc123''" "''abc123'' \<noteq> []"
    by (simp_all add: variant_request example_vid)
  have miss: "requestBypassCache ?ev ?body \<or>
       (mapGet (requestCacheKey ?body props ''abc123'') (adClipCache emptyStore) = None \<and>
        readPersistentCache ?ev (requestCacheKey ?body props ''abc123'') (cacheDir emptyStore) = None)"
    by (simp add: empty_store_miss)
  have client: "createClientError ?ev = None" by (simp add: modelEnv_sel)
  have cands: "buildTimestampCandidates ?ev (requestTimestampSeconds ?body)
       = 10 # [13, 7, 16, 4, 20, 0, 25]"
    by (simp add: variant_request example_candidates)
  have frames: "extractFrames ?ev ?rc 10 = Inr exampleFrames"
    by (simp add: example_frames requestCtx_sel)
  have ok: "generateVideos ?ev (0, 0, 0) = Inr exampleVideo" by (simp add: modelEnv_sel)
  have clip: "singlePassClip ?ev ?rc
       \<lparr>cc_index = 0, cc_timestampSeconds = 10, cc_frames = exampleFrames\<rparr>
       (getModelCandidates ?ev ! 0) (getSafetyProfiles ?ev ! 0) exampleVideo = exampleClip"
    by (simp add: singlePassClip_def requestCtx_sel variant_request modelEnv_sel example_models
          example_profiles exampleVideo_def dataUrl_def exampleClip_def)
  have call: "generateCall ?rc
       \<lparr>cc_index = 0, cc_timestampSeconds = 10, cc_frames = exampleFrames\<rparr>
       (getModelCandidates ?ev ! 0) (getSafetyProfiles ?ev ! 0)
     = (exampleCall 10 fastModel ''ALLOW_ADULT'')\<lparr>g_product := props, g_context := clipContext ctx\<rparr>"
    by (simp add: generateCall_def exampleCall_def requestCtx_sel requestCtx_def Let_def
          variant_request example_models example_profiles fastModel_def modelEnv_sel
          example_body_rest trimmedOr_def AD_INSERT_DURATION_SECONDS_def VEO_MAX_IMAGE_TO_VIDEO_SECONDS_def
          DEFAULT_ASPECT_RATIO_def DEFAULT_RESOLUTION_def)
  have stored: "storeGenerated ?ev ?rc emptyStore exampleClip
     = (if bp = JBool True then (emptyStore, [])
        else (exampleStoreAfter, [WriteCache exampleKey, WritePersistentCache exampleKey]))"
    by (simp add: storeGenerated_def requestCtx_sel variant_request variant_key [OF pid]
          modelEnv_sel writeCache_def mapSet_def writePersistentCache_def cachePathForKey_def
          emptyStore_def exampleStoreAfter_def Let_def)
  have ts: "frameTimestamps ?rc 10 = [10, 18]"
    by (simp add: frameTimestamps_def requestCtx_sel)
  show ?thesis
    unfolding exampleEnv_modelEnv
    using POST_first_attempt_ok [OF v vid miss client cands frames ok]
    by (simp add: clip call stored ts variant_request variant_key [OF pid] modelEnv_sel)
qed

lemma example_runs:
  "POST exampleEnv emptyStore (Some exampleBody)
     = (JsonClip exampleClip False, exampleStoreAfter,
        [ReadPersistentCache exampleKey, CreateClient, ExtractFrames 0 [10, 18],
         GenerateVideos (0, 0, 0) (exampleCall 10 fastModel ''ALLOW_ADULT''),
         WriteCache exampleKey, WritePersistentCache exampleKey])"
  "POST exampleEnv emptyStore (Some bypassBody)
     = (JsonClip exampleClip False, emptyStore,
        [CreateClient, ExtractFrames 0 [10, 18],
         GenerateVideos (0, 0, 0) (exampleCall 10 fastModel ''ALLOW_ADULT'')])"
  "POST exampleEnv emptyStore (Some blankBenefitsBody)
     = (JsonClip exampleClip False, exampleStoreAfter,
        [ReadPersistentCache exampleKey, CreateClient, ExtractFrames 0 [10, 18],
         GenerateVideos (0, 0, 0)
           ((exampleCall 10 fastModel ''ALLOW_ADULT'')\<lparr>g_product := blankBenefitsProps\<rparr>),
         WriteCache exampleKey, WritePersistentCache exampleKey])"
proof -
  have c: "clipContext JUndefined = []" by (simp add: clipContext_def)
  have e: "(exampleCall 10 fastModel ''ALLOW_ADULT'')\<lparr>g_product := exampleProps, g_context := []\<rparr>
     = exampleCall 10 fastModel ''ALLOW_ADULT''"
    by (simp add: exampleCall_def)
  have b: "(exampleCall 10 fastModel ''ALLOW_ADULT'')\<lparr>g_product := blankBenefitsProps, g_context := []\<rparr>
     = (exampleCall 10 fastModel ''ALLOW_ADULT'')\<lparr>g_product := blankBenefitsProps\<rparr>"
    by (simp add: exampleCall_def)
  show "POST exampleEnv emptyStore (Some exampleBody)
     = (JsonClip exampleClip False, exampleStoreAfter,
        [ReadPersistentCache exampleKey, CreateClient, ExtractFrames 0 [10, 18],
         GenerateVideos (0, 0, 0) (exampleCall 10 fastModel ''ALLOW_ADULT''),
         WriteCache exampleKey, WritePersistentCache exampleKey])"
    using variant_run [OF example_valid(1) example_product_ids(1), where ctx = JUndefined and bp = JUndefined]
    unfolding request_variants(1) [symmetric] by (simp add: c e)
  show "POST exampleEnv emptyStore (Some bypassBody)
     = (JsonClip exampleClip False, emptyStore,
        [CreateClient, ExtractFrames 0 [10, 18],
         GenerateVideos (0, 0, 0) (exampleCall 10 fastModel ''ALLOW_ADULT'')])"
    using variant_run [OF example_valid(1) example_product_ids(1), where ctx = JUndefined and bp = "JBool True"]
    unfolding request_variants(2) [symmetric] by (simp add: c e)
  show "POST exampleEnv emptyStore (Some blankBenefitsBody)
     = (JsonClip exampleClip False, exampleStoreAfter,
        [ReadPersistentCache exampleKey, CreateClient, ExtractFrames 0 [10, 18],
         GenerateVideos (0, 0, 0)
           ((exampleCall 10 fastModel ''ALLOW_ADULT'')\<lparr>g_product := blankBenefitsProps\<rparr>),
         WriteCache exampleKey, WritePersistentCache exampleKey])"
    using variant_run [OF example_valid(2) example_product_ids(2), where ctx = JUndefined and bp = JUndefined]
    unfolding request_variants(3) [symmetric] by (simp add: c b)
qed

subsection \<open>Cache hits\<close>



lemma read_after_write:
  assumes "CACHE_PERSIST_ENABLED ev" and "\<not> diskWriteFails ev"
  shows "readPersistentCache ev key (writePersistentCache ev key clip files) = Some clip"
  using assms by (simp add: readPersistentCache_def writePersistentCache_def mapGet_mapSet)





subsection \<open>C4: requests with the same key fields share the cached clip\<close>



subsection \<open>C7: a generated clip is written to both caches unless the cache is bypassed\<close>

text \<open>
  Claim C7, amended. When a request is answered with a clip after a call of the video model,
  the response carries \<^verbatim>\<open>cacheHit: false\<close>, the requested timestamp and the applied
  timestamp, which is one of the timestamp candidates. If the request does not bypass the
  cache (neither \<^verbatim>\<open>bypassCache: true\<close> nor \<^verbatim>\<open>VEO_DISABLE_CACHE\<close>), the clip has been written
  to the memory cache and then handed to the disk cache writer under the request's key,
  these writes are the last calls before the response, and the clip can be read back from
  the memory cache when that has room for an entry and from the disk cache when that is
  enabled and its write succeeded. If the request bypasses the cache, the store is left as
  it was: the clip is written to neither cache.
\<close>

theorem generated_clip_cached_unless_bypassed:
  assumes post: "POST ev st (Some body) = (JsonClip clip hit, st', evs)"
    and generated: "GenerateVideos pos call \<in> set evs"
  shows "\<not> hit \<and>
    (\<exists>product key.
       validateProduct (b_product body) = Some product \<and>
       key = requestCacheKey body product (sanitizeVideoId (b_videoId body)) \<and>
       requestedTimestampSeconds clip = requestTimestampSeconds body \<and>
       appliedTimestampSeconds clip
         \<in> set (buildTimestampCandidates ev (requestTimestampSeconds body)) \<and>
       (requestBypassCache ev body \<longrightarrow> st' = st) \<and>
       (\<not> requestBypassCache ev body \<longrightarrow>
          st' = st\<lparr>adClipCache := writeCache (MAX_CACHE_ENTRIES ev) key clip (adClipCache st),
                   cacheDir := writePersistentCache ev key clip (cacheDir st)\<rparr> \<and>
          (\<exists>pre. evs = pre @ WriteCache key #
                   (if CACHE_PERSIST_ENABLED ev then [WritePersistentCache key] else [])) \<and>
          (0 < MAX_CACHE_ENTRIES ev \<longrightarrow> mapGet key (adClipCache st') = Some clip) \<and>
          (CACHE_PERSIST_ENABLED ev \<and> \<not> diskWriteFails ev \<longrightarrow>
             readPersistentCache ev key (cacheDir st') = Some clip)))"
proof -
  from POST_clip_cases [OF post] obtain product where
    valid: "validateProduct (b_product body) = Some product"
    and three:
      "(\<not> requestBypassCache ev body \<and>
        mapGet (requestCacheKey body product (sanitizeVideoId (b_videoId body))) (adClipCache st)
          = Some clip \<and>
        hit \<and> st' = st \<and> evs = [])
       \<or> (\<not> requestBypassCache ev body \<and>
           mapGet (requestCacheKey body product (sanitizeVideoId (b_videoId body))) (adClipCache st)
             = None \<and>
           readPersistentCache ev (requestCacheKey body product (sanitizeVideoId (b_videoId body)))
             (cacheDir st) = Some clip \<and>
           hit \<and>
           st' = st\<lparr>adClipCache :=
                      writeCache (MAX_CACHE_ENTRIES ev)
                        (requestCacheKey body product (sanitizeVideoId (b_videoId body))) clip
                        (adClipCache st)\<rparr> \<and>
           (\<forall>pos call. GenerateVideos pos call \<notin> set evs) \<and> CreateClient \<notin> set evs)
       \<or> ((requestBypassCache ev body \<or>
            (mapGet (requestCacheKey body product (sanitizeVideoId (b_videoId body)))
               (adClipCache st) = None \<and>
             readPersistentCache ev
               (requestCacheKey body product (sanitizeVideoId (b_videoId body)))
               (cacheDir st) = None)) \<and>
           \<not> hit \<and>
           st' = fst (storeGenerated ev
                        (requestCtx ev body product (sanitizeVideoId (b_videoId body))) st clip) \<and>
           requestedTimestampSeconds clip = requestTimestampSeconds body \<and>
           appliedTimestampSeconds clip
             \<in> set (buildTimestampCandidates ev (requestTimestampSeconds body)) \<and>
           (\<exists>pre. evs = pre @ snd (storeGenerated ev
                        (requestCtx ev body product (sanitizeVideoId (b_videoId body))) st clip)))"
    by (elim exE conjE) (rule that)
  let ?key = "requestCacheKey body product (sanitizeVideoId (b_videoId body))"
  let ?rc = "requestCtx ev body product (sanitizeVideoId (b_videoId body))"
  from three have third:
    "(requestBypassCache ev body \<or>
      (mapGet ?key (adClipCache st) = None \<and> readPersistentCache ev ?key (cacheDir st) = None)) \<and>
     \<not> hit \<and> st' = fst (storeGenerated ev ?rc st clip) \<and>
     requestedTimestampSeconds clip = requestTimestampSeconds body \<and>
     appliedTimestampSeconds clip
       \<in> set (buildTimestampCandidates ev (requestTimestampSeconds body)) \<and>
     (\<exists>pre. evs = pre @ snd (storeGenerated ev ?rc st clip))"
  proof (elim disjE)
    assume "\<not> requestBypassCache ev body \<and> mapGet ?key (adClipCache st) = Some clip \<and>
        hit \<and> st' = st \<and> evs = []"
    then have "evs = []" by simp
    with generated show ?thesis by simp
  next
    assume "\<not> requestBypassCache ev body \<and> mapGet ?key (adClipCache st) = None \<and>
        readPersistentCache ev ?key (cacheDir st) = Some clip \<and> hit \<and>
        st' = st\<lparr>adClipCache := writeCache (MAX_CACHE_ENTRIES ev) ?key clip (adClipCache st)\<rparr> \<and>
        (\<forall>pos call. GenerateVideos pos call \<notin> set evs) \<and> CreateClient \<notin> set evs"
    then have "\<forall>pos call. GenerateVideos pos call \<notin> set evs" by (elim conjE)
    then have "GenerateVideos pos call \<notin> set evs" by blast
    with generated show ?thesis by simp
  qed
  then have miss: "requestBypassCache ev body \<or>
         (mapGet ?key (adClipCache st) = None \<and> readPersistentCache ev ?key (cacheDir st) = None)"
    and hit: "\<not> hit"
    and st': "st' = fst (storeGenerated ev ?rc st clip)"
    and req: "requestedTimestampSeconds clip = requestTimestampSeconds body"
    and app: "appliedTimestampSeconds clip
                \<in> set (buildTimestampCandidates ev (requestTimestampSeconds body))"
    and evs: "\<exists>pre. evs = pre @ snd (storeGenerated ev ?rc st clip)"
    by simp_all
  have bypass: "requestBypassCache ev body \<longrightarrow> st' = st"
    using st' by (simp add: storeGenerated_def requestCtx_sel)
  have cached: "\<not> requestBypassCache ev body \<longrightarrow>
      st' = st\<lparr>adClipCache := writeCache (MAX_CACHE_ENTRIES ev) ?key clip (adClipCache st),
               cacheDir := writePersistentCache ev ?key clip (cacheDir st)\<rparr> \<and>
      (\<exists>pre. evs = pre @ WriteCache ?key #
               (if CACHE_PERSIST_ENABLED ev then [WritePersistentCache ?key] else [])) \<and>
      (0 < MAX_CACHE_ENTRIES ev \<longrightarrow> mapGet ?key (adClipCache st') = Some clip) \<and>
      (CACHE_PERSIST_ENABLED ev \<and> \<not> diskWriteFails ev \<longrightarrow>
         readPersistentCache ev ?key (cacheDir st') = Some clip)"
  proof (intro impI conjI)
    assume nb: "\<not> requestBypassCache ev body"
    show w: "st' = st\<lparr>adClipCache := writeCache (MAX_CACHE_ENTRIES ev) ?key clip (adClipCache st),
                   cacheDir := writePersistentCache ev ?key clip (cacheDir st)\<rparr>"
      using st' nb by (simp add: storeGenerated_def requestCtx_sel)
    show "\<exists>pre. evs = pre @ WriteCache ?key #
                   (if CACHE_PERSIST_ENABLED ev then [WritePersistentCache ?key] else [])"
    proof -
      from evs obtain pre where "evs = pre @ snd (storeGenerated ev ?rc st clip)"
        by (elim exE)
      with nb have "evs = pre @ WriteCache ?key #
          (if CACHE_PERSIST_ENABLED ev then [WritePersistentCache ?key] else [])"
        by (simp add: storeGenerated_def requestCtx_sel)
      then show ?thesis by (rule exI)
    qed
    from miss nb have none: "mapGet ?key (adClipCache st) = None" by simp
    {
      assume "0 < MAX_CACHE_ENTRIES ev"
      then show "mapGet ?key (adClipCache st') = Some clip"
        using writeCache_get_new [OF _ none, of "MAX_CACHE_ENTRIES ev" clip] by (simp add: w)
    }
    {
      assume "CACHE_PERSIST_ENABLED ev \<and> \<not> diskWriteFails ev"
      then show "readPersistentCache ev ?key (cacheDir st') = Some clip"
        using read_after_write [of ev ?key clip "cacheDir st"] by (simp add: w)
    }
  qed
  have inner: "validateProduct (b_product body) = Some product \<and>
       ?key = requestCacheKey body product (sanitizeVideoId (b_videoId body)) \<and>
       requestedTimestampSeconds clip = requestTimestampSeconds body \<and>
       appliedTimestampSeconds clip
         \<in> set (buildTimestampCandidates ev (requestTimestampSeconds body)) \<and>
       (requestBypassCache ev body \<longrightarrow> st' = st) \<and>
       (\<not> requestBypassCache ev body \<longrightarrow>
          st' = st\<lparr>adClipCache := writeCache (MAX_CACHE_ENTRIES ev) ?key clip (adClipCache st),
                   cacheDir := writePersistentCache ev ?key clip (cacheDir st)\<rparr> \<and>
          (\<exists>pre. evs = pre @ WriteCache ?key #
                   (if CACHE_PERSIST_ENABLED ev then [WritePersistentCache ?key] else [])) \<and>
          (0 < MAX_CACHE_ENTRIES ev \<longrightarrow> mapGet ?key (adClipCache st') = Some clip) \<and>
          (CACHE_PERSIST_ENABLED ev \<and> \<not> diskWriteFails ev \<longrightarrow>
             readPersistentCache ev ?key (cacheDir st') = Some clip))"
    by (intro conjI) (rule valid refl req app bypass cached)+
  show ?thesis
    by (rule conjI [OF hit]) (rule exI [of _ product], rule exI [of _ ?key], rule inner)
qed

theorem generated_clip_cached_unless_bypassed_witness:
  "POST exampleEnv emptyStore (Some exampleBody)
     = (JsonClip exampleClip False, exampleStoreAfter,
        [ReadPersistentCache exampleKey, CreateClient, ExtractFrames 0 [10, 18],
         GenerateVideos (0, 0, 0) (exampleCall 10 fastModel ''ALLOW_ADULT''),
         WriteCache exampleKey, WritePersistentCache exampleKey]) \<and>
   mapGet exampleKey (adClipCache exampleStoreAfter) = Some exampleClip \<and>
   readPersistentCache exampleEnv exampleKey (cacheDir exampleStoreAfter) = Some exampleClip"
proof -
  have generated: "GenerateVideos (0, 0, 0) (exampleCall 10 fastModel ''ALLOW_ADULT'')
      \<in> set [ReadPersistentCache exampleKey, CreateClient, ExtractFrames 0 [10, 18],
         GenerateVideos (0, 0, 0) (exampleCall 10 fastModel ''ALLOW_ADULT''),
         WriteCache exampleKey, WritePersistentCache exampleKey]"
    by simp
  have nb: "\<not> requestBypassCache exampleEnv exampleBody"
    by (simp add: requestBypassCache_def exampleEnv_sel exampleBody_def)
  have key: "requestCacheKey exampleBody exampleProps (sanitizeVideoId (b_videoId exampleBody))
      = exampleKey"
    by (simp add: example_body_fields example_vid example_request)
  have valid: "validateProduct (b_product exampleBody) = Some exampleProps"
    by (simp add: example_body_fields example_valid)
  from generated_clip_cached_unless_bypassed [OF example_runs(1) generated] nb valid key
  have "(0 < MAX_CACHE_ENTRIES exampleEnv \<longrightarrow>
          mapGet exampleKey (adClipCache exampleStoreAfter) = Some exampleClip) \<and>
        (CACHE_PERSIST_ENABLED exampleEnv \<and> \<not> diskWriteFails exampleEnv \<longrightarrow>
          readPersistentCache exampleEnv exampleKey (cacheDir exampleStoreAfter) = Some exampleClip)"
    by auto
  then show ?thesis by (simp add: example_runs(1) exampleEnv_sel)
qed

text \<open>
  The claim as stated fails for a request with \<^verbatim>\<open>bypassCache: true\<close>: the clip is
  generated and returned with \<^verbatim>\<open>cacheHit: false\<close>, no cache write is among the calls, and
  afterwards neither cache holds an entry.
\<close>

theorem bypassed_clip_not_cached_counterexample:
  "requestBypassCache exampleEnv bypassBody \<and>
   POST exampleEnv emptyStore (Some bypassBody)
     = (JsonClip exampleClip False, emptyStore,
        [CreateClient, ExtractFrames 0 [10, 18],
         GenerateVideos (0, 0, 0) (exampleCall 10 fastModel ''ALLOW_ADULT'')]) \<and>
   adClipCache emptyStore = [] \<and> cacheDir emptyStore = []"
proof -
  have "requestBypassCache exampleEnv bypassBody"
    by (simp add: requestBypassCache_def bypassBody_def)
  moreover have "adClipCache emptyStore = []" "cacheDir emptyStore = []"
    by (simp_all add: emptyStore_def)
  ultimately show ?thesis by (simp only: example_runs(2) simp_thms)
qed

subsection \<open>C9: malformed requests are rejected before any call\<close>









end
